(* ===== verification/Prelude.thy ===== *)
theory Prelude
  imports Main "HOL-Library.Multiset"
begin

text \<open>
  Shared vocabulary of the development: the JavaScript values the tool stores in its
  data object, the reading rules of the language that the source relies on (truthiness,
  the string conversion of the \<open>innerHTML\<close> setter, \<open>Object.assign\<close>), and the
  result type of a JavaScript statement sequence that may throw: a state-passing
  function that returns either the thrown error together with the state reached when
  it was thrown, or the value together with the final state. Every component theory
  imports this one.
\<close>

named_theorems js_simps "evaluation rules of the result monad and the JavaScript value helpers"

section \<open>JavaScript values and objects\<close>

text \<open>
  The values that reach the tool's data object: \<open>undefined\<close>, \<open>null\<close>, booleans,
  strings, and host objects (the element Editor.js hands to a tag paste), an object
  known by its class name, which is all its string conversion reads. Saved block data
  is JSON; numbers and arrays are not used by the tool and are not modelled. An object
  of the tool's own is a partial map from property names to values; an absent key reads
  as \<open>undefined\<close>.
\<close>

datatype jsval = JUndef | JNull | JBool bool | JStr string | JObj string

type_synonym js_obj = "string \<rightharpoonup> jsval"

text \<open>\<open>!!v\<close>: the truthiness of a property read (\<open>None\<close> is an absent property).\<close>

fun truthy :: "jsval option \<Rightarrow> bool" where
  "truthy None = False"
| "truthy (Some JUndef) = False"
| "truthy (Some JNull) = False"
| "truthy (Some (JBool b)) = b"
| "truthy (Some (JStr s)) = (s \<noteq> [])"
| "truthy (Some (JObj c)) = True"

text \<open>
  The conversion the \<open>innerHTML\<close> setter applies to its argument
  (\<open>[LegacyNullToEmptyString] DOMString\<close>): \<open>null\<close> is the empty string, every
  other value its \<open>ToString\<close>.
\<close>

fun to_dom_string :: "jsval option \<Rightarrow> string" where
  "to_dom_string None = ''undefined''"
| "to_dom_string (Some JUndef) = ''undefined''"
| "to_dom_string (Some JNull) = []"
| "to_dom_string (Some (JBool True)) = ''true''"
| "to_dom_string (Some (JBool False)) = ''false''"
| "to_dom_string (Some (JStr s)) = s"
| "to_dom_string (Some (JObj c)) = ''[object '' @ c @ '']''"

text \<open>
  \<open>v == name\<close> for a property read \<open>v\<close> and a string \<open>name\<close> that is not a numeric
  literal (the only comparisons the tool makes are with its three tune names): true
  exactly when \<open>v\<close> is that string. \<open>false == 'Centered'\<close> compares \<open>0\<close> with
  \<open>NaN\<close>, \<open>null\<close> and \<open>undefined\<close> equal only each other, and an object
  compares by its string conversion \<open>[object ...]\<close>, so every non-string value
  compares false.
\<close>

fun loose_eq_name :: "jsval option \<Rightarrow> string \<Rightarrow> bool" where
  "loose_eq_name (Some (JStr a)) n = (a = n)"
| "loose_eq_name _ n = False"

text \<open>
  \<open>Object.assign(target, source)\<close>: the source's own properties override the
  target's, the target's other properties stay. An \<open>undefined\<close> source (the getter
  before the first assignment) contributes nothing, which is the empty map.
\<close>

definition object_assign :: "js_obj \<Rightarrow> js_obj \<Rightarrow> js_obj" where
  "object_assign target source = target ++ source"

lemma object_assign_lookup [js_simps]:
  "object_assign t s k = (case s k of Some v \<Rightarrow> Some v | None \<Rightarrow> t k)"
  by (simp add: object_assign_def map_add_def split: option.splits)

lemma object_assign_empty [js_simps]: "object_assign Map.empty s = s"
  by (simp add: object_assign_def)

lemma object_assign_idem_single [js_simps]:
  "object_assign (object_assign t [k \<mapsto> v]) [k \<mapsto> v] = object_assign t [k \<mapsto> v]"
  by (simp add: object_assign_def)

lemma truthy_Some_JStr_iff [js_simps]: "truthy (Some (JStr s)) \<longleftrightarrow> s \<noteq> []"
  by simp

lemma loose_eq_name_iff [js_simps]: "loose_eq_name v n \<longleftrightarrow> v = Some (JStr n)"
  by (induction v n rule: loose_eq_name.induct) auto

section \<open>Lists\<close>

text \<open>A list whose multiset is part of the multiset of a list without repetitions has
  no repetitions.\<close>

lemma distinct_mset_sub: "mset xs + M = mset ys \<Longrightarrow> distinct ys \<Longrightarrow> distinct xs"
proof -
  assume eq: "mset xs + M = mset ys" and d: "distinct ys"
  have "count (mset xs) a \<le> 1" for a
  proof -
    have "count (mset xs) a \<le> count (mset ys) a" using eq by (metis count_union le_add1)
    also have "\<dots> \<le> 1" using d by (simp add: distinct_count_atmost_1)
    finally show ?thesis .
  qed
  then have "count (mset xs) a = (if a \<in> set xs then 1 else 0)" for a
    using count_mset_0_iff [of xs a] by (cases "a \<in> set xs") (auto simp: le_Suc_eq)
  then show "distinct xs"
    by (simp add: distinct_count_atmost_1)
qed

section \<open>Statements that may throw\<close>

text \<open>
  A thrown error of the source: a \<open>TypeError\<close> (a property read on \<open>null\<close>), or a
  \<open>DOMException\<close> raised by a DOM operation, each with the name the browser reports.
\<close>

datatype js_error = TypeError string | DOMException string

type_synonym ('a, 's) js = "'s \<Rightarrow> (js_error \<times> 's) + ('a \<times> 's)"

definition js_return :: "'a \<Rightarrow> ('a, 's) js" where
  "js_return x s = Inr (x, s)"

definition js_throw :: "js_error \<Rightarrow> ('a, 's) js" where
  "js_throw e s = Inl (e, s)"

definition js_bind :: "('a, 's) js \<Rightarrow> ('a \<Rightarrow> ('b, 's) js) \<Rightarrow> ('b, 's) js" where
  "js_bind m f s = (case m s of Inl es \<Rightarrow> Inl es | Inr (x, s') \<Rightarrow> f x s')"

definition js_then :: "(unit, 's) js \<Rightarrow> ('b, 's) js \<Rightarrow> ('b, 's) js" where
  "js_then m n = js_bind m (\<lambda>_. n)"

definition js_modify :: "('s \<Rightarrow> 's) \<Rightarrow> (unit, 's) js" where
  "js_modify f s = Inr ((), f s)"

definition js_gets :: "('s \<Rightarrow> 'a) \<Rightarrow> ('a, 's) js" where
  "js_gets f s = Inr (f s, s)"

text \<open>\<open>if (c) { m }\<close> with no else branch.\<close>

definition js_when :: "bool \<Rightarrow> (unit, 's) js \<Rightarrow> (unit, 's) js" where
  "js_when c m = (if c then m else js_return ())"

text \<open>\<open>xs.forEach(f)\<close>: the body runs on each element in order; a throw stops the loop.\<close>

fun js_for_each :: "'x list \<Rightarrow> ('x \<Rightarrow> (unit, 's) js) \<Rightarrow> (unit, 's) js" where
  "js_for_each [] f = js_return ()"
| "js_for_each (x # xs) f = js_then (f x) (js_for_each xs f)"

lemma js_return_apply [js_simps]: "js_return x s = Inr (x, s)"
  by (simp add: js_return_def)

lemma js_throw_apply [js_simps]: "js_throw e s = Inl (e, s)"
  by (simp add: js_throw_def)

lemma js_modify_apply [js_simps]: "js_modify f s = Inr ((), f s)"
  by (simp add: js_modify_def)

lemma js_gets_apply [js_simps]: "js_gets f s = Inr (f s, s)"
  by (simp add: js_gets_def)

lemma js_bind_apply [js_simps]:
  "js_bind m f s = (case m s of Inl es \<Rightarrow> Inl es | Inr (x, s') \<Rightarrow> f x s')"
  by (simp add: js_bind_def)

lemma js_then_apply [js_simps]:
  "js_then m n s = (case m s of Inl es \<Rightarrow> Inl es | Inr (_, s') \<Rightarrow> n s')"
  by (simp add: js_then_def js_bind_def)

lemma js_when_apply [js_simps]:
  "js_when c m s = (if c then m s else Inr ((), s))"
  by (simp add: js_when_def js_return_def)

lemma js_bind_return_left: "js_bind (js_return x) f = f x"
  by (simp add: js_bind_def js_return_def fun_eq_iff)

lemma js_bind_return_right: "js_bind m js_return = m"
  by (simp add: js_bind_def js_return_def fun_eq_iff split: sum.splits)

lemma js_bind_assoc: "js_bind (js_bind m f) g = js_bind m (\<lambda>x. js_bind (f x) g)"
  by (simp add: js_bind_def fun_eq_iff split: sum.splits)

lemma js_for_each_append:
  "js_for_each (xs @ ys) f = js_then (js_for_each xs f) (js_for_each ys f)"
  by (induction xs) (simp_all add: js_then_def js_bind_def js_return_def fun_eq_iff split: sum.splits)

text \<open>
  A property kept by every statement of a loop body, whether it completes or throws,
  is kept by the whole loop: the shape of every preservation proof below.
\<close>

definition js_keeps :: "('s \<Rightarrow> bool) \<Rightarrow> ('a, 's) js \<Rightarrow> bool" where
  "js_keeps P m \<longleftrightarrow>
     (\<forall>s e s'. P s \<longrightarrow> m s = Inl (e, s') \<longrightarrow> P s') \<and>
     (\<forall>s x s'. P s \<longrightarrow> m s = Inr (x, s') \<longrightarrow> P s')"

lemma js_keepsI [intro?]:
  "(\<And>s e s'. P s \<Longrightarrow> m s = Inl (e, s') \<Longrightarrow> P s') \<Longrightarrow>
   (\<And>s x s'. P s \<Longrightarrow> m s = Inr (x, s') \<Longrightarrow> P s') \<Longrightarrow> js_keeps P m"
  unfolding js_keeps_def by blast

lemma js_keepsD:
  "js_keeps P m \<Longrightarrow> P s \<Longrightarrow> m s = Inl (e, s') \<Longrightarrow> P s'"
  "js_keeps P m \<Longrightarrow> P s \<Longrightarrow> m s = Inr (x, s') \<Longrightarrow> P s'"
  unfolding js_keeps_def by blast+

lemma js_keeps_return [intro]: "js_keeps P (js_return x)"
  by (simp add: js_keeps_def js_return_def)

lemma js_keeps_throw [intro]: "js_keeps P (js_throw e)"
  by (simp add: js_keeps_def js_throw_def)

lemma js_keeps_gets [intro]: "js_keeps P (js_gets f)"
  by (simp add: js_keeps_def js_gets_def)

lemma js_keeps_modify [intro]: "(\<And>s. P s \<Longrightarrow> P (f s)) \<Longrightarrow> js_keeps P (js_modify f)"
  by (simp add: js_keeps_def js_modify_def)

lemma js_keeps_bind [intro]:
  assumes m: "js_keeps P m" and f: "\<And>x. js_keeps P (f x)"
  shows "js_keeps P (js_bind m f)"
proof
  fix s e s'
  assume "P s" and r: "js_bind m f s = Inl (e, s')"
  show "P s'"
  proof (cases "m s")
    case (Inl es)
    with r \<open>P s\<close> m show ?thesis by (cases es) (auto simp: js_bind_def dest: js_keepsD)
  next
    case (Inr xs)
    with r \<open>P s\<close> m f show ?thesis by (cases xs) (auto simp: js_bind_def dest: js_keepsD)
  qed
next
  fix s x s'
  assume "P s" and r: "js_bind m f s = Inr (x, s')"
  show "P s'"
  proof (cases "m s")
    case (Inl es)
    with r show ?thesis by (cases es) (simp add: js_bind_def)
  next
    case (Inr xs)
    with r \<open>P s\<close> m f show ?thesis by (cases xs) (auto simp: js_bind_def dest: js_keepsD)
  qed
qed

lemma js_keeps_then [intro]:
  "js_keeps P m \<Longrightarrow> js_keeps P n \<Longrightarrow> js_keeps P (js_then m n)"
  unfolding js_then_def by (rule js_keeps_bind)

lemma js_keeps_when [intro]: "js_keeps P m \<Longrightarrow> js_keeps P (js_when c m)"
  by (simp add: js_when_def js_keeps_return)

lemma js_keeps_if [intro]:
  "js_keeps P m \<Longrightarrow> js_keeps P n \<Longrightarrow> js_keeps P (if c then m else n)"
  by simp

lemma js_keeps_for_each [intro]:
  "(\<And>x. x \<in> set xs \<Longrightarrow> js_keeps P (f x)) \<Longrightarrow> js_keeps P (js_for_each xs f)"
  by (induction xs) (simp_all add: js_keeps_return js_keeps_then)

lemma js_keeps_option_case [intro]:
  "js_keeps P n \<Longrightarrow> (\<And>y. js_keeps P (g y)) \<Longrightarrow> js_keeps P (case x of None \<Rightarrow> n | Some y \<Rightarrow> g y)"
  by (cases x) simp_all

text \<open>The state a statement sequence ends in, whether it completed or threw.\<close>

definition js_state :: "(js_error \<times> 's) + ('a \<times> 's) \<Rightarrow> 's" where
  "js_state r = (case r of Inl (_, s) \<Rightarrow> s | Inr (_, s) \<Rightarrow> s)"

lemma js_state_simps [simp]: "js_state (Inl (e, s)) = s" "js_state (Inr (x, s)) = s"
  by (simp_all add: js_state_def)

lemma js_keeps_state: "js_keeps P m \<Longrightarrow> P s \<Longrightarrow> P (js_state (m s))"
  by (cases "m s") (auto simp: js_state_def dest: js_keepsD)

lemma js_keeps_stateI: "(\<And>s. P s \<Longrightarrow> P (js_state (m s))) \<Longrightarrow> js_keeps P m"
  unfolding js_keeps_def by (metis js_state_simps)

section \<open>Statements that commute with a map of the state\<close>

text \<open>
  \<open>js_commutes g m\<close>: running \<open>m\<close> on \<open>g s\<close> gives the outcome of running it on \<open>s\<close>, with
  \<open>g\<close> applied to the state reached (on a throw as well). Like \<open>js_keeps\<close>, it has one
  introduction rule per combinator, collected in \<open>commutes\<close>.
\<close>

definition js_res_map :: "('s \<Rightarrow> 's) \<Rightarrow> (js_error \<times> 's) + ('a \<times> 's) \<Rightarrow> (js_error \<times> 's) + ('a \<times> 's)" where
  "js_res_map g r = (case r of Inl (e, s) \<Rightarrow> Inl (e, g s) | Inr (x, s) \<Rightarrow> Inr (x, g s))"

definition js_commutes :: "('s \<Rightarrow> 's) \<Rightarrow> ('a, 's) js \<Rightarrow> bool" where
  "js_commutes g m \<longleftrightarrow> (\<forall>s. m (g s) = js_res_map g (m s))"

named_theorems commutes "statements that commute with a state map"

lemma js_res_map_simps [simp]:
  "js_res_map g (Inl (e, s)) = Inl (e, g s)" "js_res_map g (Inr (x, s)) = Inr (x, g s)"
  by (simp_all add: js_res_map_def)

lemma js_commutesD: "js_commutes g m \<Longrightarrow> m (g s) = js_res_map g (m s)"
  by (simp add: js_commutes_def)

lemma js_commutes_state: "js_commutes g m \<Longrightarrow> js_state (m (g s)) = g (js_state (m s))"
  by (cases "m s") (auto simp: js_commutes_def)

lemma js_commutes_return [commutes]: "js_commutes g (js_return x)"
  and js_commutes_throw [commutes]: "js_commutes g (js_throw e)"
  by (simp_all add: js_commutes_def js_return_def js_throw_def)

lemma js_commutes_gets [commutes]: "(\<And>s. f (g s) = f s) \<Longrightarrow> js_commutes g (js_gets f)"
  by (simp add: js_commutes_def js_gets_def)

lemma js_commutes_modify [commutes]: "(\<And>s. f (g s) = g (f s)) \<Longrightarrow> js_commutes g (js_modify f)"
  by (simp add: js_commutes_def js_modify_def)

lemma js_commutes_bind [commutes]:
  assumes "js_commutes g m" and "\<And>x. js_commutes g (f x)"
  shows "js_commutes g (js_bind m f)"
  unfolding js_commutes_def
proof
  fix s show "js_bind m f (g s) = js_res_map g (js_bind m f s)"
    using assms by (cases "m s") (auto simp: js_bind_def js_commutes_def)
qed

lemma js_commutes_then [commutes]:
  "js_commutes g m \<Longrightarrow> js_commutes g n \<Longrightarrow> js_commutes g (js_then m n)"
  unfolding js_then_def by (rule js_commutes_bind)

lemma js_commutes_when [commutes]: "js_commutes g m \<Longrightarrow> js_commutes g (js_when c m)"
  by (simp add: js_when_def js_commutes_return)

lemma js_commutes_for_each [commutes]:
  "(\<And>x. js_commutes g (f x)) \<Longrightarrow> js_commutes g (js_for_each xs f)"
  by (induction xs) (simp_all add: js_commutes_return js_commutes_then)

lemma js_commutes_option_case [commutes]:
  "js_commutes g n \<Longrightarrow> (\<And>y. js_commutes g (h y)) \<Longrightarrow> js_commutes g (case x of None \<Rightarrow> n | Some y \<Rightarrow> h y)"
  by (cases x) simp_all

lemma js_commutes_if [commutes]:
  "js_commutes g m \<Longrightarrow> js_commutes g n \<Longrightarrow> js_commutes g (if c then m else n)"
  by simp

lemma js_state_res_map [simp]: "js_state (js_res_map g r) = g (js_state r)"
  by (cases r) (auto simp: js_res_map_def)

end
