(* ===== verification/Dom.thy ===== *)
theory Dom
  imports Prelude "HOL-Library.AList"
begin

text \<open>
  The browser DOM as far as the tool uses it (src/src/index.js calls
  \<open>document.createElement\<close>, \<open>classList.add/remove\<close>, \<open>appendChild\<close>,
  \<open>remove\<close>, \<open>parentElement\<close>, the \<open>innerHTML\<close> getter and setter,
  \<open>setAttribute\<close>, \<open>querySelector\<close> and \<open>document.getElementById\<close>).

  Nodes are trees; an element carries its identity (a number handed out by the
  allocator, standing for the JavaScript object), its tag name, its class list, its
  other attributes and its children. The state holds the trees attached to the
  document, in document order, and the trees that are not attached (created and not yet
  inserted, removed, or replaced by an \<open>innerHTML\<close> assignment): a detached node
  keeps existing, as the JavaScript object does for whoever still holds a reference,
  and its \<open>parentElement\<close> is \<open>null\<close>.

  The browser's HTML fragment parser and serializer are not modelled: they are two
  functions of the state, fixed by the browser and never changed by an operation. The
  theorems that need a property of them (the serialization of a parsed fragment parses
  back to the same fragment) take it as a hypothesis about the particular markup.
\<close>

section \<open>Trees\<close>

text \<open>Parsed markup: what the HTML parser produces and the serializer consumes.\<close>

datatype markup =
    MElem string "string list" "(string \<times> string) list" "markup list"
  | MText string

text \<open>Live nodes: markup with an identity on every element.\<close>

datatype node =
    Elem nat string "string list" "(string \<times> string) list" "node list"
  | Text string

fun elem_id :: "node \<Rightarrow> nat option" where
  "elem_id (Elem i _ _ _ _) = Some i"
| "elem_id (Text _) = None"

fun children_of :: "node \<Rightarrow> node list" where
  "children_of (Elem _ _ _ _ cs) = cs"
| "children_of (Text _) = []"

fun classes_of :: "node \<Rightarrow> string list" where
  "classes_of (Elem _ _ cls _ _) = cls"
| "classes_of (Text _) = []"

fun tag_of :: "node \<Rightarrow> string option" where
  "tag_of (Elem _ t _ _ _) = Some t"
| "tag_of (Text _) = None"

fun attrs_of :: "node \<Rightarrow> (string \<times> string) list" where
  "attrs_of (Elem _ _ _ a _) = a"
| "attrs_of (Text _) = []"

fun map_classes :: "(string list \<Rightarrow> string list) \<Rightarrow> node \<Rightarrow> node" where
  "map_classes f (Elem i t cls a cs) = Elem i t (f cls) a cs"
| "map_classes f (Text s) = Text s"

fun map_attrs :: "((string \<times> string) list \<Rightarrow> (string \<times> string) list) \<Rightarrow> node \<Rightarrow> node" where
  "map_attrs f (Elem i t cls a cs) = Elem i t cls (f a) cs"
| "map_attrs f (Text s) = Text s"

fun map_children :: "(node list \<Rightarrow> node list) \<Rightarrow> node \<Rightarrow> node" where
  "map_children f (Elem i t cls a cs) = Elem i t cls a (f cs)"
| "map_children f (Text s) = Text s"

text \<open>Forgetting identities (what the serializer sees).\<close>

fun strip :: "node \<Rightarrow> markup" and strips :: "node list \<Rightarrow> markup list" where
  "strip (Elem i t cls a cs) = MElem t cls a (strips cs)"
| "strip (Text s) = MText s"
| "strips [] = []"
| "strips (n # ns) = strip n # strips ns"

text \<open>Giving fresh identities to parsed markup, in document order, from a counter.\<close>

fun alloc :: "nat \<Rightarrow> markup \<Rightarrow> node \<times> nat"
  and allocs :: "nat \<Rightarrow> markup list \<Rightarrow> node list \<times> nat" where
  "alloc n (MElem t cls a ms) = (case allocs (Suc n) ms of (cs, n') \<Rightarrow> (Elem n t cls a cs, n'))"
| "alloc n (MText s) = (Text s, n)"
| "allocs n [] = ([], n)"
| "allocs n (m # ms) =
     (case alloc n m of (x, n') \<Rightarrow> (case allocs n' ms of (xs, n'') \<Rightarrow> (x # xs, n'')))"

text \<open>The identities of the elements of a tree, in document order.\<close>

fun ids :: "node \<Rightarrow> nat list" and ids_list :: "node list \<Rightarrow> nat list" where
  "ids (Elem i t cls a cs) = i # ids_list cs"
| "ids (Text s) = []"
| "ids_list [] = []"
| "ids_list (n # ns) = ids n @ ids_list ns"

text \<open>The element with a given identity, searched in document order.\<close>

fun find_node :: "nat \<Rightarrow> node \<Rightarrow> node option"
  and find_list :: "nat \<Rightarrow> node list \<Rightarrow> node option" where
  "find_node x (Elem i t cls a cs) = (if i = x then Some (Elem i t cls a cs) else find_list x cs)"
| "find_node x (Text s) = None"
| "find_list x [] = None"
| "find_list x (n # ns) = (case find_node x n of Some r \<Rightarrow> Some r | None \<Rightarrow> find_list x ns)"

text \<open>\<open>parentElement\<close>: the identity of the element whose child list holds the element.\<close>

fun parent_node :: "nat \<Rightarrow> node \<Rightarrow> nat option"
  and parent_list :: "nat \<Rightarrow> node list \<Rightarrow> nat option" where
  "parent_node x (Elem i t cls a cs) =
     (if Some x \<in> set (map elem_id cs) then Some i else parent_list x cs)"
| "parent_node x (Text s) = None"
| "parent_list x [] = None"
| "parent_list x (n # ns) = (case parent_node x n of Some p \<Rightarrow> Some p | None \<Rightarrow> parent_list x ns)"

text \<open>Changing the element with a given identity.\<close>

fun modify_node :: "nat \<Rightarrow> (node \<Rightarrow> node) \<Rightarrow> node \<Rightarrow> node"
  and modify_list :: "nat \<Rightarrow> (node \<Rightarrow> node) \<Rightarrow> node list \<Rightarrow> node list" where
  "modify_node x f (Elem i t cls a cs) =
     (if i = x then f (Elem i t cls a cs) else Elem i t cls a (modify_list x f cs))"
| "modify_node x f (Text s) = Text s"
| "modify_list x f [] = []"
| "modify_list x f (n # ns) = modify_node x f n # modify_list x f ns"

text \<open>Cutting the element with a given identity out of the tree it is in.\<close>

fun remove_node :: "nat \<Rightarrow> node \<Rightarrow> node"
  and remove_list :: "nat \<Rightarrow> node list \<Rightarrow> node list" where
  "remove_node x (Elem i t cls a cs) = Elem i t cls a (remove_list x cs)"
| "remove_node x (Text s) = Text s"
| "remove_list x [] = []"
| "remove_list x (n # ns) =
     (if elem_id n = Some x then remove_list x ns else remove_node x n # remove_list x ns)"

text \<open>The first element, in document order, with a tag name (\<open>querySelector(tag)\<close>).\<close>

fun first_tag_node :: "string \<Rightarrow> node \<Rightarrow> nat option"
  and first_tag_list :: "string \<Rightarrow> node list \<Rightarrow> nat option" where
  "first_tag_node tg (Elem i t cls a cs) =
     (if t = tg then Some i else first_tag_list tg cs)"
| "first_tag_node tg (Text s) = None"
| "first_tag_list tg [] = None"
| "first_tag_list tg (n # ns) =
     (case first_tag_node tg n of Some r \<Rightarrow> Some r | None \<Rightarrow> first_tag_list tg ns)"

text \<open>The first element, in document order, whose \<open>id\<close> attribute has a value.\<close>

fun first_id_node :: "string \<Rightarrow> node \<Rightarrow> nat option"
  and first_id_list :: "string \<Rightarrow> node list \<Rightarrow> nat option" where
  "first_id_node v (Elem i t cls a cs) =
     (if map_of a ''id'' = Some v then Some i else first_id_list v cs)"
| "first_id_node v (Text s) = None"
| "first_id_list v [] = None"
| "first_id_list v (n # ns) =
     (case first_id_node v n of Some r \<Rightarrow> Some r | None \<Rightarrow> first_id_list v ns)"

section \<open>Lemmas on trees\<close>

named_theorems tree_simps "facts on the tree functions used by the DOM proofs"

lemma strip_alloc:
  "alloc n m = (x, n') \<Longrightarrow> strip x = m"
  "allocs n ms = (xs, n') \<Longrightarrow> strips xs = ms"
proof (induction n m and n ms arbitrary: x n' and xs n' rule: alloc_allocs.induct)
  case (1 n t cls a ms)
  then show ?case by (auto split: prod.splits)
next
  case (4 n m ms)
  then show ?case by (auto split: prod.splits)
qed auto

lemma strips_allocs [tree_simps]: "strips (fst (allocs n ms)) = ms"
  using strip_alloc(2) [of n ms] by (cases "allocs n ms") simp

lemma alloc_ids:
  "alloc n m = (x, n') \<Longrightarrow> n \<le> n' \<and> set (ids x) \<subseteq> {n..<n'} \<and> distinct (ids x)"
  "allocs n ms = (xs, n') \<Longrightarrow> n \<le> n' \<and> set (ids_list xs) \<subseteq> {n..<n'} \<and> distinct (ids_list xs)"
proof (induction n m and n ms arbitrary: x n' and xs n' rule: alloc_allocs.induct)
  case (1 n t cls a ms)
  then obtain cs where "allocs (Suc n) ms = (cs, n')" and "x = Elem n t cls a cs"
    by (auto split: prod.splits)
  with "1.IH" show ?case by fastforce
next
  case (4 n m ms)
  then obtain y k ys where a: "alloc n m = (y, k)" and b: "allocs k ms = (ys, n')"
    and "xs = y # ys"
    by (auto split: prod.splits)
  with "4.IH"(1) [OF a] "4.IH"(2) [OF a [symmetric] b] show ?case
    by fastforce
qed auto

lemma ids_list_append [simp, tree_simps]: "ids_list (xs @ ys) = ids_list xs @ ids_list ys"
  by (induction xs) auto

lemma find_list_append [tree_simps]:
  "find_list x (xs @ ys) = (case find_list x xs of Some r \<Rightarrow> Some r | None \<Rightarrow> find_list x ys)"
  by (induction xs) (auto split: option.splits)

lemma parent_list_append [tree_simps]:
  "parent_list x (xs @ ys) = (case parent_list x xs of Some p \<Rightarrow> Some p | None \<Rightarrow> parent_list x ys)"
  by (induction xs) (auto split: option.splits)

lemma modify_list_append [simp, tree_simps]:
  "modify_list x f (xs @ ys) = modify_list x f xs @ modify_list x f ys"
  by (induction xs) auto

lemma remove_list_append [simp, tree_simps]:
  "remove_list x (xs @ ys) = remove_list x xs @ remove_list x ys"
  by (induction xs) auto

lemma elem_id_ids_list: "Some x \<in> set (map elem_id ns) \<Longrightarrow> x \<in> set (ids_list ns)"
proof (induction ns)
  case (Cons n ns)
  then show ?case by (cases n) auto
qed simp

text \<open>An identity that does not occur in a tree is not found, has no parent, and
  changing or cutting it leaves the tree as it is.\<close>

lemma absent_id:
  "x \<notin> set (ids n) \<Longrightarrow> find_node x n = None \<and> parent_node x n = None \<and>
     modify_node x f n = n \<and> remove_node x n = n"
  "x \<notin> set (ids_list ns) \<Longrightarrow> find_list x ns = None \<and> parent_list x ns = None \<and>
     modify_list x f ns = ns \<and> remove_list x ns = ns"
proof (induction n and ns rule: ids_ids_list.induct)
  case (1 i t cls a cs)
  then have "x \<notin> set (ids_list cs)" by simp
  then have "Some x \<notin> set (map elem_id cs)"
    using elem_id_ids_list by blast
  with 1 show ?case by auto
next
  case (4 n ns)
  then show ?case by (cases n) auto
qed auto

lemma absent_id_simps [tree_simps]:
  "x \<notin> set (ids_list ns) \<Longrightarrow> find_list x ns = None"
  "x \<notin> set (ids_list ns) \<Longrightarrow> parent_list x ns = None"
  "x \<notin> set (ids_list ns) \<Longrightarrow> modify_list x f ns = ns"
  "x \<notin> set (ids_list ns) \<Longrightarrow> remove_list x ns = ns"
  using absent_id(2) by blast+

lemma find_ids:
  "find_node x n = Some m \<Longrightarrow> elem_id m = Some x \<and> set (ids m) \<subseteq> set (ids n)"
  "find_list x ns = Some m \<Longrightarrow> elem_id m = Some x \<and> set (ids m) \<subseteq> set (ids_list ns)"
  by (induction x n and x ns rule: find_node_find_list.induct) (auto split: if_splits option.splits)

lemma find_None_iff:
  "find_node x n = None \<longleftrightarrow> x \<notin> set (ids n)"
  "find_list x ns = None \<longleftrightarrow> x \<notin> set (ids_list ns)"
  by (induction x n and x ns rule: find_node_find_list.induct) (auto split: option.splits)

lemma modify_ids_mset:
  "distinct (ids n) \<Longrightarrow> find_node x n = Some m \<Longrightarrow>
     mset (ids (modify_node x f n)) + mset (ids m) = mset (ids n) + mset (ids (f m))"
  "distinct (ids_list ns) \<Longrightarrow> find_list x ns = Some m \<Longrightarrow>
     mset (ids_list (modify_list x f ns)) + mset (ids m) = mset (ids_list ns) + mset (ids (f m))"
proof (induction x f n and x f ns rule: modify_node_modify_list.induct)
  case (1 x f i t cls a cs)
  then show ?case by (auto split: if_splits)
next
  case (4 x f n ns)
  show ?case
  proof (cases "find_node x n")
    case None
    then have "modify_node x f n = n" using absent_id(1) find_None_iff(1) by blast
    with None 4 show ?thesis by auto
  next
    case (Some m')
    with "4.prems" have m: "m' = m" by simp
    from Some find_ids(1) have "x \<in> set (ids n)" by (metis find_None_iff(1) option.distinct(1))
    with "4.prems"(1) have "x \<notin> set (ids_list ns)" by auto
    then have "modify_list x f ns = ns" by (simp add: absent_id_simps)
    with Some m 4 show ?thesis by (simp add: add.assoc add.commute add.left_commute)
  qed
qed auto

lemma remove_ids_mset:
  "distinct (ids n) \<Longrightarrow> find_node x n = Some m \<Longrightarrow> elem_id n \<noteq> Some x \<Longrightarrow>
     mset (ids (remove_node x n)) + mset (ids m) = mset (ids n)"
  "distinct (ids_list ns) \<Longrightarrow> find_list x ns = Some m \<Longrightarrow>
     mset (ids_list (remove_list x ns)) + mset (ids m) = mset (ids_list ns)"
proof (induction x n and x ns rule: remove_node_remove_list.induct)
  case (1 x i t cls a cs)
  then show ?case by (auto split: if_splits)
next
  case (4 x n ns)
  show ?case
  proof (cases "elem_id n = Some x")
    case True
    then obtain t cls a cs where n: "n = Elem x t cls a cs" by (cases n) auto
    with "4.prems" have "m = n" by simp
    moreover from n "4.prems"(1) have "x \<notin> set (ids_list ns)" by auto
    ultimately show ?thesis using True n by (simp add: absent_id_simps add.commute)
  next
    case False
    show ?thesis
    proof (cases "find_node x n")
      case None
      then have "remove_node x n = n" using absent_id(1) find_None_iff(1) by blast
      with None False 4 show ?thesis by auto
    next
      case (Some m')
      with "4.prems" have m: "m' = m" by simp
      from Some have "x \<in> set (ids n)" by (metis find_None_iff(1) option.distinct(1))
      with "4.prems"(1) have "x \<notin> set (ids_list ns)" by auto
      then have "remove_list x ns = ns" by (simp add: absent_id_simps)
      moreover have "mset (ids (remove_node x n)) + mset (ids m) = mset (ids n)"
        using "4.IH" False Some m "4.prems"(1) by auto
      ultimately show ?thesis using False
        by (simp add: add.assoc add.commute add.left_commute)
    qed
  qed
qed auto

lemma modify_ids_same:
  "(\<And>n. ids (f n) = ids n) \<Longrightarrow> ids (modify_node x f n) = ids n"
  "(\<And>n. ids (f n) = ids n) \<Longrightarrow> ids_list (modify_list x f ns) = ids_list ns"
  by (induction x f n and x f ns rule: modify_node_modify_list.induct) auto

section \<open>The DOM state and its operations\<close>

record dom =
  document :: "node list"
  fragments :: "node list"
  next_id :: nat
  html_parse :: "string \<Rightarrow> markup list"
  html_serialize :: "markup list \<Rightarrow> string"

definition all_roots :: "'z dom_scheme \<Rightarrow> node list" where
  "all_roots s = document s @ fragments s"

definition on_roots :: "(node list \<Rightarrow> node list) \<Rightarrow> 'z dom_scheme \<Rightarrow> 'z dom_scheme" where
  "on_roots f s = s\<lparr>document := f (document s), fragments := f (fragments s)\<rparr>"

definition lookup_elem :: "nat \<Rightarrow> 'z dom_scheme \<Rightarrow> node option" where
  "lookup_elem x s = find_list x (all_roots s)"

text \<open>\<open>parentElement\<close>: \<open>None\<close> is \<open>null\<close>.\<close>

definition parent_element :: "nat \<Rightarrow> 'z dom_scheme \<Rightarrow> nat option" where
  "parent_element x s = parent_list x (all_roots s)"

text \<open>
  The error a DOM method raises when handed something that is not a node; the tool
  only ever hands over the elements it created, so the branches that raise it are
  unreachable from the tool (\<open>dom_wf\<close> below).
\<close>

definition not_a_node :: js_error where
  "not_a_node = TypeError ''parameter 1 is not of type Node''"

text \<open>\<open>document.createElement(tag)\<close>: a new element, not attached.\<close>

definition create_element :: "string \<Rightarrow> (nat, 'z dom_scheme) js" where
  "create_element tg s =
     Inr (next_id s, s\<lparr>fragments := fragments s @ [Elem (next_id s) tg [] [] []],
                     next_id := Suc (next_id s)\<rparr>)"

text \<open>
  \<open>classList.add(tokens)\<close> and \<open>classList.remove(tokens)\<close> validate every token
  first: the empty token raises \<open>SyntaxError\<close>, a token with ASCII whitespace
  \<open>InvalidCharacterError\<close>. Then \<open>add\<close> appends each token not yet present and
  \<open>remove\<close> drops every occurrence.
\<close>

definition ascii_whitespace :: "char list" where
  "ascii_whitespace = [CHR 0x09, CHR 0x0A, CHR 0x0C, CHR 0x0D, CHR 0x20]"

fun token_check :: "string list \<Rightarrow> js_error option" where
  "token_check [] = None"
| "token_check (c # cs) =
     (if c = [] then Some (DOMException ''SyntaxError'')
      else if \<exists>ch \<in> set c. ch \<in> set ascii_whitespace
        then Some (DOMException ''InvalidCharacterError'')
      else token_check cs)"

fun tok_add :: "string list \<Rightarrow> string list \<Rightarrow> string list" where
  "tok_add cls [] = cls"
| "tok_add cls (c # cs) = tok_add (if c \<in> set cls then cls else cls @ [c]) cs"

definition tok_remove :: "string list \<Rightarrow> string list \<Rightarrow> string list" where
  "tok_remove cls cs = filter (\<lambda>c. c \<notin> set cs) cls"

definition class_list_add :: "nat \<Rightarrow> string list \<Rightarrow> (unit, 'z dom_scheme) js" where
  "class_list_add x cs s =
     (case token_check cs of
        Some e \<Rightarrow> Inl (e, s)
      | None \<Rightarrow> Inr ((), on_roots (modify_list x (map_classes (\<lambda>cls. tok_add cls cs))) s))"

definition class_list_remove :: "nat \<Rightarrow> string list \<Rightarrow> (unit, 'z dom_scheme) js" where
  "class_list_remove x cs s =
     (case token_check cs of
        Some e \<Rightarrow> Inl (e, s)
      | None \<Rightarrow> Inr ((), on_roots (modify_list x (map_classes (\<lambda>cls. tok_remove cls cs))) s))"

text \<open>\<open>setAttribute(name, value)\<close> for a lower-case name: replaces or appends.\<close>

definition set_attribute :: "nat \<Rightarrow> string \<Rightarrow> string \<Rightarrow> (unit, 'z dom_scheme) js" where
  "set_attribute x k v s = Inr ((), on_roots (modify_list x (map_attrs (AList.update k v))) s)"

text \<open>
  \<open>p.appendChild(c)\<close>: \<open>c\<close> is cut from where it is and becomes the last child of
  \<open>p\<close>; appending an ancestor of \<open>p\<close> raises \<open>HierarchyRequestError\<close>.
\<close>

definition append_child :: "nat \<Rightarrow> nat \<Rightarrow> (unit, 'z dom_scheme) js" where
  "append_child p c s =
     (case lookup_elem c s of
        None \<Rightarrow> Inl (not_a_node, s)
      | Some sub \<Rightarrow>
          if p \<in> set (ids sub) then Inl (DOMException ''HierarchyRequestError'', s)
          else Inr ((), on_roots (modify_list p (map_children (\<lambda>cs. cs @ [sub])))
                           (on_roots (remove_list c) s)))"

text \<open>\<open>x.remove()\<close>: a node with a parent is cut out and kept detached; a node
  without a parent is left alone.\<close>

definition remove_elem :: "nat \<Rightarrow> (unit, 'z dom_scheme) js" where
  "remove_elem x s =
     (case (parent_element x s, lookup_elem x s) of
        (Some _, Some sub) \<Rightarrow>
          Inr ((), let s' = on_roots (remove_list x) s in s'\<lparr>fragments := fragments s' @ [sub]\<rparr>)
      | _ \<Rightarrow> Inr ((), s))"

text \<open>
  \<open>p.innerHTML = str\<close>: the parsed fragment, with fresh identities, replaces the
  children of \<open>p\<close>; the old children are detached.
\<close>

definition set_inner_html :: "nat \<Rightarrow> string \<Rightarrow> (unit, 'z dom_scheme) js" where
  "set_inner_html p str s =
     (case lookup_elem p s of
        None \<Rightarrow> Inl (not_a_node, s)
      | Some pn \<Rightarrow>
          (case allocs (next_id s) (html_parse s str) of
             (ns, n') \<Rightarrow>
               Inr ((), let s' = on_roots (modify_list p (map_children (\<lambda>_. ns))) s
                        in s'\<lparr>fragments := fragments s' @ children_of pn, next_id := n'\<rparr>)))"

text \<open>The \<open>innerHTML\<close> getter: the serialization of the children.\<close>

definition get_inner_html :: "nat \<Rightarrow> (string, 'z dom_scheme) js" where
  "get_inner_html p s =
     (case lookup_elem p s of
        None \<Rightarrow> Inl (not_a_node, s)
      | Some pn \<Rightarrow> Inr (html_serialize s (strips (children_of pn)), s))"

text \<open>\<open>r.querySelector(tag)\<close>: the first descendant with that tag, or \<open>null\<close>.\<close>

definition query_selector :: "nat \<Rightarrow> string \<Rightarrow> (nat option, 'z dom_scheme) js" where
  "query_selector r tg s =
     (case lookup_elem r s of
        None \<Rightarrow> Inl (not_a_node, s)
      | Some rn \<Rightarrow> Inr (first_tag_list tg (children_of rn), s))"

text \<open>\<open>document.getElementById(v)\<close>: the first attached element with that id.\<close>

definition get_element_by_id :: "string \<Rightarrow> (nat option, 'z dom_scheme) js" where
  "get_element_by_id v s = Inr (first_id_list v (document s), s)"

section \<open>Well-formed DOM states\<close>

text \<open>
  Every element has its own identity, and every identity was handed out by the
  allocator: the property that makes an identity a reference to one object.
\<close>

definition dom_wf :: "'z dom_scheme \<Rightarrow> bool" where
  "dom_wf s \<longleftrightarrow> distinct (ids_list (all_roots s)) \<and> (\<forall>i \<in> set (ids_list (all_roots s)). i < next_id s)"

lemma all_roots_on_roots [simp]:
  "all_roots (on_roots (modify_list x f) s) = modify_list x f (all_roots s)"
  "all_roots (on_roots (remove_list x) s) = remove_list x (all_roots s)"
  by (simp_all add: all_roots_def on_roots_def)

lemma on_roots_fields [simp]:
  "next_id (on_roots f s) = next_id s"
  "html_parse (on_roots f s) = html_parse s"
  "html_serialize (on_roots f s) = html_serialize s"
  "dom.more (on_roots f s) = dom.more s"
  by (simp_all add: on_roots_def)

lemma ids_map_classes [simp]: "ids (map_classes f n) = ids n"
  by (cases n) simp_all

lemma ids_map_attrs [simp]: "ids (map_attrs f n) = ids n"
  by (cases n) simp_all

text \<open>A state whose identities are those of a well-formed state plus fresh ones is
  well formed.\<close>

lemma dom_wf_extend:
  assumes wf: "dom_wf s"
    and eq: "mset (ids_list (all_roots s')) = mset (ids_list (all_roots s)) + mset extra"
    and fresh: "distinct extra" "\<forall>i \<in> set extra. next_id s \<le> i \<and> i < next_id s'"
    and grow: "next_id s \<le> next_id s'"
  shows "dom_wf s'"
proof -
  let ?old = "ids_list (all_roots s)"
  have "set ?old \<inter> set extra = {}"
  proof -
    have False if "i \<in> set ?old" "i \<in> set extra" for i
    proof -
      from that wf fresh have "i < next_id s" "next_id s \<le> i" by (auto simp: dom_wf_def)
      then show False by simp
    qed
    then show ?thesis by blast
  qed
  with wf fresh have "distinct (?old @ extra)" by (simp add: dom_wf_def)
  moreover from eq have "mset (ids_list (all_roots s')) = mset (?old @ extra)" by simp
  ultimately have d: "distinct (ids_list (all_roots s'))" using mset_eq_imp_distinct_iff by blast
  from eq have "set (ids_list (all_roots s')) = set (?old @ extra)"
    by (metis mset_append mset_eq_setD)
  with wf fresh grow have "\<forall>i \<in> set (ids_list (all_roots s')). i < next_id s'"
    by (auto simp: dom_wf_def)
  with d show ?thesis by (simp add: dom_wf_def)
qed

lemma dom_wf_shrink:
  assumes wf: "dom_wf s"
    and eq: "mset (ids_list (all_roots s')) + M = mset (ids_list (all_roots s))"
    and grow: "next_id s \<le> next_id s'"
  shows "dom_wf s'"
proof -
  from eq wf have d: "distinct (ids_list (all_roots s'))"
    using distinct_mset_sub by (auto simp: dom_wf_def)
  from eq have "set (ids_list (all_roots s')) \<subseteq> set (ids_list (all_roots s))"
    by (metis mset_subset_eq_add_left set_mset_mono set_mset_mset)
  with wf grow have "\<forall>i \<in> set (ids_list (all_roots s')). i < next_id s'"
    unfolding dom_wf_def using order_less_le_trans by blast
  with d show ?thesis by (simp add: dom_wf_def)
qed

lemma create_element_wf: "js_keeps dom_wf (create_element tg)"
proof
  fix s x s'
  assume wf: "dom_wf s" and r: "create_element tg s = Inr (x, s')"
  then have eq: "mset (ids_list (all_roots s')) = mset (ids_list (all_roots s)) + mset [next_id s]"
    and n: "next_id s' = Suc (next_id s)"
    by (auto simp: create_element_def all_roots_def)
  show "dom_wf s'" by (rule dom_wf_extend [OF wf eq]) (simp_all add: n)
qed (simp add: create_element_def)

lemma class_list_add_wf: "js_keeps dom_wf (class_list_add x cs)"
proof
  fix s u s'
  assume "dom_wf s" and "class_list_add x cs s = Inr (u, s')"
  then show "dom_wf s'"
    by (auto simp: class_list_add_def dom_wf_def modify_ids_same split: option.splits)
qed (auto simp: class_list_add_def split: option.splits)

lemma class_list_remove_wf: "js_keeps dom_wf (class_list_remove x cs)"
proof
  fix s u s'
  assume "dom_wf s" and "class_list_remove x cs s = Inr (u, s')"
  then show "dom_wf s'"
    by (auto simp: class_list_remove_def dom_wf_def modify_ids_same split: option.splits)
qed (auto simp: class_list_remove_def split: option.splits)

lemma set_attribute_wf: "js_keeps dom_wf (set_attribute x k v)"
proof
  fix s u s'
  assume "dom_wf s" and "set_attribute x k v s = Inr (u, s')"
  then show "dom_wf s'"
    by (auto simp: set_attribute_def dom_wf_def modify_ids_same)
qed (simp add: set_attribute_def)

lemma find_elem_shape:
  "find_list x ns = Some m \<Longrightarrow> \<exists>t cls a cs. m = Elem x t cls a cs"
  using find_ids(2) [of x ns m] by (cases m) auto

lemma append_child_wf: "js_keeps dom_wf (append_child p c)"
proof
  fix s u s'
  assume wf: "dom_wf s" and r: "append_child p c s = Inr (u, s')"
  let ?R = "all_roots s"
  from r obtain sub where sub: "find_list c ?R = Some sub" and p: "p \<notin> set (ids sub)"
    and s': "s' = on_roots (modify_list p (map_children (\<lambda>cs. cs @ [sub])))
                  (on_roots (remove_list c) s)"
    by (auto simp: append_child_def lookup_elem_def split: option.splits if_splits)
  let ?R1 = "remove_list c ?R"
  from wf have d: "distinct (ids_list ?R)" by (simp add: dom_wf_def)
  have rem: "mset (ids_list ?R1) + mset (ids sub) = mset (ids_list ?R)"
    by (rule remove_ids_mset(2) [OF d sub])
  then have d1: "distinct (ids_list ?R1)" using d distinct_mset_sub by blast
  show "dom_wf s'"
  proof (cases "find_list p ?R1")
    case None
    then have "p \<notin> set (ids_list ?R1)" by (simp add: find_None_iff)
    then have "modify_list p (map_children (\<lambda>cs. cs @ [sub])) ?R1 = ?R1"
      by (rule absent_id_simps(3))
    then have "all_roots s' = ?R1" by (simp add: s')
    with rem have eq: "mset (ids_list (all_roots s')) + mset (ids sub) = mset (ids_list ?R)" by simp
    show ?thesis by (rule dom_wf_shrink [OF wf eq]) (simp add: s')
  next
    case (Some m)
    then obtain t cls a cs where m: "m = Elem p t cls a cs" using find_elem_shape by blast
    have "mset (ids_list (modify_list p (map_children (\<lambda>cs. cs @ [sub])) ?R1)) + mset (ids m)
          = mset (ids_list ?R1) + mset (ids (map_children (\<lambda>cs. cs @ [sub]) m))"
      by (rule modify_ids_mset(2) [OF d1 Some])
    with m rem have "mset (ids_list (all_roots s')) = mset (ids_list ?R)"
      using s' by (simp add: ac_simps)
    then have eq: "mset (ids_list (all_roots s')) + {#} = mset (ids_list ?R)" by simp
    show ?thesis by (rule dom_wf_shrink [OF wf eq]) (simp add: s')
  qed
qed (auto simp: append_child_def split: option.splits if_splits)

lemma remove_elem_wf: "js_keeps dom_wf (remove_elem x)"
proof
  fix s u s'
  assume wf: "dom_wf s" and r: "remove_elem x s = Inr (u, s')"
  let ?R = "all_roots s"
  show "dom_wf s'"
  proof (cases "parent_element x s \<noteq> None \<and> lookup_elem x s \<noteq> None")
    case True
    then obtain sub where sub: "find_list x ?R = Some sub" by (auto simp: lookup_elem_def)
    with True r have s': "s' = (on_roots (remove_list x) s)\<lparr>fragments := fragments (on_roots (remove_list x) s) @ [sub]\<rparr>"
      by (auto simp: remove_elem_def lookup_elem_def Let_def)
    from wf have d: "distinct (ids_list ?R)" by (simp add: dom_wf_def)
    have "mset (ids_list (remove_list x ?R)) + mset (ids sub) = mset (ids_list ?R)"
      by (rule remove_ids_mset(2) [OF d sub])
    then have "mset (ids_list (all_roots s')) + {#} = mset (ids_list ?R)"
      using s' by (simp add: all_roots_def on_roots_def add.assoc)
    from dom_wf_shrink [OF wf this] show ?thesis by (simp add: s' on_roots_def)
  next
    case False
    with r wf show ?thesis by (auto simp: remove_elem_def split: option.splits)
  qed
qed (auto simp: remove_elem_def split: option.splits)

lemma set_inner_html_wf: "js_keeps dom_wf (set_inner_html p str)"
proof
  fix s u s'
  assume wf: "dom_wf s" and r: "set_inner_html p str s = Inr (u, s')"
  let ?R = "all_roots s"
  from r obtain pn ns n' where pn: "find_list p ?R = Some pn"
    and al: "allocs (next_id s) (html_parse s str) = (ns, n')"
    and s': "s' = (on_roots (modify_list p (map_children (\<lambda>_. ns))) s)
                   \<lparr>fragments := fragments (on_roots (modify_list p (map_children (\<lambda>_. ns))) s) @ children_of pn,
                    next_id := n'\<rparr>"
    by (auto simp: set_inner_html_def lookup_elem_def Let_def split: option.splits prod.splits)
  from pn obtain t cls a cs where pn_eq: "pn = Elem p t cls a cs" using find_elem_shape by blast
  from wf have d: "distinct (ids_list ?R)" by (simp add: dom_wf_def)
  have "mset (ids_list (modify_list p (map_children (\<lambda>_. ns)) ?R)) + mset (ids pn)
        = mset (ids_list ?R) + mset (ids (map_children (\<lambda>_. ns) pn))"
    by (rule modify_ids_mset(2) [OF d pn])
  then have eq: "mset (ids_list (all_roots s')) = mset (ids_list ?R) + mset (ids_list ns)"
    using s' pn_eq by (simp add: all_roots_def on_roots_def ac_simps)
  from alloc_ids(2) [OF al] have fresh: "distinct (ids_list ns)"
    "\<forall>i \<in> set (ids_list ns). next_id s \<le> i \<and> i < n'" and grow: "next_id s \<le> n'"
    by auto
  show "dom_wf s'"
    by (rule dom_wf_extend [OF wf eq fresh(1)]) (use fresh(2) grow in \<open>simp_all add: s'\<close>)
qed (auto simp: set_inner_html_def split: option.splits prod.splits)

lemma dom_reads_keep:
  "get_inner_html p s = Inr (v, s') \<Longrightarrow> s' = s"
  "query_selector r tg s = Inr (q, s') \<Longrightarrow> s' = s"
  "get_element_by_id i s = Inr (q, s') \<Longrightarrow> s' = s"
    apply (cases "lookup_elem p s"; simp add: get_inner_html_def)
   apply (cases "lookup_elem r s"; simp add: query_selector_def)
  apply (simp add: get_element_by_id_def)
  done

lemma dom_reads_wf:
  "js_keeps dom_wf (get_inner_html p)"
  "js_keeps dom_wf (query_selector r tg)"
  "js_keeps dom_wf (get_element_by_id i)"
proof -
  show "js_keeps dom_wf (get_inner_html p)"
    by (rule js_keepsI) (auto simp: get_inner_html_def split: option.split_asm)
  show "js_keeps dom_wf (query_selector r tg)"
    by (rule js_keepsI) (auto simp: query_selector_def split: option.split_asm)
  show "js_keeps dom_wf (get_element_by_id i)"
    by (rule js_keepsI) (auto simp: get_element_by_id_def)
qed

section \<open>Lemmas on the operations\<close>

lemma modify_map_classes_compose:
  "modify_node x (map_classes f) (modify_node x (map_classes g) n) = modify_node x (map_classes (f \<circ> g)) n"
  "modify_list x (map_classes f) (modify_list x (map_classes g) ns) = modify_list x (map_classes (f \<circ> g)) ns"
proof (induction x "map_classes g" n and x "map_classes g" ns rule: modify_node_modify_list.induct)
  case (1 x i t cls a cs)
  then show ?case by simp
qed simp_all

lemma on_roots_compose: "on_roots f (on_roots g s) = on_roots (f \<circ> g) s"
  by (simp add: on_roots_def)

lemma tok_add_single [simp]: "tok_add cls [c] = (if c \<in> set cls then cls else cls @ [c])"
  by simp

lemma tok_remove_single [simp]: "tok_remove cls [c] = filter (\<lambda>x. x \<noteq> c) cls"
  by (simp add: tok_remove_def)

lemma wf_fresh:
  "dom_wf s \<Longrightarrow> next_id s \<le> k \<Longrightarrow> k \<notin> set (ids_list (document s))"
  "dom_wf s \<Longrightarrow> next_id s \<le> k \<Longrightarrow> k \<notin> set (ids_list (fragments s))"
  unfolding dom_wf_def all_roots_def by (auto dest: leD)

lemma token_check_nonempty: "token_check [c] = None \<Longrightarrow> c \<noteq> []"
  by (auto split: if_splits)

lemma elem_id_absent [tree_simps]:
  "k \<notin> set (ids_list ns) \<Longrightarrow> Some k \<notin> elem_id ` set ns"
  using elem_id_ids_list [of k ns] by auto

lemma find_modify_classes:
  "find_node x n = Some m \<Longrightarrow> find_node x (modify_node x (map_classes f) n) = Some (map_classes f m)"
  "find_list x ns = Some m \<Longrightarrow> find_list x (modify_list x (map_classes f) ns) = Some (map_classes f m)"
proof (induction x "map_classes f" n and x "map_classes f" ns arbitrary: m and m rule: modify_node_modify_list.induct)
  case (4 x n ns)
  show ?case
  proof (cases "find_node x n")
    case None
    then have "x \<notin> set (ids n)" by (simp add: find_None_iff)
    then have "modify_node x (map_classes f) n = n" using absent_id(1) by blast
    with None 4 show ?thesis by simp
  next
    case (Some m')
    with 4 show ?thesis by simp
  qed
qed (auto split: if_splits)

lemma find_modify_children:
  "find_node x n = Some m \<Longrightarrow> find_node x (modify_node x (map_children f) n) = Some (map_children f m)"
  "find_list x ns = Some m \<Longrightarrow> find_list x (modify_list x (map_children f) ns) = Some (map_children f m)"
proof (induction x "map_children f" n and x "map_children f" ns arbitrary: m and m rule: modify_node_modify_list.induct)
  case (4 x n ns)
  show ?case
  proof (cases "find_node x n")
    case None
    then have "x \<notin> set (ids n)" by (simp add: find_None_iff)
    then have "modify_node x (map_children f) n = n" using absent_id(1) by blast
    with None 4 show ?thesis by simp
  next
    case (Some m')
    with 4 show ?thesis by simp
  qed
qed (auto split: if_splits)

lemma modify_map_children_compose:
  "modify_node x (map_children f) (modify_node x (map_children g) n) = modify_node x (map_children (f \<circ> g)) n"
  "modify_list x (map_children f) (modify_list x (map_children g) ns) = modify_list x (map_children (f \<circ> g)) ns"
proof (induction x "map_children g" n and x "map_children g" ns rule: modify_node_modify_list.induct)
  case (1 x i t cls a cs)
  then show ?case by simp
qed simp_all

lemma modify_identity:
  "(\<And>n. f n = n) \<Longrightarrow> modify_node x f n = n"
  "(\<And>n. f n = n) \<Longrightarrow> modify_list x f ns = ns"
  by (induction x f n and x f ns rule: modify_node_modify_list.induct) auto

lemma map_children_append_Nil: "map_children (\<lambda>cs. cs @ []) n = n"
  by (cases n) simp_all

lemma map_classes_ids: "ids (map_classes f n) = ids n"
  by (cases n) simp_all

lemma find_modify_classes_other:
  "x \<noteq> b \<Longrightarrow> map_option classes_of (find_node b (modify_node x (map_classes f) n)) =
                map_option classes_of (find_node b n)"
  "x \<noteq> b \<Longrightarrow> map_option classes_of (find_list b (modify_list x (map_classes f) ns)) =
                map_option classes_of (find_list b ns)"
proof (induction x "map_classes f" n and x "map_classes f" ns rule: modify_node_modify_list.induct)
  case (4 x n ns)
  have "ids (modify_node x (map_classes f) n) = ids n"
    by (rule modify_ids_same(1), rule map_classes_ids)
  then have "find_node b (modify_node x (map_classes f) n) = None \<longleftrightarrow> find_node b n = None"
    by (simp add: find_None_iff)
  with 4 show ?case by (auto split: option.splits)
qed auto

lemma first_id_modify_classes:
  "first_id_node v (modify_node x (map_classes f) n) = first_id_node v n"
  "first_id_list v (modify_list x (map_classes f) ns) = first_id_list v ns"
  by (induction x "map_classes f" n and x "map_classes f" ns rule: modify_node_modify_list.induct)
    (auto split: option.splits)

lemma on_roots_classes_other:
  "x \<noteq> b \<Longrightarrow> map_option classes_of (lookup_elem b (on_roots (modify_list x (map_classes f)) s)) =
                map_option classes_of (lookup_elem b s)"
  "document (on_roots (modify_list x (map_classes f)) s) = modify_list x (map_classes f) (document s)"
  unfolding lookup_elem_def by (simp add: find_modify_classes_other(2), simp add: on_roots_def)

lemma find_modify_classes_same:
  "map_option classes_of (find_list b (modify_list b (map_classes f) ns)) =
   map_option (f \<circ> classes_of) (find_list b ns)"
proof (cases "find_list b ns")
  case None
  have "ids_list (modify_list b (map_classes f) ns) = ids_list ns"
    by (rule modify_ids_same(2), rule map_classes_ids)
  with None have "find_list b (modify_list b (map_classes f) ns) = None"
    by (simp add: find_None_iff)
  with None show ?thesis by simp
next
  case (Some m)
  then obtain t cls a cs where "m = Elem b t cls a cs"
    using find_ids(2) [OF Some] by (cases m) auto
  with Some show ?thesis by (simp add: find_modify_classes(2))
qed

lemma on_roots_classes_same:
  "map_option classes_of (lookup_elem b (on_roots (modify_list b (map_classes f)) s)) =
   map_option f (map_option classes_of (lookup_elem b s))"
  unfolding lookup_elem_def by (simp add: find_modify_classes_same option.map_comp)

end
