(* ===== verification/Iframe_Tool.thy ===== *)
theory Iframe_Tool
  imports Dom
begin

text \<open>
  The block tool of src/src/index.js, class \<open>Iframe\<close>: its state (the fields the
  constructor sets on \<open>this\<close>), and one definition per method, composed of the DOM
  operations of theory \<open>Dom\<close> in the order the source calls them. A method returns a
  value and the new page state, or the error it throws together with the state reached
  when it threw (assignments made before the throw stay made, as in JavaScript).
  The page state is the DOM state extended with the one tool instance.
\<close>

section \<open>State\<close>

text \<open>The Editor.js API object as far as the constructor reads it (lines 40 and 45--50).\<close>

record api_styles =
  api_block :: string
  api_loader :: string
  api_input :: string
  api_settingsButton :: string
  api_settingsButtonActive :: string

record editor_api =
  current_block_index :: int
  styles :: api_styles

text \<open>\<open>this.CSS\<close> (lines 45--57).\<close>

record css =
  baseClass :: string
  loading :: string
  input :: string
  settingsButton :: string
  settingsButtonActive :: string
  wrapper :: string
  holder :: "string list"

text \<open>\<open>this.nodes\<close> (lines 62--67): \<open>None\<close> is \<open>null\<close>.\<close>

record nodes_cache =
  node_wrapper :: "nat option"
  node_holder :: "nat option"
  node_image :: "nat option"
  node_iframe :: "nat option"

text \<open>An entry of \<open>this.settings\<close> (lines 80--93).\<close>

record setting =
  name :: string
  icon :: string

text \<open>
  The tool instance. \<open>data\<close> is the field \<open>this._data\<close> behind the \<open>data\<close>
  accessor pair; \<open>click_listeners\<close> records, for each listener that
  \<open>renderSettings\<close> registered, the element it is registered on and the tune name its
  closure passes to \<open>_toggleTune\<close>. The \<open>config\<close> argument of the constructor is
  never stored or read and has no field.
\<close>

record iframe_tool =
  api :: editor_api
  readOnly :: bool
  blockIndex :: int
  CSS :: css
  nodes :: nodes_cache
  data :: js_obj
  settings :: "setting list"
  click_listeners :: "(nat \<times> string) list"

record page = dom + tool :: iframe_tool

text \<open>Reading and updating the tool inside the page.\<close>

definition get_tool :: "(page \<Rightarrow> 'a) \<Rightarrow> ('a, page) js" where
  "get_tool f = js_gets f"

definition upd_tool :: "(iframe_tool \<Rightarrow> iframe_tool) \<Rightarrow> (unit, page) js" where
  "upd_tool f = js_modify (\<lambda>s. s\<lparr>tool := f (tool s)\<rparr>)"

definition upd_data :: "(js_obj \<Rightarrow> js_obj) \<Rightarrow> (unit, page) js" where
  "upd_data f = upd_tool (\<lambda>t. t\<lparr>data := f (data t)\<rparr>)"

abbreviation tool_data :: "page \<Rightarrow> js_obj" where
  "tool_data s \<equiv> data (tool s)"

abbreviation tool_nodes :: "page \<Rightarrow> nodes_cache" where
  "tool_nodes s \<equiv> nodes (tool s)"

abbreviation tool_css :: "page \<Rightarrow> css" where
  "tool_css s \<equiv> CSS (tool s)"

section \<open>Constants of the tool\<close>

definition left_icon :: string where
  \<open>left_icon = ''<svg  width="15" height="15" xmlns="http://www.w3.org/2000/svg" viewBox="0 0 448 512"><path d="M12.83 344h262.34A12.82 12.82 0 0 0 288 331.17v-22.34A12.82 12.82 0 0 0 275.17 296H12.83A12.82 12.82 0 0 0 0 308.83v22.34A12.82 12.82 0 0 0 12.83 344zm0-256h262.34A12.82 12.82 0 0 0 288 75.17V52.83A12.82 12.82 0 0 0 275.17 40H12.83A12.82 12.82 0 0 0 0 52.83v22.34A12.82 12.82 0 0 0 12.83 88zM432 168H16a16 16 0 0 0-16 16v16a16 16 0 0 0 16 16h416a16 16 0 0 0 16-16v-16a16 16 0 0 0-16-16zm0 256H16a16 16 0 0 0-16 16v16a16 16 0 0 0 16 16h416a16 16 0 0 0 16-16v-16a16 16 0 0 0-16-16z"/></svg>''\<close>

definition centered_icon :: string where
  \<open>centered_icon = ''<svg  width="15" height="15" xmlns="http://www.w3.org/2000/svg" viewBox="0 0 448 512"><path d="M108.1 88h231.81A12.09 12.09 0 0 0 352 75.9V52.09A12.09 12.09 0 0 0 339.91 40H108.1A12.09 12.09 0 0 0 96 52.09V75.9A12.1 12.1 0 0 0 108.1 88zM432 424H16a16 16 0 0 0-16 16v16a16 16 0 0 0 16 16h416a16 16 0 0 0 16-16v-16a16 16 0 0 0-16-16zm0-256H16a16 16 0 0 0-16 16v16a16 16 0 0 0 16 16h416a16 16 0 0 0 16-16v-16a16 16 0 0 0-16-16zm-92.09 176A12.09 12.09 0 0 0 352 331.9v-23.81A12.09 12.09 0 0 0 339.91 296H108.1A12.09 12.09 0 0 0 96 308.09v23.81a12.1 12.1 0 0 0 12.1 12.1z"/></svg>''\<close>

definition right_icon :: string where
  \<open>right_icon = ''<svg  width="15" height="15" xmlns="http://www.w3.org/2000/svg" viewBox="0 0 448 512"><path d="M16 216h416a16 16 0 0 0 16-16v-16a16 16 0 0 0-16-16H16a16 16 0 0 0-16 16v16a16 16 0 0 0 16 16zm416 208H16a16 16 0 0 0-16 16v16a16 16 0 0 0 16 16h416a16 16 0 0 0 16-16v-16a16 16 0 0 0-16-16zm3.17-384H172.83A12.82 12.82 0 0 0 160 52.83v22.34A12.82 12.82 0 0 0 172.83 88h262.34A12.82 12.82 0 0 0 448 75.17V52.83A12.82 12.82 0 0 0 435.17 40zm0 256H172.83A12.82 12.82 0 0 0 160 308.83v22.34A12.82 12.82 0 0 0 172.83 344h262.34A12.82 12.82 0 0 0 448 331.17v-22.34A12.82 12.82 0 0 0 435.17 296z"/></svg>''\<close>

text \<open>The tunes of lines 80--93, in their order.\<close>

definition default_settings :: "setting list" where
  "default_settings =
     [\<lparr>name = ''LeftAligned'', icon = left_icon\<rparr>,
      \<lparr>name = ''Centered'', icon = centered_icon\<rparr>,
      \<lparr>name = ''RightAligned'', icon = right_icon\<rparr>]"

definition tune_names :: "string list" where
  "tune_names = map name default_settings"

lemma tune_names_eq [simp]: "tune_names = [''LeftAligned'', ''Centered'', ''RightAligned'']"
  by (simp add: tune_names_def default_settings_def)

text \<open>\<open>static title\<close> (line 96) and \<open>static get isReadOnlySupported\<close> (lines 173--175).\<close>

definition title :: string where
  "title = ''Bold''"

definition isReadOnlySupported :: bool where
  "isReadOnlySupported = True"

text \<open>
  \<open>static get sanitize\<close> (lines 161--166): a rule per data field, \<open>true\<close> (keep the
  markup as it is) or a sanitizer configuration naming the allowed tags (\<open>{}\<close>: none).
\<close>

datatype sanitize_rule = SanitizeKeep | SanitizeTags "string list"

definition sanitize :: "(string \<times> sanitize_rule) list" where
  "sanitize = [(''frame'', SanitizeKeep), (''html'', SanitizeTags [])]"

section \<open>Methods\<close>

text \<open>
  \<open>x.parentElement.innerHTML = v\<close> and its read: a \<open>null\<close> parent is a
  \<open>TypeError\<close>. Lines 117 and 221 assign, lines 151 and 153 read.
\<close>

definition null_inner_html :: js_error where
  "null_inner_html = TypeError ''Cannot access property 'innerHTML' of null''"

definition set_parent_inner_html :: "nat \<Rightarrow> string \<Rightarrow> (unit, 'z dom_scheme) js" where
  "set_parent_inner_html x v s =
     (case parent_element x s of
        None \<Rightarrow> Inl (null_inner_html, s)
      | Some p \<Rightarrow> set_inner_html p v s)"

definition get_parent_inner_html :: "nat \<Rightarrow> (string, 'z dom_scheme) js" where
  "get_parent_inner_html x s =
     (case parent_element x s of
        None \<Rightarrow> Inl (null_inner_html, s)
      | Some p \<Rightarrow> get_inner_html p s)"

text \<open>
  \<open>set data(data)\<close> (lines 217--223): merge onto the previous object (the getter,
  lines 208--210, returns \<open>this._data\<close>), then, when an iframe node is cached, write
  the merged \<open>frame\<close> into its parent.
\<close>

definition set_data :: "js_obj \<Rightarrow> (unit, page) js" where
  "set_data d =
     js_then (upd_data (\<lambda>old. object_assign (object_assign Map.empty old) d))
       (js_bind (get_tool (\<lambda>s. node_iframe (tool_nodes s)))
         (\<lambda>ifr. case ifr of
                   None \<Rightarrow> js_return ()
                 | Some x \<Rightarrow>
                     js_bind (get_tool (\<lambda>s. tool_data s ''frame''))
                       (\<lambda>f. set_parent_inner_html x (to_dom_string f))))"

text \<open>The constructor's normalisation of the saved data (lines 72--75).\<close>

definition initial_frame :: "js_obj \<Rightarrow> jsval" where
  "initial_frame d = (case d ''frame'' of None \<Rightarrow> JStr [] | Some JUndef \<Rightarrow> JStr [] | Some v \<Rightarrow> v)"

definition initial_alignment :: "js_obj \<Rightarrow> jsval" where
  "initial_alignment d = (if truthy (d ''alignment'') then the (d ''alignment'') else JBool False)"

text \<open>
  \<open>constructor({data, config, api, readOnly})\<close> (lines 25--94). The fields are set in
  the source's order; the assignment to \<open>this.data\<close> goes through the setter while
  \<open>this._data\<close> is still \<open>undefined\<close> and no node is cached.
\<close>

definition css_of :: "api_styles \<Rightarrow> css" where
  "css_of st =
     \<lparr>baseClass = api_block st, loading = api_loader st, input = api_input st,
      settingsButton = api_settingsButton st, settingsButtonActive = api_settingsButtonActive st,
      wrapper = ''editorjs-iframe'', holder = [''editorjs-iframe__frame'', ''flex'']\<rparr>"

definition empty_nodes :: nodes_cache where
  "empty_nodes = \<lparr>node_wrapper = None, node_holder = None, node_image = None, node_iframe = None\<rparr>"

definition construct :: "js_obj \<Rightarrow> editor_api \<Rightarrow> bool \<Rightarrow> (unit, page) js" where
  "construct d a ro =
     js_then (js_modify (\<lambda>s. s\<lparr>tool :=
        \<lparr>api = a, readOnly = ro, blockIndex = current_block_index a + 1,
         CSS = css_of (styles a), nodes = empty_nodes, data = Map.empty,
         settings = [], click_listeners = []\<rparr>\<rparr>))
     (js_then (set_data [''frame'' \<mapsto> initial_frame d, ''alignment'' \<mapsto> initial_alignment d])
       (upd_tool (\<lambda>t. t\<lparr>settings := default_settings\<rparr>)))"

text \<open>\<open>_make(tagName, classNames, frame)\<close> (lines 275--289): an array adds all its
  classes, a truthy string one, anything else none; then the properties of \<open>frame\<close>.\<close>

datatype class_arg = ClassNone | ClassOne string | ClassList "string list"

definition make :: "string \<Rightarrow> class_arg \<Rightarrow> (string \<times> string) list \<Rightarrow> (nat, 'z dom_scheme) js" where
  "make tg cls props =
     js_bind (create_element tg) (\<lambda>el.
       js_then (case cls of
                  ClassList cs \<Rightarrow> class_list_add el cs
                | ClassOne c \<Rightarrow> js_when (c \<noteq> []) (class_list_add el [c])
                | ClassNone \<Rightarrow> js_return ())
         (js_then (js_for_each props (\<lambda>(k, v). set_attribute el k v))
           (js_return el)))"

text \<open>
  \<open>_acceptTuneView()\<close> (lines 315--333): three independent steps, each reading the
  alignment and the cached holder (a \<open>null\<close> holder is a \<open>TypeError\<close>).
\<close>

definition null_class_list :: js_error where
  "null_class_list = TypeError ''Cannot read properties of null (reading 'classList')''"

definition justify_step :: "string \<Rightarrow> string \<Rightarrow> (unit, page) js" where
  "justify_step tname cls s =
     (case node_holder (tool_nodes s) of
        None \<Rightarrow> Inl (null_class_list, s)
      | Some h \<Rightarrow>
          (if loose_eq_name (tool_data s ''alignment'') tname
           then class_list_add h [cls] s else class_list_remove h [cls] s))"

definition accept_tune_view :: "(unit, page) js" where
  "accept_tune_view =
     js_then (justify_step ''LeftAligned'' ''iframe-justify-start'')
       (js_then (justify_step ''RightAligned'' ''iframe-justify-end'')
         (justify_step ''Centered'' ''iframe-justify-center''))"

text \<open>
  \<open>_toggleTune(tune)\<close> (lines 297--308): flip the flag named after the tune, set the
  alignment, mark the button found by \<open>document.getElementById\<close> for each tune (a
  missing one is a \<open>TypeError\<close>), and project the alignment onto the holder.
\<close>

definition null_get_element :: js_error where
  "null_get_element = TypeError ''Cannot read properties of null (reading 'classList')''"

definition mark_button :: "string \<Rightarrow> setting \<Rightarrow> (unit, page) js" where
  "mark_button t tunes s =
     (case get_element_by_id (name tunes) s of
        Inl es \<Rightarrow> Inl es
      | Inr (None, s') \<Rightarrow> Inl (null_get_element, s')
      | Inr (Some el, s') \<Rightarrow>
          (if name tunes = t then class_list_add el [settingsButtonActive (tool_css s')] s'
           else class_list_remove el [settingsButtonActive (tool_css s')] s'))"

definition toggle_tune :: "string \<Rightarrow> (unit, page) js" where
  "toggle_tune t =
     js_then (upd_data (\<lambda>d. d(t \<mapsto> JBool (\<not> truthy (d t)))))
       (js_then (upd_data (\<lambda>d. d(''alignment'' \<mapsto> JStr t)))
         (js_then (js_bind (get_tool (\<lambda>s. settings (tool s))) (\<lambda>sts. js_for_each sts (mark_button t)))
           accept_tune_view))"

text \<open>
  \<open>renderSettings()\<close> (lines 245--265): one button per tune, with its id, the button
  class, the icon, a click listener, and the active class when it names the alignment.
\<close>

definition add_click_listener :: "nat \<Rightarrow> string \<Rightarrow> (unit, page) js" where
  "add_click_listener el t = upd_tool (\<lambda>tl. tl\<lparr>click_listeners := click_listeners tl @ [(el, t)]\<rparr>)"

definition settings_button :: "nat \<Rightarrow> setting \<Rightarrow> (unit, page) js" where
  "settings_button w tune =
     js_bind (create_element ''div'') (\<lambda>el.
       js_then (set_attribute el ''id'' (name tune))
         (js_bind (get_tool tool_css) (\<lambda>c.
            js_then (class_list_add el [settingsButton c])
              (js_then (set_inner_html el (icon tune))
                (js_then (add_click_listener el (name tune))
                  (js_then (js_bind (get_tool (\<lambda>s. tool_data s ''alignment''))
                             (\<lambda>a. js_when (loose_eq_name a (name tune))
                                    (class_list_add el [settingsButtonActive c])))
                    (append_child w el)))))))"

definition render_settings :: "(nat, page) js" where
  "render_settings =
     js_bind (create_element ''div'') (\<lambda>w.
       js_bind (get_tool (\<lambda>s. settings (tool s))) (\<lambda>sts.
         js_then (js_for_each sts (settings_button w)) (js_return w)))"

text \<open>
  \<open>render()\<close> (lines 105--136). The \<open>onerror\<close> handler set on the placeholder does
  nothing and the \<open>console.log\<close> call writes no state; neither is modelled.
\<close>

definition cache_nodes :: "nat \<Rightarrow> nat \<Rightarrow> nat \<Rightarrow> (unit, page) js" where
  "cache_nodes h w i =
     upd_tool (\<lambda>t. t\<lparr>nodes := (nodes t)\<lparr>node_holder := Some h, node_wrapper := Some w,
                                          node_iframe := Some i\<rparr>\<rparr>)"

definition render :: "(nat, page) js" where
  "render =
     js_bind (get_tool tool_css) (\<lambda>c.
     js_bind (make ''div'' (ClassList [baseClass c, wrapper c]) []) (\<lambda>w.
     js_bind (make ''div'' (ClassOne (loading c)) []) (\<lambda>ld.
     js_bind (make ''div'' (ClassList (holder c)) []) (\<lambda>h.
     js_bind (make ''iframe'' ClassNone []) (\<lambda>i.
     js_then (append_child w ld)
     (js_then (append_child h i)
     (js_then (class_list_remove w [loading c])
     (js_then (append_child w h)
     (js_then (js_bind (get_tool (\<lambda>s. tool_data s ''frame''))
                 (\<lambda>f. js_when (truthy f) (set_parent_inner_html i (to_dom_string f))))
     (js_then (remove_elem ld)
     (js_then (cache_nodes h w i)
     (js_then (js_bind (get_tool (\<lambda>s. tool_data s ''alignment''))
                 (\<lambda>a. js_when (truthy a) accept_tune_view))
     (js_return w)))))))))))))"

text \<open>
  \<open>save(blockContent)\<close> (lines 143--156): with no iframe below the block content the
  data object is returned as it is; otherwise the inner markup of the iframe's parent is
  merged into it (\<open>Object.assign(this.data, ...)\<close> mutates it) and written again.
\<close>

definition save :: "nat \<Rightarrow> (js_obj, page) js" where
  "save blockContent =
     js_bind (query_selector blockContent ''iframe'') (\<lambda>q.
       case q of
         None \<Rightarrow> get_tool tool_data
       | Some i \<Rightarrow>
           js_bind (get_parent_inner_html i) (\<lambda>h1.
             js_then (upd_data (\<lambda>d. object_assign d [''frame'' \<mapsto> JStr h1]))
               (js_bind (get_parent_inner_html i) (\<lambda>h2.
                  js_then (upd_data (\<lambda>d. d(''frame'' \<mapsto> JStr h2)))
                    (get_tool tool_data)))))"

text \<open>
  \<open>onPaste(event)\<close> (lines 182--201): the event's type and \<open>event.detail.data\<close>.
  A \<open>tag\<close> paste sets the frame through the setter; a \<open>pattern\<close> paste does the same
  and then replaces \<open>this._data\<close> by a copy with the same frame; any other type does
  nothing.
\<close>

datatype paste_event = PasteEvent string jsval

definition on_paste :: "paste_event \<Rightarrow> (unit, page) js" where
  "on_paste ev =
     (case ev of
        PasteEvent ty v \<Rightarrow>
          (if ty = ''tag'' then set_data [''frame'' \<mapsto> v]
           else if ty = ''pattern'' then
             js_then (set_data [''frame'' \<mapsto> v])
               (upd_data (\<lambda>d. object_assign (object_assign Map.empty d) [''frame'' \<mapsto> v]))
           else js_return ()))"

section \<open>The class projection of the alignment\<close>

text \<open>
  What \<open>_acceptTuneView\<close> computes, as a function on a class list: the three
  (tune name, class) pairs it tests, in its order, and the composition of its three
  steps. \<open>tune_view a\<close> is the list of layout classes the alignment \<open>a\<close> asks for.
\<close>

definition justify_rules :: "(string \<times> string) list" where
  "justify_rules =
     [(''LeftAligned'', ''iframe-justify-start''), (''RightAligned'', ''iframe-justify-end''),
      (''Centered'', ''iframe-justify-center'')]"

definition justify_classes :: "string list" where
  "justify_classes = map snd justify_rules"

definition view_step :: "jsval option \<Rightarrow> string \<times> string \<Rightarrow> string list \<Rightarrow> string list" where
  "view_step a r cls = (if loose_eq_name a (fst r) then tok_add cls [snd r] else tok_remove cls [snd r])"

definition apply_view :: "jsval option \<Rightarrow> string list \<Rightarrow> string list" where
  "apply_view a = fold (view_step a) justify_rules"

definition tune_view :: "jsval option \<Rightarrow> string list" where
  "tune_view a = [snd r. r \<leftarrow> justify_rules, loose_eq_name a (fst r)]"

text \<open>
  The style classes the constructor takes from the editor are usable as class tokens,
  and the holder classes are the tool's own (\<open>css_of\<close>).
\<close>

definition css_valid :: "css \<Rightarrow> bool" where
  "css_valid c \<longleftrightarrow> token_check [baseClass c, wrapper c] = None \<and> token_check [loading c] = None
     \<and> holder c = [''editorjs-iframe__frame'', ''flex'']"

section \<open>Lemmas on the methods\<close>

lemma page_dom_fields [simp]:
  "all_roots (s\<lparr>tool := t\<rparr>) = all_roots s"
  "dom_wf (s\<lparr>tool := t\<rparr>) = dom_wf s"
  "lookup_elem x (s\<lparr>tool := t\<rparr>) = lookup_elem x s"
  "parent_element x (s\<lparr>tool := t\<rparr>) = parent_element x s"
  by (simp_all add: all_roots_def dom_wf_def lookup_elem_def parent_element_def)

lemma tool_on_roots [simp]: "tool (on_roots f s) = tool s"
  by (simp add: on_roots_def)

lemma upd_apply [js_simps]:
  "upd_tool f s = Inr ((), s\<lparr>tool := f (tool s)\<rparr>)"
  "upd_data g s = Inr ((), s\<lparr>tool := (tool s)\<lparr>data := g (data (tool s))\<rparr>\<rparr>)"
  "get_tool h s = Inr (h s, s)"
  by (simp_all add: upd_tool_def upd_data_def get_tool_def js_simps)

lemma construct_result:
  "construct d a ro s =
     Inr ((), s\<lparr>tool := \<lparr>api = a, readOnly = ro, blockIndex = current_block_index a + 1,
                        CSS = css_of (styles a), nodes = empty_nodes,
                        data = [''frame'' \<mapsto> initial_frame d, ''alignment'' \<mapsto> initial_alignment d],
                        settings = default_settings, click_listeners = []\<rparr>\<rparr>)"
  by (simp add: construct_def set_data_def empty_nodes_def js_simps)

lemma set_data_no_iframe:
  "node_iframe (tool_nodes s) = None \<Longrightarrow>
   set_data d s = Inr ((), s\<lparr>tool := (tool s)\<lparr>data := object_assign (tool_data s) d\<rparr>\<rparr>)"
  by (simp add: set_data_def js_simps)

lemma set_data_detached:
  "node_iframe (tool_nodes s) = Some x \<Longrightarrow> parent_element x s = None \<Longrightarrow>
   set_data d s = Inl (null_inner_html, s\<lparr>tool := (tool s)\<lparr>data := object_assign (tool_data s) d\<rparr>\<rparr>)"
  by (simp add: set_data_def set_parent_inner_html_def js_simps)

lemma set_data_attached:
  "node_iframe (tool_nodes s) = Some x \<Longrightarrow> parent_element x s = Some p \<Longrightarrow>
   set_data d s = set_inner_html p (to_dom_string (object_assign (tool_data s) d ''frame''))
                    (s\<lparr>tool := (tool s)\<lparr>data := object_assign (tool_data s) d\<rparr>\<rparr>)"
  by (simp add: set_data_def set_parent_inner_html_def js_simps)

lemma justify_tokens_valid:
  "token_check [''iframe-justify-start''] = None"
  "token_check [''iframe-justify-end''] = None"
  "token_check [''iframe-justify-center''] = None"
  by (simp_all add: ascii_whitespace_def)

lemma justify_step_holder:
  "node_holder (tool_nodes s) = Some h \<Longrightarrow> token_check [c] = None \<Longrightarrow>
   justify_step n c s = Inr ((), on_roots (modify_list h (map_classes (view_step (tool_data s ''alignment'') (n, c)))) s)"
  by (simp add: justify_step_def class_list_add_def class_list_remove_def view_step_def [abs_def]
           del: token_check.simps)

lemma accept_tune_view_holder:
  assumes h: "node_holder (tool_nodes s) = Some h"
  shows "accept_tune_view s =
           Inr ((), on_roots (modify_list h (map_classes (apply_view (tool_data s ''alignment'')))) s)"
proof -
  let ?a = "tool_data s ''alignment''"
  let ?f = "\<lambda>r. on_roots (modify_list h (map_classes (view_step ?a r)))"
  have step: "justify_step n c (on_roots g s) = Inr ((), ?f (n, c) (on_roots g s))"
    if "token_check [c] = None" for n c g
    using justify_step_holder [of "on_roots g s" h c n] h that by simp
  have step0: "justify_step n c s = Inr ((), ?f (n, c) s)" if "token_check [c] = None" for n c
    using h that by (rule justify_step_holder)
  note valid = justify_tokens_valid
  show ?thesis
    by (simp add: accept_tune_view_def js_simps step0 [OF valid(1)] step [OF valid(2)]
                  step [OF valid(3)] justify_rules_def on_roots_compose modify_map_classes_compose
                  apply_view_def comp_def)
qed

lemma accept_tune_view_no_holder:
  "node_holder (tool_nodes s) = None \<Longrightarrow> accept_tune_view s = Inl (null_class_list, s)"
  by (simp add: accept_tune_view_def js_simps justify_step_def)

lemma justify_names_cases:
  obtains (left) "a = Some (JStr ''LeftAligned'')"
    | (right) "a = Some (JStr ''RightAligned'')"
    | (centered) "a = Some (JStr ''Centered'')"
    | (none) "\<forall>n \<in> set tune_names. \<not> loose_eq_name a n"
  by (auto simp: loose_eq_name_iff)

lemma apply_view_cases:
  "a = Some (JStr ''LeftAligned'') \<Longrightarrow>
     apply_view a cls = filter (\<lambda>x. x \<noteq> ''iframe-justify-center'')
       (filter (\<lambda>x. x \<noteq> ''iframe-justify-end'') (tok_add cls [''iframe-justify-start'']))"
  "a = Some (JStr ''RightAligned'') \<Longrightarrow>
     apply_view a cls = filter (\<lambda>x. x \<noteq> ''iframe-justify-center'')
       (tok_add (filter (\<lambda>x. x \<noteq> ''iframe-justify-start'') cls) [''iframe-justify-end''])"
  "a = Some (JStr ''Centered'') \<Longrightarrow>
     apply_view a cls = tok_add (filter (\<lambda>x. x \<noteq> ''iframe-justify-end'')
       (filter (\<lambda>x. x \<noteq> ''iframe-justify-start'') cls)) [''iframe-justify-center'']"
  "\<forall>n \<in> set tune_names. \<not> loose_eq_name a n \<Longrightarrow>
     apply_view a cls = filter (\<lambda>x. x \<noteq> ''iframe-justify-center'')
       (filter (\<lambda>x. x \<noteq> ''iframe-justify-end'') (filter (\<lambda>x. x \<noteq> ''iframe-justify-start'') cls))"
  by (simp_all add: apply_view_def justify_rules_def view_step_def del: tok_add_single)

lemma tune_view_cases:
  "a = Some (JStr ''LeftAligned'') \<Longrightarrow> tune_view a = [''iframe-justify-start'']"
  "a = Some (JStr ''RightAligned'') \<Longrightarrow> tune_view a = [''iframe-justify-end'']"
  "a = Some (JStr ''Centered'') \<Longrightarrow> tune_view a = [''iframe-justify-center'']"
  "\<forall>n \<in> set tune_names. \<not> loose_eq_name a n \<Longrightarrow> tune_view a = []"
  by (simp_all add: tune_view_def justify_rules_def)

lemma set_apply_view: "set (apply_view a cls) = (set cls - set justify_classes) \<union> set (tune_view a)"
  by (cases a rule: justify_names_cases)
     (auto simp: apply_view_cases tune_view_cases justify_classes_def justify_rules_def)

lemma apply_view_idem: "apply_view a (apply_view a cls) = apply_view a cls"
  by (cases a rule: justify_names_cases) (auto simp: apply_view_cases filter_append intro!: filter_cong)

lemma tune_view_not_truthy: "\<not> truthy a \<Longrightarrow> tune_view a = []"
  by (cases a rule: justify_names_cases) (auto simp: tune_view_cases)

lemma apply_view_holder:
  "apply_view a [''editorjs-iframe__frame'', ''flex''] = [''editorjs-iframe__frame'', ''flex''] @ tune_view a"
  by (cases a rule: justify_names_cases) (auto simp: apply_view_cases tune_view_cases)

section \<open>Rendering\<close>

lemma holder_tokens: "token_check [''editorjs-iframe__frame'', ''flex''] = None"
  by (simp add: ascii_whitespace_def)

lemma make_fresh:
  assumes fd: "next_id s \<notin> set (ids_list (document s))"
    and ff: "next_id s \<notin> set (ids_list (fragments s))"
  shows "token_check cs = None \<Longrightarrow> make tg (ClassList cs) [] s =
           Inr (next_id s, s\<lparr>fragments := fragments s @ [Elem (next_id s) tg (tok_add [] cs) [] []],
                             next_id := Suc (next_id s)\<rparr>)"
    and "token_check [c] = None \<Longrightarrow> make tg (ClassOne c) [] s =
           Inr (next_id s, s\<lparr>fragments := fragments s @ [Elem (next_id s) tg [c] [] []],
                             next_id := Suc (next_id s)\<rparr>)"
    and "make tg ClassNone [] s =
           Inr (next_id s, s\<lparr>fragments := fragments s @ [Elem (next_id s) tg [] [] []],
                             next_id := Suc (next_id s)\<rparr>)"
  using fd ff
  by (auto simp: make_def js_simps create_element_def class_list_add_def on_roots_def absent_id_simps
           dest: token_check_nonempty simp del: token_check.simps)

lemma render_frame:
  assumes wf: "dom_wf s" and css: "css_valid (tool_css s)"
    and f: "truthy (tool_data s ''frame'')"
    and al: "allocs (Suc (Suc (Suc (Suc (next_id s)))))
               (html_parse s (to_dom_string (tool_data s ''frame''))) = (ns, n')"
  shows "render s =
    Inr (next_id s, s\<lparr>fragments := fragments s @
       [Elem (next_id s) ''div'' (tok_remove (tok_add [] [baseClass (tool_css s), wrapper (tool_css s)]) [loading (tool_css s)]) []
          [Elem (Suc (Suc (next_id s))) ''div''
             (if truthy (tool_data s ''alignment'') then apply_view (tool_data s ''alignment'') (holder (tool_css s))
              else holder (tool_css s)) [] ns],
        Elem (Suc (Suc (Suc (next_id s)))) ''iframe'' [] [] [],
        Elem (Suc (next_id s)) ''div'' [loading (tool_css s)] [] []],
       next_id := n',
       tool := (tool s)\<lparr>nodes := (tool_nodes s)\<lparr>node_holder := Some (Suc (Suc (next_id s))),
          node_wrapper := Some (next_id s), node_iframe := Some (Suc (Suc (Suc (next_id s))))\<rparr>\<rparr>\<rparr>)"
proof -
  have ns_ids: "k \<notin> set (ids_list ns)" if "k < Suc (Suc (Suc (Suc (next_id s))))" for k
    using alloc_ids(2) [OF al] that by auto
  note fresh = wf_fresh [OF wf]
  from css have lv: "token_check [loading (tool_css s)] = None"
    and bv: "token_check [baseClass (tool_css s), wrapper (tool_css s)] = None"
    by (simp_all add: css_valid_def)
  from css have hv: "holder (tool_css s) = [''editorjs-iframe__frame'', ''flex'']"
    by (simp add: css_valid_def)
  show ?thesis
    using f al lv bv hv
    by (simp add: render_def js_simps make_fresh fresh append_child_def class_list_add_def
      class_list_remove_def lookup_elem_def all_roots_def on_roots_def tree_simps
      absent_id_simps ns_ids set_parent_inner_html_def parent_element_def set_inner_html_def
      remove_elem_def cache_nodes_def accept_tune_view_holder token_check_nonempty holder_tokens
      del: token_check.simps)
qed

lemma render_no_frame:
  assumes wf: "dom_wf s" and css: "css_valid (tool_css s)"
    and f: "\<not> truthy (tool_data s ''frame'')"
  shows "render s =
    Inr (next_id s, s\<lparr>fragments := fragments s @
       [Elem (next_id s) ''div'' (tok_remove (tok_add [] [baseClass (tool_css s), wrapper (tool_css s)]) [loading (tool_css s)]) []
          [Elem (Suc (Suc (next_id s))) ''div''
             (if truthy (tool_data s ''alignment'') then apply_view (tool_data s ''alignment'') (holder (tool_css s))
              else holder (tool_css s)) []
             [Elem (Suc (Suc (Suc (next_id s)))) ''iframe'' [] [] []]],
        Elem (Suc (next_id s)) ''div'' [loading (tool_css s)] [] []],
       next_id := Suc (Suc (Suc (Suc (next_id s)))),
       tool := (tool s)\<lparr>nodes := (tool_nodes s)\<lparr>node_holder := Some (Suc (Suc (next_id s))),
          node_wrapper := Some (next_id s), node_iframe := Some (Suc (Suc (Suc (next_id s))))\<rparr>\<rparr>\<rparr>)"
proof -
  note fresh = wf_fresh [OF wf]
  from css have lv: "token_check [loading (tool_css s)] = None"
    and bv: "token_check [baseClass (tool_css s), wrapper (tool_css s)] = None"
    and hv: "holder (tool_css s) = [''editorjs-iframe__frame'', ''flex'']"
    by (simp_all add: css_valid_def)
  show ?thesis
    using f lv bv hv
    by (simp add: render_def js_simps make_fresh fresh append_child_def class_list_add_def
      class_list_remove_def lookup_elem_def all_roots_def on_roots_def tree_simps
      absent_id_simps remove_elem_def parent_element_def cache_nodes_def accept_tune_view_holder
      token_check_nonempty holder_tokens
      del: token_check.simps)
qed


lemma render_frame_parts:
  assumes wf: "dom_wf s" and css: "css_valid (tool_css s)"
    and f: "truthy (tool_data s ''frame'')"
    and al: "allocs (Suc (Suc (Suc (Suc (next_id s)))))
               (html_parse s (to_dom_string (tool_data s ''frame''))) = (ns, n')"
    and r: "render s = Inr (w, s1)"
  shows "w = next_id s"
    and "lookup_elem w s1 = Some (Elem w ''div'' (tok_remove (tok_add [] [baseClass (tool_css s), wrapper (tool_css s)]) [loading (tool_css s)]) []
          [Elem (Suc (Suc w)) ''div''
             (if truthy (tool_data s ''alignment'') then apply_view (tool_data s ''alignment'') (holder (tool_css s))
              else holder (tool_css s)) [] ns])"
    and "Some x \<in> set (map elem_id ns) \<Longrightarrow> parent_element x s1 = Some (Suc (Suc w))"
    and "lookup_elem (Suc (Suc w)) s1 = Some (Elem (Suc (Suc w)) ''div''
             (if truthy (tool_data s ''alignment'') then apply_view (tool_data s ''alignment'') (holder (tool_css s))
              else holder (tool_css s)) [] ns)"
    and "html_serialize s1 = html_serialize s" "tool_data s1 = tool_data s"
proof -
  have ns_ids: "k \<notin> set (ids_list ns)" if "k < Suc (Suc (Suc (Suc (next_id s))))" for k
    using alloc_ids(2) [OF al] that by auto
  note fresh = wf_fresh [OF wf]
  note rs = r [unfolded render_frame [OF wf css f al]]
  show "w = next_id s" using rs by simp
  show "lookup_elem w s1 = Some (Elem w ''div'' (tok_remove (tok_add [] [baseClass (tool_css s), wrapper (tool_css s)]) [loading (tool_css s)]) []
          [Elem (Suc (Suc w)) ''div''
             (if truthy (tool_data s ''alignment'') then apply_view (tool_data s ''alignment'') (holder (tool_css s))
              else holder (tool_css s)) [] ns])"
    using rs by (auto simp: lookup_elem_def all_roots_def tree_simps absent_id_simps fresh)
  show "lookup_elem (Suc (Suc w)) s1 = Some (Elem (Suc (Suc w)) ''div''
             (if truthy (tool_data s ''alignment'') then apply_view (tool_data s ''alignment'') (holder (tool_css s))
              else holder (tool_css s)) [] ns)"
    using rs by (auto simp: lookup_elem_def all_roots_def tree_simps absent_id_simps fresh)
  show "html_serialize s1 = html_serialize s" "tool_data s1 = tool_data s" using rs by auto
  assume x: "Some x \<in> set (map elem_id ns)"
  then have "x \<in> set (ids_list ns)" using elem_id_ids_list by auto
  then have "\<not> x < Suc (Suc (Suc (Suc (next_id s))))" using ns_ids by blast
  then show "parent_element x s1 = Some (Suc (Suc w))" using rs x
    by (auto simp: parent_element_def all_roots_def tree_simps absent_id_simps fresh)
qed

lemma render_no_frame_parts:
  assumes wf: "dom_wf s" and css: "css_valid (tool_css s)"
    and f: "\<not> truthy (tool_data s ''frame'')"
    and r: "render s = Inr (w, s1)"
  shows "w = next_id s"
    and "lookup_elem w s1 = Some (Elem w ''div'' (tok_remove (tok_add [] [baseClass (tool_css s), wrapper (tool_css s)]) [loading (tool_css s)]) []
          [Elem (Suc (Suc w)) ''div''
             (if truthy (tool_data s ''alignment'') then apply_view (tool_data s ''alignment'') (holder (tool_css s))
              else holder (tool_css s)) [] [Elem (Suc (Suc (Suc w))) ''iframe'' [] [] []]])"
    and "parent_element (Suc (Suc (Suc w))) s1 = Some (Suc (Suc w))"
    and "lookup_elem (Suc (Suc w)) s1 = Some (Elem (Suc (Suc w)) ''div''
             (if truthy (tool_data s ''alignment'') then apply_view (tool_data s ''alignment'') (holder (tool_css s))
              else holder (tool_css s)) [] [Elem (Suc (Suc (Suc w))) ''iframe'' [] [] []])"
    and "html_serialize s1 = html_serialize s" "tool_data s1 = tool_data s"
proof -
  note fresh = wf_fresh [OF wf]
  note rs = r [unfolded render_no_frame [OF wf css f]]
  show "w = next_id s" using rs by simp
  show "html_serialize s1 = html_serialize s" "tool_data s1 = tool_data s" using rs by auto
  show "lookup_elem w s1 = Some (Elem w ''div'' (tok_remove (tok_add [] [baseClass (tool_css s), wrapper (tool_css s)]) [loading (tool_css s)]) []
          [Elem (Suc (Suc w)) ''div''
             (if truthy (tool_data s ''alignment'') then apply_view (tool_data s ''alignment'') (holder (tool_css s))
              else holder (tool_css s)) [] [Elem (Suc (Suc (Suc w))) ''iframe'' [] [] []]])"
    using rs by (auto simp: lookup_elem_def all_roots_def tree_simps absent_id_simps fresh)
  show "lookup_elem (Suc (Suc w)) s1 = Some (Elem (Suc (Suc w)) ''div''
             (if truthy (tool_data s ''alignment'') then apply_view (tool_data s ''alignment'') (holder (tool_css s))
              else holder (tool_css s)) [] [Elem (Suc (Suc (Suc w))) ''iframe'' [] [] []])"
    using rs by (auto simp: lookup_elem_def all_roots_def tree_simps absent_id_simps fresh)
  show "parent_element (Suc (Suc (Suc w))) s1 = Some (Suc (Suc w))"
    using rs by (auto simp: parent_element_def all_roots_def tree_simps absent_id_simps fresh)
qed

lemma render_ok:
  assumes wf: "dom_wf s" and css: "css_valid (tool_css s)"
  shows "\<exists>w s1. render s = Inr (w, s1)"
proof (cases "truthy (tool_data s ''frame'')")
  case True
  obtain ns n' where al: "allocs (Suc (Suc (Suc (Suc (next_id s)))))
               (html_parse s (to_dom_string (tool_data s ''frame''))) = (ns, n')"
    by (cases "allocs (Suc (Suc (Suc (Suc (next_id s))))) (html_parse s (to_dom_string (tool_data s ''frame'')))")
  show ?thesis using render_frame [OF wf css True al] by blast
next
  case False
  show ?thesis using render_no_frame [OF wf css False] by blast
qed

lemma render_holder_view:
  assumes wf: "dom_wf s" and css: "css_valid (tool_css s)" and r: "render s = Inr (w, s1)"
  shows "node_wrapper (tool_nodes s1) = Some w \<and> node_holder (tool_nodes s1) = Some (Suc (Suc w)) \<and>
         parent_element (Suc (Suc w)) s1 = Some w \<and>
         map_option (map elem_id \<circ> children_of) (lookup_elem w s1) = Some [Some (Suc (Suc w))] \<and>
         map_option classes_of (lookup_elem (Suc (Suc w)) s1) =
           Some (holder (tool_css s) @ tune_view (tool_data s ''alignment''))"
proof -
  have hv: "holder (tool_css s) = [''editorjs-iframe__frame'', ''flex'']" using css by (simp add: css_valid_def)
  have cls: "(if truthy (tool_data s ''alignment'') then apply_view (tool_data s ''alignment'') (holder (tool_css s))
              else holder (tool_css s)) = holder (tool_css s) @ tune_view (tool_data s ''alignment'')"
    by (simp add: hv apply_view_holder tune_view_not_truthy)
  note fresh = wf_fresh [OF wf]
  show ?thesis
  proof (cases "truthy (tool_data s ''frame'')")
    case True
    obtain ns n' where al: "allocs (Suc (Suc (Suc (Suc (next_id s)))))
               (html_parse s (to_dom_string (tool_data s ''frame''))) = (ns, n')"
      by (cases "allocs (Suc (Suc (Suc (Suc (next_id s))))) (html_parse s (to_dom_string (tool_data s ''frame'')))")
    show ?thesis using r render_frame [OF wf css True al] render_frame_parts(2,4) [OF wf css True al r] cls
      by (auto simp: parent_element_def all_roots_def tree_simps absent_id_simps fresh)
  next
    case False
    show ?thesis using r render_no_frame [OF wf css False] render_no_frame_parts(2,4) [OF wf css False r] cls
      by (auto simp: parent_element_def all_roots_def tree_simps absent_id_simps fresh)
  qed
qed

lemma construct_ok:
  "\<exists>s1. construct d a ro s = Inr ((), s1) \<and> dom_wf s1 = dom_wf s \<and> tool_css s1 = css_of (styles a) \<and>
     tool_data s1 = [''frame'' \<mapsto> initial_frame d, ''alignment'' \<mapsto> initial_alignment d] \<and>
     next_id s1 = next_id s \<and> html_parse s1 = html_parse s \<and> html_serialize s1 = html_serialize s"
  by (simp add: construct_result)

section \<open>Effects on the data object\<close>

text \<open>The DOM operations leave the tool alone.\<close>

lemma dom_ops_keep_tool:
  "js_keeps (\<lambda>s. tool s = T) (class_list_add x cs)"
  "js_keeps (\<lambda>s. tool s = T) (class_list_remove x cs)"
  "js_keeps (\<lambda>s. tool s = T) (get_element_by_id v)"
  "js_keeps (\<lambda>s. tool s = T) (set_inner_html p str)"
  "js_keeps (\<lambda>s. tool s = T) (set_parent_inner_html x str)"
  by (auto simp: js_keeps_def class_list_add_def class_list_remove_def get_element_by_id_def
                 set_inner_html_def set_parent_inner_html_def Let_def
           split: option.splits prod.splits)

lemma justify_step_keeps_tool: "js_keeps (\<lambda>s. tool s = T) (justify_step n c)"
  by (auto simp: js_keeps_def justify_step_def class_list_add_def class_list_remove_def
           split: option.splits if_splits)

lemma accept_tune_view_keeps_tool: "js_keeps (\<lambda>s. tool s = T) accept_tune_view"
  unfolding accept_tune_view_def by (intro js_keeps_then justify_step_keeps_tool)

lemma mark_button_keeps_tool: "js_keeps (\<lambda>s. tool s = T) (mark_button t tunes)"
  by (auto simp: js_keeps_def mark_button_def get_element_by_id_def class_list_add_def
                 class_list_remove_def split: option.splits if_splits)

lemma toggle_tune_data:
  "tool_data (js_state (toggle_tune t s)) =
     (tool_data s)(t \<mapsto> JBool (\<not> truthy (tool_data s t)), ''alignment'' \<mapsto> JStr t)"
proof -
  let ?s1 = "s\<lparr>tool := (tool s)\<lparr>data := (tool_data s)(t \<mapsto> JBool (\<not> truthy (tool_data s t)),
                                                ''alignment'' \<mapsto> JStr t)\<rparr>\<rparr>"
  have rest: "js_keeps (\<lambda>s'. tool s' = tool ?s1)
     (js_then (js_bind (get_tool (\<lambda>s. settings (tool s))) (\<lambda>sts. js_for_each sts (mark_button t)))
        accept_tune_view)"
    by (intro js_keeps_then js_keeps_bind js_keeps_for_each mark_button_keeps_tool
              accept_tune_view_keeps_tool) (simp add: get_tool_def js_keeps_gets)
  have "toggle_tune t s = js_then (js_bind (get_tool (\<lambda>s. settings (tool s))) (\<lambda>sts. js_for_each sts (mark_button t)))
        accept_tune_view ?s1"
    by (simp add: toggle_tune_def js_simps)
  with js_keeps_state [OF rest, where s = ?s1] show ?thesis by simp
qed

lemma set_data_data:
  "tool_data (js_state (set_data d s)) = object_assign (tool_data s) d"
proof -
  let ?s1 = "s\<lparr>tool := (tool s)\<lparr>data := object_assign (tool_data s) d\<rparr>\<rparr>"
  show ?thesis
  proof (cases "node_iframe (tool_nodes s)")
    case None
    then show ?thesis by (simp add: set_data_no_iframe)
  next
    case (Some x)
    have "set_data d s = set_parent_inner_html x (to_dom_string (tool_data ?s1 ''frame'')) ?s1"
      using Some by (simp add: set_data_def js_simps)
    with js_keeps_state [OF dom_ops_keep_tool(5) [where T = "tool ?s1"], where s = ?s1] show ?thesis
      by simp
  qed
qed

lemma on_paste_data:
  "tool_data (js_state (on_paste (PasteEvent ty v) s)) =
     (if ty = ''tag'' \<or> ty = ''pattern'' then (tool_data s)(''frame'' \<mapsto> v) else tool_data s)"
proof (cases "ty = ''tag''")
  case True
  then show ?thesis by (simp add: on_paste_def set_data_data object_assign_def)
next
  case False
  show ?thesis
  proof (cases "ty = ''pattern''")
    case True
    show ?thesis
    proof (cases "set_data [''frame'' \<mapsto> v] s")
      case (Inl es)
      then show ?thesis using set_data_data [of "[''frame'' \<mapsto> v]" s] False True
        by (cases es) (simp add: on_paste_def js_simps object_assign_def)
    next
      case (Inr xs)
      then show ?thesis using set_data_data [of "[''frame'' \<mapsto> v]" s] False True
        by (cases xs) (simp add: on_paste_def js_simps object_assign_def)
    qed
  next
    case False
    with \<open>ty \<noteq> ''tag''\<close> show ?thesis by (simp add: on_paste_def js_simps)
  qed
qed

lemma lookup_on_roots_classes:
  "lookup_elem h s = Some n \<Longrightarrow>
   lookup_elem h (on_roots (modify_list h (map_classes f)) s) = Some (map_classes f n)"
  by (simp add: lookup_elem_def find_modify_classes)

section \<open>Saving\<close>

lemma save_no_iframe:
  "lookup_elem r s = Some rn \<Longrightarrow> first_tag_list ''iframe'' (children_of rn) = None \<Longrightarrow>
   save r s = Inr (tool_data s, s)"
  by (simp add: save_def query_selector_def js_simps)

lemma save_found:
  assumes "lookup_elem r s = Some rn" "first_tag_list ''iframe'' (children_of rn) = Some i"
    "parent_element i s = Some p" "lookup_elem p s = Some pn"
  shows "save r s =
    Inr ((tool_data s)(''frame'' \<mapsto> JStr (html_serialize s (strips (children_of pn)))),
         s\<lparr>tool := (tool s)\<lparr>data := (tool_data s)(''frame'' \<mapsto> JStr (html_serialize s (strips (children_of pn))))\<rparr>\<rparr>)"
  using assms
  by (simp add: save_def query_selector_def js_simps get_parent_inner_html_def get_inner_html_def
       object_assign_def)

section \<open>A concrete page\<close>

text \<open>
  A page for evaluating the methods: Editor.js's default style classes, an empty
  document, and a small HTML parser and serializer that know the markup the examples
  use (an empty iframe element, and one wrapped in a \<open>div\<close>); any other text parses
  to a text node.
\<close>

definition demo_styles :: api_styles where
  "demo_styles =
     \<lparr>api_block = ''cdx-block'', api_loader = ''cdx-loader'', api_input = ''cdx-input'',
      api_settingsButton = ''cdx-settings-button'',
      api_settingsButtonActive = ''cdx-settings-button--active''\<rparr>"

definition demo_api :: editor_api where
  "demo_api = \<lparr>current_block_index = 0, styles = demo_styles\<rparr>"

fun demo_serialize :: "markup \<Rightarrow> string" and demo_serialize_list :: "markup list \<Rightarrow> string" where
  "demo_serialize (MElem t cls a ms) = ''<'' @ t @ ''>'' @ demo_serialize_list ms @ ''</'' @ t @ ''>''"
| "demo_serialize (MText s) = s"
| "demo_serialize_list [] = []"
| "demo_serialize_list (m # ms) = demo_serialize m @ demo_serialize_list ms"

definition demo_parse :: "string \<Rightarrow> markup list" where
  "demo_parse s =
     (if s = [] then []
      else if s = ''<iframe></iframe>'' then [MElem ''iframe'' [] [] []]
      else if s = ''<div><iframe></iframe></div>'' then [MElem ''div'' [] [] [MElem ''iframe'' [] [] []]]
      else [MText s])"

text \<open>The page right after the constructor ran on saved data \<open>d\<close> (\<open>construct_result\<close>).\<close>

definition demo_page :: "js_obj \<Rightarrow> page" where
  "demo_page d =
     \<lparr>document = [], fragments = [], next_id = 0, html_parse = demo_parse,
      html_serialize = demo_serialize_list,
      tool = \<lparr>api = demo_api, readOnly = False, blockIndex = 1, CSS = css_of demo_styles,
              nodes = empty_nodes,
              data = [''frame'' \<mapsto> initial_frame d, ''alignment'' \<mapsto> initial_alignment d],
              settings = default_settings, click_listeners = []\<rparr>\<rparr>"

text \<open>A rendered holder, with a stale layout class, under the alignment \<open>Centered\<close>.\<close>

definition demo_holder_page :: page where
  "demo_holder_page =
     \<lparr>document = [], fragments = [Elem 0 ''div'' [''editorjs-iframe__frame'', ''flex'', ''iframe-justify-end''] [] []],
      next_id = 1, html_parse = demo_parse, html_serialize = demo_serialize_list,
      tool = \<lparr>api = demo_api, readOnly = False, blockIndex = 1, CSS = css_of demo_styles,
              nodes = empty_nodes\<lparr>node_holder := Some 0\<rparr>,
              data = [''frame'' \<mapsto> JStr [], ''alignment'' \<mapsto> JStr ''Centered''],
              settings = default_settings, click_listeners = []\<rparr>\<rparr>"

lemma demo_css_valid: "css_valid (css_of demo_styles)"
  by (simp add: css_valid_def css_of_def demo_styles_def ascii_whitespace_def)

lemma demo_page_wf: "dom_wf (demo_page d)"
  by (simp add: dom_wf_def all_roots_def demo_page_def)

lemma demo_page_fields [simp]:
  "tool_css (demo_page d) = css_of demo_styles"
  "tool_data (demo_page d) = [''frame'' \<mapsto> initial_frame d, ''alignment'' \<mapsto> initial_alignment d]"
  "next_id (demo_page d) = 0"
  "html_parse (demo_page d) = demo_parse"
  "tool_nodes (demo_page d) = empty_nodes"
  by (simp_all add: demo_page_def)

lemma demo_page_ok:
  "dom_wf (demo_page d)" "css_valid (tool_css (demo_page d))"
  by (simp_all add: demo_page_wf demo_css_valid)

section \<open>Properties of the tool\<close>

text \<open>
  C1: \<open>_toggleTune(T)\<close> sets the alignment to \<open>T\<close> unconditionally, before anything
  that can throw: after one click, and after a second click on the same tune, the
  alignment is \<open>T\<close> (clicking the active tune does not revert it to none).
\<close>

theorem toggle_tune_sets_alignment:
  "tool_data (js_state (toggle_tune t s)) ''alignment'' = Some (JStr t) \<and>
   tool_data (js_state (toggle_tune t (js_state (toggle_tune t s)))) ''alignment'' = Some (JStr t)"
  by (simp add: toggle_tune_data)

text \<open>
  C2: \<open>_acceptTuneView()\<close> with a rendered holder completes, and leaves on the holder
  exactly the layout class the alignment asks for among the three layout classes, every
  other class of the holder as it was.
\<close>

theorem accept_tune_view_projection:
  assumes h: "node_holder (tool_nodes s) = Some h" and n: "lookup_elem h s = Some n"
  shows "\<exists>s' n'. accept_tune_view s = Inr ((), s') \<and> lookup_elem h s' = Some n' \<and>
           set (classes_of n') =
             (set (classes_of n) - set justify_classes) \<union> set (tune_view (tool_data s ''alignment''))"
proof -
  from n obtain t cls a cs where "n = Elem h t cls a cs"
    using find_elem_shape [of h "all_roots s" n] by (auto simp: lookup_elem_def)
  then show ?thesis
    using accept_tune_view_holder [OF h] lookup_on_roots_classes [OF n] by (simp add: set_apply_view)
qed

theorem accept_tune_view_projection_witness:
  "node_holder (tool_nodes demo_holder_page) = Some 0 \<and>
   lookup_elem 0 demo_holder_page = Some (Elem 0 ''div'' [''editorjs-iframe__frame'', ''flex'', ''iframe-justify-end''] [] []) \<and>
   (\<exists>s' n'. accept_tune_view demo_holder_page = Inr ((), s') \<and> lookup_elem 0 s' = Some n' \<and>
      set (classes_of n') = {''editorjs-iframe__frame'', ''flex'', ''iframe-justify-center''})"
proof -
  have h: "node_holder (tool_nodes demo_holder_page) = Some 0"
    and n: "lookup_elem 0 demo_holder_page =
              Some (Elem 0 ''div'' [''editorjs-iframe__frame'', ''flex'', ''iframe-justify-end''] [] [])"
    by (simp_all add: demo_holder_page_def lookup_elem_def all_roots_def)
  show ?thesis
    using accept_tune_view_projection [OF h n] h n
    by (auto simp: demo_holder_page_def justify_classes_def justify_rules_def tune_view_def)
qed

text \<open>
  C3: \<open>_acceptTuneView()\<close> is idempotent: run again on the state it produced, it
  completes and changes nothing.
\<close>

theorem accept_tune_view_idem:
  assumes r: "accept_tune_view s = Inr ((), s')"
  shows "accept_tune_view s' = Inr ((), s')"
proof (cases "node_holder (tool_nodes s)")
  case None
  with r show ?thesis by (simp add: accept_tune_view_no_holder)
next
  case (Some h)
  let ?f = "map_classes (apply_view (tool_data s ''alignment''))"
  from r Some have s': "s' = on_roots (modify_list h ?f) s"
    by (simp add: accept_tune_view_holder)
  then have h': "node_holder (tool_nodes s') = Some h" and a': "tool_data s' = tool_data s"
    using Some by simp_all
  have "on_roots (modify_list h ?f) s' = s'"
    by (simp add: s' on_roots_compose comp_def modify_map_classes_compose apply_view_idem)
  with h' a' show ?thesis by (simp add: accept_tune_view_holder)
qed

theorem accept_tune_view_idem_witness:
  "\<exists>s'. accept_tune_view demo_holder_page = Inr ((), s') \<and> accept_tune_view s' = Inr ((), s')"
proof -
  obtain s' where r: "accept_tune_view demo_holder_page = Inr ((), s')"
    by (simp add: accept_tune_view_holder demo_holder_page_def)
  show ?thesis using r accept_tune_view_idem [OF r] by blast
qed

text \<open>
  C4: \<open>onPaste\<close> with a \<open>tag\<close> or \<open>pattern\<close> event replaces the frame and keeps the
  alignment and every other property of the data object, whether the write to the DOM
  then succeeds or throws; an event of another type changes no data.
\<close>

theorem on_paste_keeps_alignment:
  "tool_data (js_state (on_paste (PasteEvent ty v) s)) ''alignment'' = tool_data s ''alignment'' \<and>
   (\<forall>k. k \<noteq> ''frame'' \<longrightarrow> tool_data (js_state (on_paste (PasteEvent ty v) s)) k = tool_data s k) \<and>
   tool_data (js_state (on_paste (PasteEvent ty v) s)) ''frame'' =
     (if ty = ''tag'' \<or> ty = ''pattern'' then Some v else tool_data s ''frame'')"
  by (simp add: on_paste_data)

theorem on_paste_keeps_alignment_witness:
  "tool_data (js_state (on_paste (PasteEvent ''tag'' (JStr ''x'')) demo_holder_page)) ''alignment'' =
     Some (JStr ''Centered'') \<and>
   tool_data (js_state (on_paste (PasteEvent ''tag'' (JStr ''x'')) demo_holder_page)) ''caption'' =
     tool_data demo_holder_page ''caption'' \<and>
   tool_data (js_state (on_paste (PasteEvent ''tag'' (JStr ''x'')) demo_holder_page)) ''frame'' =
     Some (JStr ''x'')"
  using on_paste_keeps_alignment [of "''tag''" "JStr ''x''" demo_holder_page]
  by (simp add: demo_holder_page_def)

text \<open>
  C5: after \<open>render()\<close> injected a saved frame, the cached iframe is the placeholder the
  injection detached, so the data setter's write to \<open>iframe.parentElement.innerHTML\<close>
  throws: a paste then raises a \<open>TypeError\<close> after the frame was already stored, and
  the view is not updated.
\<close>

theorem paste_after_render_throws:
  assumes wf: "dom_wf s" and css: "css_valid (tool_css s)"
    and f: "truthy (tool_data s ''frame'')" and r: "render s = Inr (w, s1)"
  shows "on_paste (PasteEvent ''tag'' v) s1 =
           Inl (null_inner_html, s1\<lparr>tool := (tool s1)\<lparr>data := (tool_data s1)(''frame'' \<mapsto> v)\<rparr>\<rparr>)"
proof -
  obtain ns n' where al: "allocs (Suc (Suc (Suc (Suc (next_id s)))))
               (html_parse s (to_dom_string (tool_data s ''frame''))) = (ns, n')"
    by (cases "allocs (Suc (Suc (Suc (Suc (next_id s))))) (html_parse s (to_dom_string (tool_data s ''frame'')))")
  have ns_ids: "k \<notin> set (ids_list ns)" if "k < Suc (Suc (Suc (Suc (next_id s))))" for k
    using alloc_ids(2) [OF al] that by auto
  note fresh = wf_fresh [OF wf]
  have "parent_element (Suc (Suc (Suc (next_id s)))) s1 = None \<and>
        node_iframe (tool_nodes s1) = Some (Suc (Suc (Suc (next_id s))))"
    using r render_frame [OF wf css f al]
    by (auto simp: parent_element_def all_roots_def tree_simps absent_id_simps fresh ns_ids)
  then show ?thesis
    by (simp add: on_paste_def set_data_detached object_assign_def)
qed

theorem paste_after_render_throws_witness:
  "dom_wf (demo_page [''frame'' \<mapsto> JStr ''<iframe></iframe>'']) \<and>
   css_valid (tool_css (demo_page [''frame'' \<mapsto> JStr ''<iframe></iframe>''])) \<and>
   truthy (tool_data (demo_page [''frame'' \<mapsto> JStr ''<iframe></iframe>'']) ''frame'') \<and>
   (\<exists>w s1. render (demo_page [''frame'' \<mapsto> JStr ''<iframe></iframe>'']) = Inr (w, s1) \<and>
      on_paste (PasteEvent ''tag'' (JStr ''x'')) s1 =
        Inl (null_inner_html, s1\<lparr>tool := (tool s1)\<lparr>data := (tool_data s1)(''frame'' \<mapsto> JStr ''x'')\<rparr>\<rparr>))"
proof -
  let ?s = "demo_page [''frame'' \<mapsto> JStr ''<iframe></iframe>'']"
  have wf: "dom_wf ?s" by (rule demo_page_wf)
  have css: "css_valid (tool_css ?s)" by (simp add: demo_css_valid)
  have f: "truthy (tool_data ?s ''frame'')" by (simp add: initial_frame_def)
  obtain ns n' where al: "allocs (Suc (Suc (Suc (Suc (next_id ?s)))))
               (html_parse ?s (to_dom_string (tool_data ?s ''frame''))) = (ns, n')"
    by (cases "allocs (Suc (Suc (Suc (Suc (next_id ?s))))) (html_parse ?s (to_dom_string (tool_data ?s ''frame'')))")
  obtain w s1 where r: "render ?s = Inr (w, s1)"
    using render_frame [OF wf css f al] by blast
  show ?thesis
    using wf css f r paste_after_render_throws [OF wf css f r] by blast
qed

text \<open>
  C6: \<open>render()\<close> followed by \<open>save()\<close> on the element it returned: when the saved
  frame parses to markup whose first node is an iframe, the saved data is the previous
  data with \<open>frame\<close> replaced by the serialization of the parsed frame, and every other
  property (the alignment) unchanged.
\<close>

theorem render_save_roundtrip:
  assumes wf: "dom_wf s" and css: "css_valid (tool_css s)"
    and f: "truthy (tool_data s ''frame'')"
    and p: "html_parse s (to_dom_string (tool_data s ''frame'')) = MElem ''iframe'' c a ms # rest"
    and r: "render s = Inr (w, s1)"
  shows "\<exists>s2. save w s1 =
           Inr ((tool_data s)(''frame'' \<mapsto> JStr (html_serialize s (html_parse s (to_dom_string (tool_data s ''frame''))))), s2)"
proof -
  obtain ns n' where al: "allocs (Suc (Suc (Suc (Suc (next_id s)))))
               (html_parse s (to_dom_string (tool_data s ''frame''))) = (ns, n')"
    by (cases "allocs (Suc (Suc (Suc (Suc (next_id s))))) (html_parse s (to_dom_string (tool_data s ''frame'')))")
  note parts = render_frame_parts [OF wf css f al r]
  obtain cs xs where ns: "ns = Elem (Suc (Suc (Suc (Suc w)))) ''iframe'' c a cs # xs"
    using al p parts(1) by (auto split: prod.splits)
  have "strips ns = html_parse s (to_dom_string (tool_data s ''frame''))"
    using al strips_allocs [of "Suc (Suc (Suc (Suc (next_id s))))"] by (metis fst_conv)
  then show ?thesis
    using save_found [OF parts(2) _ parts(3) parts(4)] parts(5,6) ns by simp
qed

theorem render_save_roundtrip_witness:
  "\<exists>w s1 s2. render (demo_page [''frame'' \<mapsto> JStr ''<iframe></iframe>'']) = Inr (w, s1) \<and>
     save w s1 = Inr ([''frame'' \<mapsto> JStr ''<iframe></iframe>'', ''alignment'' \<mapsto> JBool False], s2)"
proof -
  let ?s = "demo_page [''frame'' \<mapsto> JStr ''<iframe></iframe>'']"
  obtain w s1 where r: "render ?s = Inr (w, s1)" using render_ok [OF demo_page_ok] by blast
  have p: "html_parse ?s (to_dom_string (tool_data ?s ''frame'')) = MElem ''iframe'' [] [] [] # []"
    by (simp add: initial_frame_def demo_parse_def)
  have f: "truthy (tool_data ?s ''frame'')" by (simp add: initial_frame_def)
  show ?thesis
    using render_save_roundtrip [OF demo_page_ok f p r] r
    by (simp add: initial_frame_def initial_alignment_def demo_parse_def demo_page_def fun_upd_twist)
qed

text \<open>
  C7: a block rendered without a frame (a new block, \<open>frame\<close> the empty string) and
  then saved persists the serialization of the empty placeholder iframe as its frame,
  \<open><iframe></iframe>\<close> in a browser, not the empty string it started with.
\<close>

theorem render_save_empty_frame:
  assumes wf: "dom_wf s" and css: "css_valid (tool_css s)"
    and f: "\<not> truthy (tool_data s ''frame'')"
    and r: "render s = Inr (w, s1)"
  shows "\<exists>s2. save w s1 = Inr ((tool_data s)(''frame'' \<mapsto> JStr (html_serialize s [MElem ''iframe'' [] [] []])), s2)"
  using save_found [OF render_no_frame_parts(2) [OF wf css f r] _ render_no_frame_parts(3,4) [OF wf css f r]]
    render_no_frame_parts(5,6) [OF wf css f r]
  by simp

theorem render_save_empty_frame_witness:
  "\<exists>w s1 s2. render (demo_page Map.empty) = Inr (w, s1) \<and>
     save w s1 = Inr ([''frame'' \<mapsto> JStr ''<iframe></iframe>'', ''alignment'' \<mapsto> JBool False], s2)"
proof -
  obtain w s1 where r: "render (demo_page Map.empty) = Inr (w, s1)" using render_ok [OF demo_page_ok] by blast
  have f: "\<not> truthy (tool_data (demo_page Map.empty) ''frame'')" by (simp add: initial_frame_def)
  show ?thesis
    using render_save_empty_frame [OF demo_page_ok f r] r
    by (simp add: initial_frame_def initial_alignment_def demo_page_def fun_upd_twist)
qed

text \<open>
  C8: \<open>save()\<close> keeps only the inner markup of the iframe's parent. When the saved frame
  parses to an element (other than an iframe) whose first child is the iframe, render
  puts that element into the holder, and save stores the serialization of the
  element's children: the wrapping element and everything after it are lost.
\<close>

theorem save_nested_frame_loses_wrapper:
  assumes wf: "dom_wf s" and css: "css_valid (tool_css s)"
    and f: "truthy (tool_data s ''frame'')"
    and p: "html_parse s (to_dom_string (tool_data s ''frame'')) =
              MElem tg c a (MElem ''iframe'' c' a' ms # rest') # rest"
    and tg: "tg \<noteq> ''iframe''"
    and r: "render s = Inr (w, s1)"
  shows "\<exists>s2. save w s1 =
           Inr ((tool_data s)(''frame'' \<mapsto> JStr (html_serialize s (MElem ''iframe'' c' a' ms # rest'))), s2)"
proof -
  let ?n0 = "Suc (Suc (Suc (Suc (next_id s))))"
  obtain ics k where a1: "allocs (Suc (Suc ?n0)) ms = (ics, k)" by (cases "allocs (Suc (Suc ?n0)) ms")
  obtain ys m where a2: "allocs k rest' = (ys, m)" by (cases "allocs k rest'")
  obtain xs n' where a3: "allocs m rest = (xs, n')" by (cases "allocs m rest")
  let ?I = "Elem (Suc ?n0) ''iframe'' c' a' ics"
  let ?E = "Elem ?n0 tg c a (?I # ys)"
  have al: "allocs ?n0 (html_parse s (to_dom_string (tool_data s ''frame''))) = (?E # xs, n')"
    using p a1 a2 a3 by simp
  have i1: "Suc (Suc ?n0) \<le> k" "k \<le> m" "set (ids_list xs) \<subseteq> {m..<n'}" "set (ids_list ys) \<subseteq> {k..<m}"
    "set (ids_list ics) \<subseteq> {Suc (Suc ?n0)..<k}"
    using alloc_ids(2) [OF a1] alloc_ids(2) [OF a2] alloc_ids(2) [OF a3] by auto
  have nx: "Suc ?n0 \<notin> set (ids_list xs)" "Suc ?n0 \<notin> set (ids_list ys)" "?n0 \<notin> set (ids_list xs)"
    "?n0 \<notin> set (ids_list ys)" "?n0 \<notin> set (ids_list ics)"
    using i1 by auto
  note fresh = wf_fresh [OF wf]
  note rs = r [unfolded render_frame [OF wf css f al]]
  have w: "w = next_id s" using rs by simp
  note parts = render_frame_parts [OF wf css f al r]
  have q: "first_tag_list ''iframe'' [Elem (Suc (Suc w)) ''div''
             (if truthy (tool_data s ''alignment'') then apply_view (tool_data s ''alignment'') (holder (tool_css s))
              else holder (tool_css s)) [] (?E # xs)] = Some (Suc ?n0)"
    using tg by simp
  have par: "parent_element (Suc ?n0) s1 = Some ?n0"
    using rs nx by (auto simp: parent_element_def all_roots_def tree_simps absent_id_simps fresh)
  have lk: "lookup_elem ?n0 s1 = Some ?E"
    using rs nx by (auto simp: lookup_elem_def all_roots_def tree_simps absent_id_simps fresh)
  have st: "strips (?I # ys) = MElem ''iframe'' c' a' ms # rest'"
    using strip_alloc(2) [OF a1] strip_alloc(2) [OF a2] by simp
  show ?thesis
    using save_found [OF parts(2)] q par lk st parts(5,6) w by simp
qed

theorem save_nested_frame_loses_wrapper_witness:
  "\<exists>w s1 s2. render (demo_page [''frame'' \<mapsto> JStr ''<div><iframe></iframe></div>'']) = Inr (w, s1) \<and>
     save w s1 = Inr ([''frame'' \<mapsto> JStr ''<iframe></iframe>'', ''alignment'' \<mapsto> JBool False], s2)"
proof -
  let ?s = "demo_page [''frame'' \<mapsto> JStr ''<div><iframe></iframe></div>'']"
  obtain w s1 where r: "render ?s = Inr (w, s1)" using render_ok [OF demo_page_ok] by blast
  have f: "truthy (tool_data ?s ''frame'')" by (simp add: initial_frame_def)
  have p: "html_parse ?s (to_dom_string (tool_data ?s ''frame'')) =
             MElem ''div'' [] [] (MElem ''iframe'' [] [] [] # []) # []"
    by (simp add: initial_frame_def demo_parse_def)
  show ?thesis
    using save_nested_frame_loses_wrapper [OF demo_page_ok f p _ r] r
    by (simp add: initial_frame_def initial_alignment_def demo_page_def fun_upd_twist)
qed

text \<open>
  C9: on a well-formed page whose style classes are valid tokens, \<open>render()\<close> completes
  and builds the layout the tool documents: the returned wrapper is cached, its only child
  is the cached holder, and the holder carries its own two classes followed by the layout
  class of the alignment (none when the alignment names no tune).
\<close>

theorem render_layout:
  assumes wf: "dom_wf s" and css: "css_valid (tool_css s)"
  shows "\<exists>w s1 h. render s = Inr (w, s1) \<and> node_wrapper (tool_nodes s1) = Some w \<and>
           node_holder (tool_nodes s1) = Some h \<and> parent_element h s1 = Some w \<and>
           map_option (map elem_id \<circ> children_of) (lookup_elem w s1) = Some [Some h] \<and>
           map_option classes_of (lookup_elem h s1) =
             Some (holder (tool_css s) @ tune_view (tool_data s ''alignment''))"
proof -
  obtain w s1 where r: "render s = Inr (w, s1)" using render_ok [OF wf css] by blast
  then show ?thesis using render_holder_view [OF wf css r] by blast
qed

theorem render_layout_witness:
  "\<exists>w s1 h. render (demo_page [''alignment'' \<mapsto> JStr ''Centered'']) = Inr (w, s1) \<and>
     node_wrapper (tool_nodes s1) = Some w \<and> node_holder (tool_nodes s1) = Some h \<and>
     parent_element h s1 = Some w \<and>
     map_option (map elem_id \<circ> children_of) (lookup_elem w s1) = Some [Some h] \<and>
     map_option classes_of (lookup_elem h s1) =
       Some [''editorjs-iframe__frame'', ''flex'', ''iframe-justify-center'']"
  using render_layout [OF demo_page_ok [of "[''alignment'' \<mapsto> JStr ''Centered'']"]]
  by (simp add: css_of_def initial_alignment_def tune_view_cases)

text \<open>
  C10: the constructor keeps any truthy alignment (line 74), not only the three tune
  names: a block saved with alignment \<open>justify\<close> is constructed with it, and its holder
  is rendered with no layout class.
\<close>

theorem construct_unvalidated_alignment:
  assumes t: "truthy (d ''alignment'')" and nt: "\<forall>n \<in> set tune_names. d ''alignment'' \<noteq> Some (JStr n)"
    and wf: "dom_wf s" and css: "css_valid (css_of (styles a))"
  shows "\<exists>s1 w s2 h. construct d a ro s = Inr ((), s1) \<and> tool_data s1 ''alignment'' = d ''alignment'' \<and>
           render s1 = Inr (w, s2) \<and> node_holder (tool_nodes s2) = Some h \<and>
           map_option classes_of (lookup_elem h s2) = Some [''editorjs-iframe__frame'', ''flex'']"
proof -
  obtain s1 where c: "construct d a ro s = Inr ((), s1)" and wf1: "dom_wf s1 = dom_wf s"
    and css1: "tool_css s1 = css_of (styles a)"
    and d1: "tool_data s1 = [''frame'' \<mapsto> initial_frame d, ''alignment'' \<mapsto> initial_alignment d]"
    using construct_ok by blast
  have al: "tool_data s1 ''alignment'' = d ''alignment''"
    using t d1 by (cases "d ''alignment''") (auto simp: initial_alignment_def)
  have tv: "tune_view (d ''alignment'') = []"
    using nt by (intro tune_view_cases(4)) (auto simp: loose_eq_name_iff)
  obtain w s2 where r: "render s1 = Inr (w, s2)" using render_ok wf1 wf css1 css by metis
  show ?thesis
    using c al r render_holder_view [of s1 w s2] wf1 wf css1 css tv
    by (auto simp: css_of_def)
qed

theorem construct_unvalidated_alignment_witness:
  "\<exists>s1 w s2 h. construct [''alignment'' \<mapsto> JStr ''justify''] demo_api False (demo_page Map.empty) = Inr ((), s1) \<and>
     tool_data s1 ''alignment'' = Some (JStr ''justify'') \<and>
     render s1 = Inr (w, s2) \<and> node_holder (tool_nodes s2) = Some h \<and>
     map_option classes_of (lookup_elem h s2) = Some [''editorjs-iframe__frame'', ''flex'']"
  using construct_unvalidated_alignment [of "[''alignment'' \<mapsto> JStr ''justify'']" "demo_page Map.empty" demo_api False]
  by (simp add: demo_page_wf demo_api_def demo_css_valid)

text \<open>
  C11: \<open>_toggleTune\<close> reaches the tune buttons through \<open>document.getElementById\<close>:
  when the settings panel is not in the document, the click stores the flag and the
  alignment and then throws a \<open>TypeError\<close>, leaving the DOM (the holder's layout class
  and the buttons) as it was.
\<close>

theorem toggle_tune_detached_settings:
  assumes st: "settings (tool s) = default_settings"
    and no: "first_id_list ''LeftAligned'' (document s) = None"
  shows "toggle_tune t s =
           Inl (null_get_element, s\<lparr>tool := (tool s)\<lparr>data :=
              (tool_data s)(t \<mapsto> JBool (\<not> truthy (tool_data s t)), ''alignment'' \<mapsto> JStr t)\<rparr>\<rparr>)"
  using st no
  by (simp add: toggle_tune_def js_simps default_settings_def mark_button_def get_element_by_id_def)

theorem toggle_tune_detached_settings_witness:
  "toggle_tune ''Centered'' demo_holder_page =
     Inl (null_get_element, demo_holder_page\<lparr>tool := (tool demo_holder_page)\<lparr>data :=
        [''frame'' \<mapsto> JStr [], ''alignment'' \<mapsto> JStr ''Centered'', ''Centered'' \<mapsto> JBool True]\<rparr>\<rparr>)"
  using toggle_tune_detached_settings [of demo_holder_page "''Centered''"]
  by (simp add: demo_holder_page_def fun_upd_twist)

text \<open>
  C18: Editor.js hands a tag paste the pasted element itself (\<open>event.detail.data\<close> is an
  element object), not its markup. \<open>onPaste\<close> stores that object as the frame. The data
  setter then writes its string conversion \<open>[object C]\<close> into the holder in place of the
  iframe. So after an empty block is rendered and an element is pasted, \<open>save\<close> finds
  no iframe, whatever the parser makes of that text as long as it contains no iframe. The
  data it returns has the element object, not markup, as its frame.
\<close>

theorem paste_tag_stores_element:
  assumes wf: "dom_wf s" and css: "css_valid (tool_css s)"
    and f: "\<not> truthy (tool_data s ''frame'')"
    and r: "render s = Inr (w, s1)"
    and np: "\<And>n. first_tag_list ''iframe'' (fst (allocs n (html_parse s (''[object '' @ cn @ '']'')))) = None"
  shows "\<exists>s2. on_paste (PasteEvent ''tag'' (JObj cn)) s1 = Inr ((), s2) \<and>
               save w s2 = Inr ((tool_data s)(''frame'' \<mapsto> JObj cn), s2)"
proof -
  note fresh = wf_fresh [OF wf]
  note rs = r [unfolded render_no_frame [OF wf css f]]
  obtain ns n' where al: "allocs (Suc (Suc (Suc (Suc (next_id s))))) (html_parse s (''[object '' @ cn @ '']'')) = (ns, n')"
    by (cases "allocs (Suc (Suc (Suc (Suc (next_id s))))) (html_parse s (''[object '' @ cn @ '']''))")
  have nf: "first_tag_list ''iframe'' ns = None" using np [of "Suc (Suc (Suc (Suc (next_id s))))"] al by simp
  have ni: "k \<notin> set (ids_list ns)" if "k < Suc (Suc (Suc (Suc (next_id s))))" for k
    using alloc_ids(2) [OF al] that by auto
  show ?thesis
    using rs [symmetric] al nf ni
    by (simp add: on_paste_def set_data_def js_simps set_parent_inner_html_def parent_element_def
        all_roots_def set_inner_html_def lookup_elem_def save_def query_selector_def on_roots_def
        object_assign_def tree_simps absent_id_simps fresh get_tool_def upd_data_def upd_tool_def)
qed

theorem paste_tag_stores_element_witness:
  "\<exists>w s1 s2. render (demo_page Map.empty) = Inr (w, s1) \<and>
     on_paste (PasteEvent ''tag'' (JObj ''HTMLIFrameElement'')) s1 = Inr ((), s2) \<and>
     save w s2 = Inr ([''frame'' \<mapsto> JObj ''HTMLIFrameElement'', ''alignment'' \<mapsto> JBool False], s2)"
proof -
  obtain w s1 where r: "render (demo_page Map.empty) = Inr (w, s1)" using render_ok [OF demo_page_ok] by blast
  have f: "\<not> truthy (tool_data (demo_page Map.empty) ''frame'')" by (simp add: initial_frame_def)
  have np: "first_tag_list ''iframe'' (fst (allocs n (html_parse (demo_page Map.empty)
              (''[object '' @ ''HTMLIFrameElement'' @ '']'')))) = None" for n
    by (simp add: demo_parse_def)
  show ?thesis
    using paste_tag_stores_element [OF demo_page_ok f r np] r
    by (simp add: initial_frame_def initial_alignment_def fun_upd_twist)
qed

end
