(* ===== verification/Tool_Invariants.thy ===== *)
theory Tool_Invariants
  imports Iframe_Tool
begin

text \<open>
  What each method of the tool keeps. Two families of facts: every method keeps the DOM
  well-formed (\<open>dom_wf\<close>: distinct identities, all allocated), whether it completes
  or throws; and the methods change the tool instance only where the source assigns:
  \<open>render\<close> only the node cache, \<open>save\<close> and \<open>onPaste\<close> only \<open>frame\<close>,
  \<open>renderSettings\<close> only the click listeners (named after the tool's own tunes),
  \<open>_toggleTune\<close> only the flag and the alignment. Each is stated for every predicate of
  the tool that is blind to the fields the method writes, so the host theory derives its
  invariants and its refinement from the same lemmas.
\<close>

section \<open>Predicates blind to a field\<close>

text \<open>Predicates on the tool that do not look at the node cache, or at \<open>frame\<close>.\<close>

definition nodes_blind :: "(iframe_tool \<Rightarrow> bool) \<Rightarrow> bool" where
  "nodes_blind P \<longleftrightarrow> (\<forall>t n. P (t\<lparr>nodes := n\<rparr>) = P t)"

definition frame_blind :: "(iframe_tool \<Rightarrow> bool) \<Rightarrow> bool" where
  "frame_blind P \<longleftrightarrow> (\<forall>t d. d ''alignment'' = data t ''alignment'' \<longrightarrow> P (t\<lparr>data := d\<rparr>) = P t)"

text \<open>
  A tool predicate that survives \<open>renderSettings\<close> registering a click listener named
  after one of the tool's own tunes.
\<close>

definition listener_blind :: "(iframe_tool \<Rightarrow> bool) \<Rightarrow> bool" where
  "listener_blind P \<longleftrightarrow> (\<forall>t el tune. P t \<longrightarrow> tune \<in> set (settings t) \<longrightarrow>
     P (t\<lparr>click_listeners := click_listeners t @ [(el, name tune)]\<rparr>))"

section \<open>The DOM stays well-formed\<close>

named_theorems wf_keeps "operations that keep the DOM well-formed"

lemmas [wf_keeps] = create_element_wf class_list_add_wf class_list_remove_wf set_attribute_wf
  append_child_wf remove_elem_wf set_inner_html_wf dom_reads_wf

lemma tool_ops_wf [wf_keeps]:
  "js_keeps dom_wf (upd_tool f)" "js_keeps dom_wf (upd_data g)" "js_keeps dom_wf (get_tool h)"
  "js_keeps dom_wf (cache_nodes x w i)" "js_keeps dom_wf (add_click_listener el t)"
  by (auto simp: js_keeps_def js_simps cache_nodes_def add_click_listener_def)

lemma parent_inner_html_wf [wf_keeps]:
  "js_keeps dom_wf (set_parent_inner_html x v)" "js_keeps dom_wf (get_parent_inner_html x)"
  by (auto simp: js_keeps_def set_parent_inner_html_def get_parent_inner_html_def split: option.splits
           dest: js_keepsD [OF set_inner_html_wf] js_keepsD [OF dom_reads_wf(1)])

lemma justify_step_wf [wf_keeps]: "js_keeps dom_wf (justify_step n c)"
  by (auto simp: js_keeps_def justify_step_def split: option.splits if_splits
           dest: js_keepsD [OF class_list_add_wf] js_keepsD [OF class_list_remove_wf])

lemma mark_button_wf [wf_keeps]: "js_keeps dom_wf (mark_button t tunes)"
  by (auto simp: js_keeps_def mark_button_def get_element_by_id_def split: option.splits if_splits
           dest: js_keepsD [OF class_list_add_wf] js_keepsD [OF class_list_remove_wf])

lemma make_wf [wf_keeps]: "js_keeps dom_wf (make tg cls props)"
  unfolding make_def by (intro js_keeps_bind js_keeps_then js_keeps_for_each wf_keeps js_keeps_return)
    (auto split: class_arg.splits prod.splits intro: wf_keeps)


lemma set_data_wf [wf_keeps]: "js_keeps dom_wf (set_data d)"
  unfolding set_data_def by (intro js_keeps_then js_keeps_bind js_keeps_option_case wf_keeps js_keeps_return)

lemma accept_tune_view_wf [wf_keeps]: "js_keeps dom_wf accept_tune_view"
  unfolding accept_tune_view_def by (intro js_keeps_then wf_keeps)

lemma toggle_tune_wf [wf_keeps]: "js_keeps dom_wf (toggle_tune t)"
  unfolding toggle_tune_def by (intro js_keeps_then js_keeps_bind js_keeps_for_each wf_keeps)

lemma settings_button_wf [wf_keeps]: "js_keeps dom_wf (settings_button w tune)"
  unfolding settings_button_def by (intro js_keeps_then js_keeps_bind js_keeps_when wf_keeps)

lemma render_settings_wf [wf_keeps]: "js_keeps dom_wf render_settings"
  unfolding render_settings_def
  by (intro js_keeps_then js_keeps_bind js_keeps_for_each wf_keeps js_keeps_return)

lemma render_wf [wf_keeps]: "js_keeps dom_wf render"
  unfolding render_def by (intro js_keeps_then js_keeps_bind js_keeps_when wf_keeps js_keeps_return)

lemma save_wf [wf_keeps]: "js_keeps dom_wf (save w)"
  unfolding save_def by (intro js_keeps_then js_keeps_bind js_keeps_option_case wf_keeps)

lemma on_paste_wf [wf_keeps]: "js_keeps dom_wf (on_paste ev)"
  unfolding on_paste_def by (auto split: paste_event.splits intro!: js_keeps_then wf_keeps js_keeps_return)

lemma construct_wf [wf_keeps]: "js_keeps dom_wf (construct d a ro)"
  unfolding construct_def by (intro js_keeps_then js_keeps_modify wf_keeps) simp

section \<open>Statements that leave the tool alone\<close>

named_theorems keeps_tool "statements that leave the tool instance as it is"

lemma dom_ops_keep_tool2 [keeps_tool]:
  "js_keeps (\<lambda>s. tool s = T) (create_element tg)"
  "js_keeps (\<lambda>s. tool s = T) (set_attribute x k v)"
  "js_keeps (\<lambda>s. tool s = T) (append_child p c)"
  "js_keeps (\<lambda>s. tool s = T) (remove_elem x)"
  "js_keeps (\<lambda>s. tool s = T) (get_inner_html p)"
  "js_keeps (\<lambda>s. tool s = T) (query_selector r tg)"
  by (auto simp: js_keeps_def create_element_def set_attribute_def append_child_def remove_elem_def
                 get_inner_html_def query_selector_def Let_def split: option.splits prod.splits if_splits)

lemmas [keeps_tool] = dom_ops_keep_tool justify_step_keeps_tool accept_tune_view_keeps_tool mark_button_keeps_tool

lemma get_tool_keeps_tool [keeps_tool]: "js_keeps (\<lambda>s. tool s = T) (get_tool f)"
  by (simp add: get_tool_def js_keeps_gets)

lemma parent_inner_html_keeps_tool [keeps_tool]:
  "js_keeps (\<lambda>s. tool s = T) (get_parent_inner_html x)"
  by (auto simp: js_keeps_def get_parent_inner_html_def get_inner_html_def split: option.splits)

lemma make_keeps_tool [keeps_tool]: "js_keeps (\<lambda>s. tool s = T) (make tg cls props)"
proof -
  have c: "js_keeps (\<lambda>s. tool s = T) (case cls of ClassList cs \<Rightarrow> class_list_add el cs
             | ClassOne c \<Rightarrow> js_when (c \<noteq> []) (class_list_add el [c]) | ClassNone \<Rightarrow> js_return ())" for el
    by (cases cls) (simp_all add: js_keeps_when js_keeps_return dom_ops_keep_tool)
  have a: "js_keeps (\<lambda>s. tool s = T) ((\<lambda>(k, v). set_attribute el k v) x)" for el x
    by (cases x) (simp add: dom_ops_keep_tool2)
  show ?thesis
    unfolding make_def
    apply (rule js_keeps_bind [OF dom_ops_keep_tool2(1)])
    apply (rule js_keeps_then [OF c])
    apply (rule js_keeps_then [OF js_keeps_for_each [OF a] js_keeps_return])
    done
qed

lemma keeps_tool_pred:
  assumes k: "\<And>T. js_keeps (\<lambda>s. tool s = T) m"
  shows "js_keeps (\<lambda>s. P (tool s)) m"
proof (rule js_keepsI)
  fix s e s' assume "P (tool s)" "m s = Inl (e, s')"
  moreover from js_keepsD(1) [OF k [of "tool s"] refl this(2)] have "tool s' = tool s" .
  ultimately show "P (tool s')" by simp
next
  fix s x s' assume "P (tool s)" "m s = Inr (x, s')"
  moreover from js_keepsD(2) [OF k [of "tool s"] refl this(2)] have "tool s' = tool s" .
  ultimately show "P (tool s')" by simp
qed

lemma upd_tool_pred: "(\<And>t. P t \<Longrightarrow> P (f t)) \<Longrightarrow> js_keeps (\<lambda>s. P (tool s)) (upd_tool f)"
  unfolding upd_tool_def by (rule js_keeps_modify) simp

lemma upd_data_pred:
  "(\<And>t. P t \<Longrightarrow> P (t\<lparr>data := f (data t)\<rparr>)) \<Longrightarrow> js_keeps (\<lambda>s. P (tool s)) (upd_data f)"
  unfolding upd_data_def by (rule upd_tool_pred)

lemma js_keeps_bind_gets:
  assumes k: "\<And>x. js_keeps (\<lambda>s. P s \<and> f s = x) (g x)"
  shows "js_keeps P (js_bind (js_gets f) g)"
proof (rule js_keepsI)
  fix s e s' assume p: "P s" and "js_bind (js_gets f) g s = Inl (e, s')"
  then have "g (f s) s = Inl (e, s')" by (simp add: js_simps)
  from js_keepsD(1) [OF k, of s, OF _ this] p show "P s'" by simp
next
  fix s x s' assume p: "P s" and "js_bind (js_gets f) g s = Inr (x, s')"
  then have "g (f s) s = Inr (x, s')" by (simp add: js_simps)
  from js_keepsD(2) [OF k, of s, OF _ this] p show "P s'" by simp
qed

lemma frame_blindD:
  "frame_blind P \<Longrightarrow> d ''alignment'' = data t ''alignment'' \<Longrightarrow> P (t\<lparr>data := d\<rparr>) = P t"
  unfolding frame_blind_def by blast

lemma render_pred: "nodes_blind P \<Longrightarrow> js_keeps (\<lambda>s. P (tool s)) render"
  unfolding render_def
  by (intro js_keeps_then js_keeps_bind js_keeps_when js_keeps_return;
      (rule keeps_tool_pred, rule keeps_tool)?)
     (simp add: cache_nodes_def upd_tool_pred nodes_blind_def)

lemma save_pred: "frame_blind P \<Longrightarrow> js_keeps (\<lambda>s. P (tool s)) (save w)"
  unfolding save_def
  by (intro js_keeps_then js_keeps_bind js_keeps_option_case;
      (rule keeps_tool_pred, rule keeps_tool)?)
     (auto intro!: upd_data_pred simp: frame_blind_def object_assign_lookup)

lemma object_assign_keeps_key: "d k = None \<Longrightarrow> object_assign t d k = t k"
  by (simp add: object_assign_lookup)

lemma set_data_pred:
  assumes fb: "frame_blind P" and d: "d ''alignment'' = None"
  shows "js_keeps (\<lambda>s. P (tool s)) (set_data d)"
proof -
  have u: "js_keeps (\<lambda>s. P (tool s)) (upd_data (\<lambda>old. object_assign (object_assign Map.empty old) d))"
    by (rule upd_data_pred) (simp add: object_assign_empty frame_blindD [OF fb] object_assign_keeps_key [of d "''alignment''", OF d])
  show ?thesis
    unfolding set_data_def
    by (intro js_keeps_then js_keeps_bind js_keeps_option_case js_keeps_return u;
        (rule keeps_tool_pred, rule keeps_tool)?)
qed

lemma on_paste_pred:
  assumes fb: "frame_blind P"
  shows "js_keeps (\<lambda>s. P (tool s)) (on_paste ev)"
proof (cases ev)
  case (PasteEvent ty v)
  have u: "js_keeps (\<lambda>s. P (tool s)) (upd_data (\<lambda>d. object_assign (object_assign Map.empty d) [''frame'' \<mapsto> v]))"
    by (rule upd_data_pred) (simp add: object_assign_empty frame_blindD [OF fb] object_assign_keeps_key)
  show ?thesis
    using PasteEvent by (simp add: on_paste_def js_keeps_then js_keeps_return set_data_pred [OF fb] u)
qed

section \<open>Click listeners and tune clicks\<close>

lemma add_click_listener_pred:
  assumes "listener_blind P" and "tune \<in> set sts"
  shows "js_keeps (\<lambda>s. P (tool s) \<and> settings (tool s) = sts) (add_click_listener el (name tune))"
  unfolding add_click_listener_def
  by (rule upd_tool_pred) (use assms in \<open>auto simp: listener_blind_def\<close>)

lemma settings_button_pred:
  "listener_blind P \<Longrightarrow> tune \<in> set sts \<Longrightarrow>
   js_keeps (\<lambda>s. P (tool s) \<and> settings (tool s) = sts) (settings_button w tune)"
  unfolding settings_button_def
  by (intro js_keeps_then js_keeps_bind js_keeps_when add_click_listener_pred;
      (rule keeps_tool_pred, rule keeps_tool)?)

lemma render_settings_pred:
  assumes lb: "listener_blind P"
  shows "js_keeps (\<lambda>s. P (tool s)) render_settings"
  unfolding render_settings_def
  apply (rule js_keeps_bind)
   apply (rule keeps_tool_pred, rule keeps_tool)
  apply (unfold get_tool_def)
  apply (rule js_keeps_bind_gets)
  apply (intro js_keeps_then js_keeps_for_each settings_button_pred [OF lb] js_keeps_return)
  apply assumption
  done

lemma toggle_tune_tool:
  "tool (js_state (toggle_tune t s)) =
     (tool s)\<lparr>data := (tool_data s)(t \<mapsto> JBool (\<not> truthy (tool_data s t)), ''alignment'' \<mapsto> JStr t)\<rparr>"
proof -
  let ?s1 = "s\<lparr>tool := (tool s)\<lparr>data := (tool_data s)(t \<mapsto> JBool (\<not> truthy (tool_data s t)),
                                                ''alignment'' \<mapsto> JStr t)\<rparr>\<rparr>"
  have rest: "js_keeps (\<lambda>s'. tool s' = tool ?s1)
     (js_then (js_bind (get_tool (\<lambda>s. settings (tool s))) (\<lambda>sts. js_for_each sts (mark_button t)))
        accept_tune_view)"
    by (intro js_keeps_then js_keeps_bind js_keeps_for_each keeps_tool)
  have "toggle_tune t s = js_then (js_bind (get_tool (\<lambda>s. settings (tool s))) (\<lambda>sts. js_for_each sts (mark_button t)))
        accept_tune_view ?s1"
    by (simp add: toggle_tune_def js_simps)
  with js_keeps_state [OF rest, where s = ?s1] show ?thesis by simp
qed

end
