(* ===== verification/Paste_Pattern.thy ===== *)
theory Paste_Pattern
  imports Prelude
begin

text \<open>
  The paste pattern of \<open>static get pasteConfig\<close> (src/src/index.js, lines 231--238),
  \<open>/(?:<iframe[^>]*)(?:(?:\/>)|(?:>.*?<\/iframe>))/\<close>, with no flags. The
  regular expression is a term of a small syntax of ECMAScript patterns (literals,
  sequence, alternation, greedy and lazy star over a character class), given the
  backtracking semantics of the ECMAScript specification in continuation-passing
  style: a matcher takes the input, a position and a continuation, tries its choices in
  the specified order and returns the end of the first successful overall match.
  \<open>exec\<close> is \<open>RegExp.prototype.exec\<close> without the \<open>g\<close> flag: the leftmost start
  at which the pattern matches. A direct scanner, \<open>scan\<close>, is proved to compute the
  same result, and from it the shape of every match. Characters are Isabelle's 8-bit
  \<open>char\<close>: of the four line terminators that \<open>.\<close> excludes only LF and CR exist.
\<close>

section \<open>Regular expressions with backtracking\<close>

datatype cls = CNot "char list" | CDot

definition line_terminators :: "char list" where
  "line_terminators = [CHR 0x0A, CHR 0x0D]"

fun cls_match :: "cls \<Rightarrow> char \<Rightarrow> bool" where
  "cls_match (CNot cs) x \<longleftrightarrow> x \<notin> set cs"
| "cls_match CDot x \<longleftrightarrow> x \<notin> set line_terminators"

datatype rx = Eps | Lit char | Seq rx rx | Alt rx rx | StarG cls | StarL cls

type_synonym cont = "nat \<Rightarrow> nat option"

fun star_g :: "cls \<Rightarrow> string \<Rightarrow> nat \<Rightarrow> cont \<Rightarrow> nat option" where
  "star_g c [] i k = k i"
| "star_g c (x # xs) i k =
     (if cls_match c x then (case star_g c xs (Suc i) k of Some r \<Rightarrow> Some r | None \<Rightarrow> k i) else k i)"

fun star_l :: "cls \<Rightarrow> string \<Rightarrow> nat \<Rightarrow> cont \<Rightarrow> nat option" where
  "star_l c [] i k = k i"
| "star_l c (x # xs) i k =
     (case k i of Some r \<Rightarrow> Some r | None \<Rightarrow> if cls_match c x then star_l c xs (Suc i) k else None)"

primrec mt :: "rx \<Rightarrow> string \<Rightarrow> nat \<Rightarrow> cont \<Rightarrow> nat option" where
  "mt Eps s i k = k i"
| "mt (Lit c) s i k = (if i < length s \<and> s ! i = c then k (Suc i) else None)"
| "mt (Seq a b) s i k = mt a s i (\<lambda>j. mt b s j k)"
| "mt (Alt a b) s i k = (case mt a s i k of Some r \<Rightarrow> Some r | None \<Rightarrow> mt b s i k)"
| "mt (StarG c) s i k = star_g c (drop i s) i k"
| "mt (StarL c) s i k = star_l c (drop i s) i k"

fun lits :: "string \<Rightarrow> rx" where
  "lits [] = Eps"
| "lits [c] = Lit c"
| "lits (c # cs) = Seq (Lit c) (lits cs)"

function exec_from :: "rx \<Rightarrow> string \<Rightarrow> nat \<Rightarrow> (nat \<times> nat) option" where
  "exec_from r s i =
     (if length s < i then None
      else case mt r s i Some of Some j \<Rightarrow> Some (i, j) | None \<Rightarrow> exec_from r s (Suc i))"
  by pat_completeness auto
termination by (relation "measure (\<lambda>(r, s, i). Suc (length s) - i)") auto

definition exec :: "rx \<Rightarrow> string \<Rightarrow> (nat \<times> nat) option" where
  "exec r s = exec_from r s 0"

definition iframe_pattern :: rx where
  "iframe_pattern =
     Seq (Seq (lits ''<iframe'') (StarG (CNot ''>'')))
         (Alt (lits ''/>'') (Seq (Lit CHR ''>'') (Seq (StarL CDot) (lits ''</iframe>''))))"

text \<open>The two recognisers of \<open>pasteConfig\<close>: the tag name and the named pattern.\<close>

datatype paste_config = PasteConfig (tags: "string list") (patterns: "(string \<times> rx) list")

definition pasteConfig :: paste_config where
  "pasteConfig = PasteConfig [''iframe''] [(''iframe'', iframe_pattern)]"

section \<open>A direct scanner\<close>

text \<open>
  At a start position: the literal \<open><iframe\<close>, then the first \<open>>\<close> after it; the
  paired form is tried first (the first \<open></iframe>\<close> after that \<open>>\<close> on the same
  line), then the self-closing form (the \<open>>\<close> preceded by \<open>/\<close>).
\<close>

fun find_gt :: "string \<Rightarrow> nat \<Rightarrow> nat option" where
  "find_gt [] i = None"
| "find_gt (x # xs) i = (if x = CHR ''>'' then Some i else find_gt xs (Suc i))"

fun find_close :: "string \<Rightarrow> nat \<Rightarrow> nat option" where
  "find_close [] i = None"
| "find_close (x # xs) i =
     (if take 9 (x # xs) = ''</iframe>'' then Some i
      else if x \<in> set line_terminators then None else find_close xs (Suc i))"

definition scan_at :: "string \<Rightarrow> nat \<Rightarrow> nat option" where
  "scan_at s p =
     (if take 7 (drop p s) \<noteq> ''<iframe'' then None
      else case find_gt (drop (p + 7) s) (p + 7) of
        None \<Rightarrow> None
      | Some j \<Rightarrow>
          (case find_close (drop (Suc j) s) (Suc j) of
             Some t \<Rightarrow> Some (t + 9)
           | None \<Rightarrow> if p + 7 < j \<and> s ! (j - 1) = CHR ''/'' then Some (Suc j) else None))"


text \<open>The leftmost start with a match, and the end of that match.\<close>

fun down :: "cont \<Rightarrow> nat \<Rightarrow> nat \<Rightarrow> nat option" where
  "down k i 0 = k i"
| "down k i (Suc n) = (case k (i + Suc n) of Some r \<Rightarrow> Some r | None \<Rightarrow> down k i n)"

definition leftmost :: "(nat \<Rightarrow> nat option) \<Rightarrow> nat list \<Rightarrow> (nat \<times> nat) option" where
  "leftmost f ps = (case find (\<lambda>p. f p \<noteq> None) ps of None \<Rightarrow> None | Some p \<Rightarrow> Some (p, the (f p)))"

definition scan :: "string \<Rightarrow> (nat \<times> nat) option" where
  "scan s = leftmost (scan_at s) [0..<Suc (length s)]"

definition no_close_before :: "string \<Rightarrow> bool" where
  "no_close_before c \<longleftrightarrow> (\<forall>u < length c. take 9 (drop u (c @ ''</iframe>'')) \<noteq> ''</iframe>'')"

definition iframe_shape :: "string \<Rightarrow> bool" where
  "iframe_shape m \<longleftrightarrow> (\<exists>a b. m = ''<iframe'' @ a @ b \<and> CHR ''>'' \<notin> set a \<and>
      (b = ''/>'' \<or> (\<exists>c. b = ''>'' @ c @ ''</iframe>'' \<and> set c \<inter> set line_terminators = {} \<and> no_close_before c)))"

text \<open>
  The shape of a match: \<open><iframe\<close>, attributes without \<open>>\<close>, then \<open>/>\<close>, or
  \<open>>\<close>, a content on one line with no earlier \<open></iframe>\<close>, and \<open></iframe>\<close>.
\<close>

section \<open>Literals and stars\<close>

lemma take_drop_Cons:
  "take (Suc n) (drop i s) = c # cs \<longleftrightarrow> i < length s \<and> s ! i = c \<and> take n (drop (Suc i) s) = cs"
proof (cases "i < length s")
  case True
  then have "drop i s = s ! i # drop (Suc i) s" by (simp add: Cons_nth_drop_Suc)
  then show ?thesis using True by simp
qed simp

lemma mt_lits:
  "mt (lits w) s i k = (if take (length w) (drop i s) = w then k (i + length w) else None)"
proof (induction w arbitrary: i rule: lits.induct)
  case 1
  then show ?case by simp
next
  case (2 c)
  then show ?case by (auto simp: take_drop_Cons)
next
  case (3 c d cs)
  then show ?case by (auto simp: take_drop_Cons)
qed

lemma mt_lits2:
  "mt (lits [a, b]) s e k = (if Suc e < length s \<and> s ! e = a \<and> s ! Suc e = b then k (Suc (Suc e)) else None)"
  by simp

lemma down_Suc_base:
  "down k i (Suc n) = (case down k (Suc i) n of Some r \<Rightarrow> Some r | None \<Rightarrow> k i)"
  by (induction n) (auto split: option.splits)

lemma star_g_down:
  "star_g c xs i k = down k i (length (takeWhile (cls_match c) xs))"
  by (induction xs arbitrary: i) (auto simp: down_Suc_base simp del: down.simps(2) split: option.splits)

lemma down_last:
  "(\<And>m. m < n \<Longrightarrow> k (i + m) = None) \<Longrightarrow> down k i n = k (i + n)"
proof (induction n)
  case (Suc n)
  then show ?case by (auto split: option.splits)
qed simp

lemma down_two:
  "(\<And>m. Suc m < n \<Longrightarrow> k (i + m) = None) \<Longrightarrow>
   down k i n = (case k (i + n) of Some r \<Rightarrow> Some r | None \<Rightarrow> if n = 0 then None else k (i + n - 1))"
proof (cases n)
  case (Suc n')
  assume "\<And>m. Suc m < n \<Longrightarrow> k (i + m) = None"
  then have "down k i n' = k (i + n')" using Suc by (intro down_last) simp
  then show ?thesis using Suc by (simp split: option.splits)
qed (simp split: option.splits)

lemma cls_match_gt: "cls_match (CNot ''>'') = (\<lambda>x. x \<noteq> CHR ''>'')"
  by auto

lemma takeWhile_drop_facts:
  fixes s :: string and q :: nat
  defines "n \<equiv> length (takeWhile (\<lambda>x. x \<noteq> CHR ''>'') (drop q s))"
  shows "m < n \<Longrightarrow> q + m < length s \<and> s ! (q + m) \<noteq> CHR ''>''"
    and "n < length (drop q s) \<Longrightarrow> q + n < length s \<and> s ! (q + n) = CHR ''>''"
    and "\<not> n < length (drop q s) \<Longrightarrow> length s \<le> q + n"
proof -
  show "m < n \<Longrightarrow> q + m < length s \<and> s ! (q + m) \<noteq> CHR ''>''"
  proof -
    assume m: "m < n"
    then have "m < length (drop q s)" unfolding n_def using length_takeWhile_le less_le_trans by blast
    moreover have "takeWhile (\<lambda>x. x \<noteq> CHR ''>'') (drop q s) ! m = drop q s ! m"
      using m unfolding n_def by (rule takeWhile_nth)
    moreover have "takeWhile (\<lambda>x. x \<noteq> CHR ''>'') (drop q s) ! m \<in> set (takeWhile (\<lambda>x. x \<noteq> CHR ''>'') (drop q s))"
      using m unfolding n_def by (rule nth_mem)
    ultimately have "m < length (drop q s)" "drop q s ! m \<noteq> CHR ''>''"
      by (auto dest: set_takeWhileD)
    then show ?thesis by simp
  qed
  show "n < length (drop q s) \<Longrightarrow> q + n < length s \<and> s ! (q + n) = CHR ''>''"
    unfolding n_def using nth_length_takeWhile [of "\<lambda>x. x \<noteq> CHR ''>''" "drop q s"] by auto
  show "\<not> n < length (drop q s) \<Longrightarrow> length s \<le> q + n"
    unfolding n_def by simp
qed


lemma take_drop_append_within:
  "u + n \<le> length xs \<Longrightarrow> take n (drop u (xs @ ys)) = take n (drop u xs)"
  by simp

lemma take_length_append: "take (length xs) (xs @ ys) = xs"
  by simp

lemma take_prefix: "take (length w) xs = w \<Longrightarrow> xs = w @ drop (length w) xs"
  by (metis append_take_drop_id)

section \<open>The scanner computes the pattern\<close>

lemma find_gt_takeWhile:
  "find_gt xs i =
     (if length (takeWhile (\<lambda>x. x \<noteq> CHR ''>'') xs) < length xs
      then Some (i + length (takeWhile (\<lambda>x. x \<noteq> CHR ''>'') xs)) else None)"
  by (induction xs arbitrary: i) auto

lemma star_l_close:
  "xs = drop t s \<Longrightarrow>
   star_l CDot xs t (\<lambda>t. mt (lits ''</iframe>'') s t Some) = map_option (\<lambda>t. t + 9) (find_close xs t)"
proof (induction xs arbitrary: t)
  case Nil
  then show ?case by (simp add: mt_lits)
next
  case (Cons x xs)
  have d: "drop t s = x # xs" using Cons.prems by simp
  then have "xs = drop (Suc t) s" by (metis drop_Suc list.sel(3) tl_drop)
  note ih = Cons.IH [OF this]
  have k: "mt (lits ''</iframe>'') s t Some = (if take 9 (x # xs) = ''</iframe>'' then Some (t + 9) else None)"
    by (simp only: mt_lits d) (simp add: eval_nat_numeral)
  show ?case by (simp only: star_l.simps find_close.simps k ih) simp
qed


lemma mt_iframe_scan: "mt iframe_pattern s p Some = scan_at s p"
proof -
  define q where "q = p + 7"
  define n where "n = length (takeWhile (\<lambda>x. x \<noteq> CHR ''>'') (drop q s))"
  define K where "K = (\<lambda>e. mt (Alt (lits ''/>'') (Seq (Lit CHR ''>'') (Seq (StarL CDot) (lits ''</iframe>'')))) s e Some)"
  note tw = takeWhile_drop_facts [where q = q and s = s, folded n_def]
  have K: "K e = (if Suc e < length s \<and> s ! e = CHR ''/'' \<and> s ! Suc e = CHR ''>'' then Some (Suc (Suc e))
                  else if e < length s \<and> s ! e = CHR ''>''
                  then map_option (\<lambda>t. t + 9) (find_close (drop (Suc e) s) (Suc e)) else None)" for e
    unfolding K_def using star_l_close [of "drop (Suc e) s" "Suc e" s]
    by (simp only: mt.simps mt_lits2 [simplified]) (simp split: option.splits)
  have mid: "K (q + m) = None" if "Suc m < n" for m
    using tw(1) [of m] tw(1) [of "Suc m"] that by (simp add: K)
  have last: "K (q + n) = (if n < length (drop q s)
                 then map_option (\<lambda>t. t + 9) (find_close (drop (Suc (q + n)) s) (Suc (q + n))) else None)"
    using tw(2,3) by (auto simp: K)
  have prev: "K (q + n - 1) = (if s ! (q + n - 1) = CHR ''/'' \<and> n < length (drop q s) then Some (Suc (q + n)) else None)"
    if "0 < n" for n'
    using that tw(1) [of "n - 1"] tw(2,3) by (auto simp: K)
  have "mt iframe_pattern s p Some =
          (if take 7 (drop p s) = ''<iframe'' then star_g (CNot ''>'') (drop q s) q K else None)"
  proof -
    have L: "mt (lits ''<iframe'') s p k = (if take 7 (drop p s) = ''<iframe'' then k (p + 7) else None)" for k
      by (simp only: mt_lits) (simp add: eval_nat_numeral)
    have "mt iframe_pattern s p Some = mt (lits ''<iframe'') s p (\<lambda>j. star_g (CNot ''>'') (drop j s) j K)"
      unfolding iframe_pattern_def K_def by (simp only: mt.simps(3,5))
    then show ?thesis by (simp only: L q_def)
  qed
  also have "\<dots> = (if take 7 (drop p s) = ''<iframe'' then down K q n else None)"
    by (simp add: star_g_down cls_match_gt n_def)
  also have "\<dots> = scan_at s p"
    using down_two [of n K q, OF mid] last prev
    by (auto simp: scan_at_def find_gt_takeWhile q_def [symmetric] n_def [symmetric] split: option.splits)
  finally show ?thesis .
qed


lemma exec_from_leftmost: "exec_from r s i = leftmost (\<lambda>p. mt r s p Some) [i..<Suc (length s)]"
proof (induction r s i rule: exec_from.induct)
  case (1 r s i)
  show ?case
  proof (cases "length s < i")
    case False
    then have "[i..<Suc (length s)] = i # [Suc i..<Suc (length s)]" by (simp add: upt_conv_Cons)
    with False 1 show ?thesis by (auto simp: leftmost_def split: option.splits)
  qed (simp add: leftmost_def)
qed

lemma exec_iframe_scan: "exec iframe_pattern s = scan s"
  by (simp only: exec_def exec_from_leftmost mt_iframe_scan scan_def)


section \<open>The shape of a match\<close>

lemma find_gt_Some:
  "find_gt xs i = Some j \<Longrightarrow> \<exists>a rest. xs = a @ CHR ''>'' # rest \<and> CHR ''>'' \<notin> set a \<and> j = i + length a"
proof (induction xs arbitrary: i)
  case (Cons x xs)
  show ?case
  proof (cases "x = CHR ''>''")
    case False
    with Cons.prems have "find_gt xs (Suc i) = Some j" by simp
    from Cons.IH [OF this] obtain a rest where "xs = a @ CHR ''>'' # rest" "CHR ''>'' \<notin> set a" "j = Suc i + length a"
      by blast
    with False show ?thesis by (intro exI [of _ "x # a"] exI [of _ rest]) simp
  qed (use Cons in auto)
qed simp

lemma find_close_Some:
  "find_close xs i = Some t \<Longrightarrow>
   \<exists>c rest. xs = c @ ''</iframe>'' @ rest \<and> t = i + length c \<and> set c \<inter> set line_terminators = {} \<and>
     (\<forall>u < length c. take 9 (drop u xs) \<noteq> ''</iframe>'')"
proof (induction xs arbitrary: i)
  case (Cons x xs)
  show ?case
  proof (cases "take 9 (x # xs) = ''</iframe>''")
    case True
    then have "x # xs = ''</iframe>'' @ drop 9 (x # xs)" by (metis append_take_drop_id)
    with True Cons.prems show ?thesis by (intro exI [of _ "[]"] exI [of _ "drop 9 (x # xs)"]) simp
  next
    case False
    with Cons.prems have x: "x \<notin> set line_terminators" and r: "find_close xs (Suc i) = Some t"
      by (auto split: if_splits)
    from Cons.IH [OF r] obtain c rest where "xs = c @ ''</iframe>'' @ rest" "t = Suc i + length c"
      "set c \<inter> set line_terminators = {}" "\<forall>u < length c. take 9 (drop u xs) \<noteq> ''</iframe>''"
      by blast
    with x False show ?thesis
      by (intro exI [of _ "x # c"] exI [of _ rest]) (auto simp: less_Suc_eq_0_disj)
  qed
qed simp


lemma scan_at_Some:
  assumes "scan_at s p = Some e"
  shows "p \<le> e \<and> e \<le> length s \<and> iframe_shape (take (e - p) (drop p s))"
proof -
  have pre: "take 7 (drop p s) = ''<iframe''" using assms by (auto simp: scan_at_def split: if_splits)
  then have "drop p s = ''<iframe'' @ drop 7 (drop p s)" by (metis append_take_drop_id)
  then have dp: "drop p s = ''<iframe'' @ drop (p + 7) s" by (simp add: add.commute)
  obtain j where j: "find_gt (drop (p + 7) s) (p + 7) = Some j"
    using assms pre by (auto simp: scan_at_def split: option.splits)
  from find_gt_Some [OF j] obtain a rest where a: "drop (p + 7) s = a @ CHR ''>'' # rest"
    "CHR ''>'' \<notin> set a" "j = p + 7 + length a" by blast
  have rest: "drop (Suc j) s = rest"
  proof -
    have "drop (Suc (length a)) (drop (p + 7) s) = rest" using a(1) by simp
    then show ?thesis using a(3) by (simp add: ac_simps)
  qed
  have whole: "drop p s = ''<iframe'' @ a @ CHR ''>'' # rest" using dp a(1) by simp
  show ?thesis
  proof (cases "find_close rest (Suc j)")
    case (Some t)
    from find_close_Some [OF Some] obtain c rest' where c: "rest = c @ ''</iframe>'' @ rest'"
      "t = Suc j + length c" "set c \<inter> set line_terminators = {}"
      "\<forall>u < length c. take 9 (drop u rest) \<noteq> ''</iframe>''" by blast
    have e: "e = t + 9" using assms pre j Some rest by (simp add: scan_at_def)
    have nc: "no_close_before c"
      unfolding no_close_before_def
    proof (intro allI impI)
      fix u assume u: "u < length c"
      have "take 9 (drop u rest) = take 9 (drop u (c @ ''</iframe>''))"
        using take_drop_append_within [of u 9 "c @ ''</iframe>''" rest'] u c(1) by simp
      moreover have "take 9 (drop u rest) \<noteq> ''</iframe>''" using c(4) u by blast
      ultimately show "take 9 (drop u (c @ ''</iframe>'')) \<noteq> ''</iframe>''" by metis
    qed
    define W where "W = ''<iframe'' @ a @ (''>'' @ c @ ''</iframe>'')"
    have dW: "drop p s = W @ rest'" using whole c(1) unfolding W_def by simp
    have lW: "e - p = length W" using c(2) e a(3) unfolding W_def by simp
    have "take (e - p) (drop p s) = ''<iframe'' @ a @ (''>'' @ c @ ''</iframe>'')"
      unfolding dW lW take_length_append W_def ..
    moreover have "length (drop p s) = 7 + length a + 1 + length c + 9 + length rest'"
      using whole c(1) by simp
    ultimately show ?thesis using a(2,3) c(2,3) nc e by (auto simp: iframe_shape_def)
  next
    case None
    have e: "e = Suc j" and lt: "p + 7 < j" and sl: "s ! (j - 1) = CHR ''/''"
      using assms pre j None rest by (auto simp: scan_at_def split: if_splits)
    have ne: "a \<noteq> []" using lt a(3) by auto
    have pl: "p \<le> length s" using whole by (metis Nil_is_append_conv drop_all list.simps(3) not_le_imp_less less_imp_le)
    have idx: "j - 1 = p + (7 + (length a - 1))" using ne a(3) by (cases a) auto
    have "s ! (j - 1) = drop p s ! (7 + (length a - 1))"
      using pl by (simp only: idx nth_drop)
    also have "\<dots> = last a" using whole ne by (simp add: nth_append last_conv_nth)
    finally have la: "last a = CHR ''/''" using sl by simp
    define a' where "a' = butlast a"
    have aa: "a = a' @ ''/''" using la ne unfolding a'_def by (metis append_butlast_last_id)
    define W where "W = ''<iframe'' @ a' @ ''/>''"
    have dW: "drop p s = W @ rest" using whole aa unfolding W_def by simp
    have lW: "e - p = length W" using e a(3) aa unfolding W_def by simp
    have "take (e - p) (drop p s) = ''<iframe'' @ a' @ ''/>''"
      unfolding dW lW take_length_append W_def ..
    moreover have "length (drop p s) = 7 + length a + 1 + length rest" using whole by simp
    ultimately show ?thesis using a(2,3) aa e by (auto simp: iframe_shape_def)
  qed
qed



lemma scan_Some:
  assumes "scan s = Some (i, e)"
  shows "scan_at s i = Some e \<and> i \<le> length s \<and> (\<forall>p < i. scan_at s p = None)"
proof -
  from assms obtain k where k: "k < length [0..<Suc (length s)]" "i = [0..<Suc (length s)] ! k"
    "scan_at s i \<noteq> None" "\<forall>j<k. scan_at s ([0..<Suc (length s)] ! j) = None" "scan_at s i = Some e"
    by (auto simp: scan_def leftmost_def find_Some_iff split: option.splits)
  then have "i = k" by (simp del: upt_Suc)
  with k show ?thesis by (auto simp del: upt_Suc)
qed

lemma exec_shape:
  assumes "exec iframe_pattern s = Some (i, e)"
  shows "scan_at s i = Some e \<and> i \<le> e \<and> e \<le> length s \<and> iframe_shape (take (e - i) (drop i s)) \<and>
         (\<forall>p < i. scan_at s p = None)"
proof -
  note sc = scan_Some [OF assms [unfolded exec_iframe_scan]]
  then have "scan_at s i = Some e" by blast
  from scan_at_Some [OF this] sc show ?thesis by simp
qed

section \<open>Properties of the paste pattern\<close>

text \<open>
  C12: The scanner is the pattern: at every start position the backtracking semantics of
  the pattern and \<open>scan_at\<close> give the same end, and \<open>exec\<close> (the leftmost match)
  is \<open>scan\<close>.
\<close>

theorem iframe_pattern_scanner:
  "exec iframe_pattern s = scan s \<and> mt iframe_pattern s p Some = scan_at s p"
  by (simp only: exec_iframe_scan mt_iframe_scan)

text \<open>
  C13: Every match of the paste pattern is an iframe tag: \<open><iframe\<close> in lower case (the
  pattern has no \<open>i\<close> flag, so upper-case markup never matches), attributes with no
  \<open>>\<close>, then \<open>/>\<close> or \<open>>\<close>, content on one line (a paired tag spread over
  several lines never matches) and the first following \<open></iframe>\<close> (so a nested
  iframe ends the match at its own closing tag); and no earlier position matches.
\<close>

theorem exec_iframe_match_shape:
  assumes "exec iframe_pattern s = Some (i, e)"
  shows "i \<le> e \<and> e \<le> length s \<and> iframe_shape (take (e - i) (drop i s)) \<and>
         (\<forall>p < i. mt iframe_pattern s p Some = None)"
  using exec_shape [OF assms] by (simp add: mt_iframe_scan)

theorem exec_iframe_match_shape_witness:
  "exec iframe_pattern ''x<iframe src=a></iframe>'' = Some (1, 24) \<and>
   iframe_shape ''<iframe src=a></iframe>''"
proof -
  have e: "exec iframe_pattern ''x<iframe src=a></iframe>'' = Some (1, 24)" by code_simp
  show ?thesis using exec_iframe_match_shape [OF e] e by simp
qed

end
