(* ===== verification/Host.thy ===== *)
theory Host
  imports Tool_Invariants Paste_Pattern
begin

text \<open>
  The Editor.js host around one block (src/src/index.js is driven by it; the host is not
  part of the repository and is modelled from the specification and the tool
  interface): a step relation over the page whose steps are the host's calls of the
  tool's methods, in any order and any number of times: render the block, attach a
  detached tree (the block's wrapper, a settings panel) to the document, save, paste an
  iframe element (Editor.js hands a tag paste the element object) or a text the paste
  pattern matches as a whole, open the settings, click a registered button that is in
  the document. The reachable pages start from the constructor on any saved data.
  Against it: the invariants of the DOM and of the block data, and a refinement of the
  block data of the specification (frame and an optional tune) by the tool's data
  object.
\<close>

section \<open>The block data of the specification\<close>

datatype tune = LeftAligned | Centered | RightAligned

fun tune_name :: "tune \<Rightarrow> string" where
  "tune_name LeftAligned = ''LeftAligned''"
| "tune_name Centered = ''Centered''"
| "tune_name RightAligned = ''RightAligned''"

datatype block = Block (b_frame: string) (b_alignment: "tune option")

definition tune_of :: "jsval option \<Rightarrow> tune option" where
  "tune_of v = (if v = Some (JStr ''LeftAligned'') then Some LeftAligned
                else if v = Some (JStr ''Centered'') then Some Centered
                else if v = Some (JStr ''RightAligned'') then Some RightAligned else None)"

definition abs_block :: "js_obj \<Rightarrow> block" where
  "abs_block d = Block (to_dom_string (d ''frame'')) (tune_of (d ''alignment''))"

fun a_toggle :: "tune \<Rightarrow> block \<Rightarrow> block" where
  "a_toggle t (Block f a) = Block f (Some t)"

fun a_set_frame :: "string \<Rightarrow> block \<Rightarrow> block" where
  "a_set_frame f (Block g a) = Block f a"

inductive a_step :: "block \<Rightarrow> block \<Rightarrow> bool" where
  a_keep: "a_step b b"
| a_tune: "a_step b (a_toggle t b)"
| a_frame: "a_step b (a_set_frame f b)"

definition alignment_ok :: "jsval option \<Rightarrow> bool" where
  "alignment_ok v \<longleftrightarrow> v = Some (JBool False) \<or> (\<exists>t. v = Some (JStr (tune_name t)))"

section \<open>The host\<close>

datatype host_event =
    HRender | HAttach nat | HSave nat | HPasteTag | HPastePattern string | HRenderSettings | HClick nat

definition attach_root :: "nat \<Rightarrow> 'z dom_scheme \<Rightarrow> 'z dom_scheme option" where
  "attach_root x s = (case find (\<lambda>n. elem_id n = Some x) (fragments s) of
      None \<Rightarrow> None
    | Some n \<Rightarrow> Some (s\<lparr>document := document s @ [n], fragments := remove_list x (fragments s)\<rparr>))"

inductive host_step :: "page \<Rightarrow> host_event \<Rightarrow> page \<Rightarrow> bool" where
  h_render: "host_step s HRender (js_state (render s))"
| h_attach: "attach_root x s = Some s' \<Longrightarrow> host_step s (HAttach x) s'"
| h_save: "host_step s (HSave w) (js_state (save w s))"
| h_paste_tag: "host_step s HPasteTag (js_state (on_paste (PasteEvent ''tag'' (JObj ''HTMLIFrameElement'')) s))"
| h_paste_pattern: "exec iframe_pattern txt = Some (0, length txt) \<Longrightarrow>
     host_step s (HPastePattern txt) (js_state (on_paste (PasteEvent ''pattern'' (JStr txt)) s))"
| h_settings: "host_step s HRenderSettings (js_state (render_settings s))"
| h_click: "(el, t) \<in> set (click_listeners (tool s)) \<Longrightarrow> el \<in> set (ids_list (document s)) \<Longrightarrow>
     host_step s (HClick el) (js_state (toggle_tune t s))"

definition blank_page :: "(string \<Rightarrow> markup list) \<Rightarrow> (markup list \<Rightarrow> string) \<Rightarrow> page" where
  "blank_page ps sr =
     \<lparr>document = [], fragments = [], next_id = 0, html_parse = ps, html_serialize = sr,
      tool = \<lparr>api = \<lparr>current_block_index = 0, styles = \<lparr>api_block = [], api_loader = [], api_input = [],
                api_settingsButton = [], api_settingsButtonActive = []\<rparr>\<rparr>,
              readOnly = False, blockIndex = 0, CSS = css_of \<lparr>api_block = [], api_loader = [], api_input = [],
                api_settingsButton = [], api_settingsButtonActive = []\<rparr>,
              nodes = empty_nodes, data = Map.empty, settings = [], click_listeners = []\<rparr>\<rparr>"

inductive reachable :: "host_event set \<Rightarrow> js_obj \<Rightarrow> page \<Rightarrow> bool" for E d where
  r_init: "reachable E d (js_state (construct d a ro (blank_page ps sr)))"
| r_step: "reachable E d s \<Longrightarrow> ev \<in> E \<Longrightarrow> host_step s ev s' \<Longrightarrow> reachable E d s'"

definition tool_ok :: "iframe_tool \<Rightarrow> bool" where
  "tool_ok t \<longleftrightarrow> alignment_ok (data t ''alignment'') \<and> settings t = default_settings \<and>
     (\<forall>(el, n) \<in> set (click_listeners t). n \<in> set tune_names)"

inductive_cases host_stepE: "host_step s ev s'"

section \<open>Invariants\<close>

lemma find_root_find_list:
  "distinct (ids_list ns) \<Longrightarrow> find (\<lambda>n. elem_id n = Some x) ns = Some n \<Longrightarrow> find_list x ns = Some n"
proof (induction ns)
  case (Cons m ms)
  show ?case
  proof (cases "elem_id m = Some x")
    case True
    with Cons.prems have "n = m" by simp
    with True show ?thesis by (cases m) auto
  next
    case False
    with Cons.prems have f: "find (\<lambda>n. elem_id n = Some x) ms = Some n" by simp
    then have "n \<in> set ms" "elem_id n = Some x" by (auto simp: find_Some_iff)
    then have "x \<in> set (ids_list ms)" by (metis elem_id_ids_list image_eqI set_map)
    with Cons.prems(1) have "x \<notin> set (ids m)" by auto
    then have "find_node x m = None" by (simp add: find_None_iff)
    with Cons f show ?thesis by simp
  qed
qed simp

lemma attach_root_wf:
  assumes wf: "dom_wf s" and a: "attach_root x s = Some s'"
  shows "dom_wf s'"
proof -
  obtain n where f: "find (\<lambda>n. elem_id n = Some x) (fragments s) = Some n"
    and s': "s' = s\<lparr>document := document s @ [n], fragments := remove_list x (fragments s)\<rparr>"
    using a by (auto simp: attach_root_def split: option.splits)
  have d: "distinct (ids_list (fragments s))" using wf by (simp add: dom_wf_def all_roots_def)
  have "mset (ids_list (remove_list x (fragments s))) + mset (ids n) = mset (ids_list (fragments s))"
    by (rule remove_ids_mset(2) [OF d find_root_find_list [OF d f]])
  then have "mset (ids_list (all_roots s')) + {#} = mset (ids_list (all_roots s))"
    by (simp add: s' all_roots_def add.commute add.left_commute)
  from dom_wf_shrink [OF wf this] show ?thesis by (simp add: s')
qed


lemma host_step_wf: "host_step s ev s' \<Longrightarrow> dom_wf s \<Longrightarrow> dom_wf s'"
  by (induction rule: host_step.induct)
     (auto intro: js_keeps_state wf_keeps attach_root_wf)

lemma tool_ok_blind: "nodes_blind tool_ok" "frame_blind tool_ok" "listener_blind tool_ok"
  by (auto simp: nodes_blind_def frame_blind_def listener_blind_def tool_ok_def default_settings_def)

lemma alignment_ok_tune: "t \<in> set tune_names \<Longrightarrow> alignment_ok (Some (JStr t))"
  by (auto simp: alignment_ok_def intro: exI [of _ LeftAligned] exI [of _ Centered] exI [of _ RightAligned])

lemma attach_root_tool: "attach_root x s = Some s' \<Longrightarrow> tool s' = tool s"
  by (auto simp: attach_root_def split: option.splits)

lemma host_step_tool_ok: "host_step s ev s' \<Longrightarrow> tool_ok (tool s) \<Longrightarrow> tool_ok (tool s')"
proof (induction rule: host_step.induct)
  case (h_click el t s)
  then have "t \<in> set tune_names" by (auto simp: tool_ok_def)
  with h_click.prems show ?case
    by (simp add: toggle_tune_tool tool_ok_def alignment_ok_tune)
qed (simp_all add: attach_root_tool js_keeps_state [OF render_pred [OF tool_ok_blind(1)]]
       js_keeps_state [OF save_pred [OF tool_ok_blind(2)]] js_keeps_state [OF on_paste_pred [OF tool_ok_blind(2)]]
       js_keeps_state [OF render_settings_pred [OF tool_ok_blind(3)]])

lemma init_page:
  "js_state (construct d a ro (blank_page ps sr)) =
     (blank_page ps sr)\<lparr>tool := \<lparr>api = a, readOnly = ro, blockIndex = current_block_index a + 1,
        CSS = css_of (styles a), nodes = empty_nodes,
        data = [''frame'' \<mapsto> initial_frame d, ''alignment'' \<mapsto> initial_alignment d],
        settings = default_settings, click_listeners = []\<rparr>\<rparr>"
  by (simp add: construct_result)

lemma blank_wf: "dom_wf (blank_page ps sr)"
  by (simp add: dom_wf_def all_roots_def blank_page_def)

theorem reachable_invariant:
  assumes "reachable E d s" and "alignment_ok (Some (initial_alignment d))"
  shows "dom_wf s \<and> tool_ok (tool s)"
  using assms
proof (induction rule: reachable.induct)
  case (r_init a ro ps sr)
  then show ?case by (simp add: blank_wf init_page tool_ok_def)
next
  case (r_step s ev s')
  then show ?case using host_step_wf host_step_tool_ok by blast
qed


section \<open>Refinement\<close>

lemma tune_of_name [simp]: "tune_of (Some (JStr (tune_name t))) = Some t"
  by (cases t) (simp_all add: tune_of_def)

lemma tune_names_tune: "n \<in> set tune_names \<Longrightarrow> \<exists>t. n = tune_name t"
  by (auto intro: exI [of _ LeftAligned] exI [of _ Centered] exI [of _ RightAligned])

lemma tune_name_not_keys [simp]: "tune_name t \<noteq> ''frame''" "tune_name t \<noteq> ''alignment''"
  "''frame'' \<noteq> tune_name t" "''alignment'' \<noteq> tune_name t"
  by (cases t; simp)+

lemma data_blind: "nodes_blind (\<lambda>t. data t = D)" "listener_blind (\<lambda>t. data t = D)"
  "frame_blind (\<lambda>t. data t ''alignment'' = A)"
  by (auto simp: nodes_blind_def listener_blind_def frame_blind_def)

lemma a_step_frame: "a_step (Block f a) (Block f' a)"
  using a_frame [of "Block f a" f'] by simp

lemma a_step_tune: "a_step (Block f a) (Block f (Some t))"
  using a_tune [of "Block f a" t] by simp

lemma abs_same_alignment:
  "d' ''alignment'' = d ''alignment'' \<Longrightarrow> a_step (abs_block d) (abs_block d')"
  using a_frame [of "abs_block d" "to_dom_string (d' ''frame'')"] by (simp add: abs_block_def)

lemma host_step_abs:
  assumes "host_step s ev s'" and ok: "tool_ok (tool s)"
  shows "a_step (abs_block (tool_data s)) (abs_block (tool_data s'))"
  using assms
proof (induction rule: host_step.induct)
  case (h_render s)
  have "tool_data (js_state (render s)) = tool_data s"
    using js_keeps_state [OF render_pred [OF data_blind(1)], of s] by simp
  then show ?case by (simp add: a_keep)
next
  case (h_attach x s s')
  then show ?case by (simp add: attach_root_tool a_keep)
next
  case (h_save s w)
  have "tool_data (js_state (save w s)) ''alignment'' = tool_data s ''alignment''"
    using js_keeps_state [OF save_pred [OF data_blind(3)], of s] by simp
  then show ?case by (rule abs_same_alignment)
next
  case (h_paste_tag s)
  show ?case by (simp add: on_paste_data abs_block_def a_step_frame)
next
  case (h_paste_pattern tx s)
  show ?case by (simp add: on_paste_data abs_block_def a_step_frame)
next
  case (h_settings s)
  have "tool_data (js_state (render_settings s)) = tool_data s"
    using js_keeps_state [OF render_settings_pred [OF data_blind(2)], of s] by simp
  then show ?case by (simp add: a_keep)
next
  case (h_click el t s)
  then have "t \<in> set tune_names" by (auto simp: tool_ok_def)
  then obtain u where "t = tune_name u" using tune_names_tune by blast
  then show ?case by (simp add: toggle_tune_tool abs_block_def a_step_tune)
qed


lemma save_frame_str:
  "js_keeps (\<lambda>s. \<exists>f. tool_data s ''frame'' = Some (JStr f)) (save w)"
  unfolding save_def
  by (intro js_keeps_then js_keeps_bind js_keeps_option_case;
      (rule keeps_tool_pred, rule keeps_tool)?)
     (auto intro!: upd_data_pred simp: object_assign_lookup)

lemma host_step_frame_str:
  assumes "host_step s ev s'" "ev \<noteq> HPasteTag" "tool_ok (tool s)" "\<exists>f. tool_data s ''frame'' = Some (JStr f)"
  shows "\<exists>f. tool_data s' ''frame'' = Some (JStr f)"
  using assms
proof (induction rule: host_step.induct)
  case (h_render s)
  then show ?case using js_keeps_state [OF render_pred [OF data_blind(1)], of s] by simp
next
  case (h_save s w)
  then show ?case using js_keeps_state [OF save_frame_str, of s] by simp
next
  case (h_settings s)
  then show ?case using js_keeps_state [OF render_settings_pred [OF data_blind(2)], of s] by simp
next
  case (h_click el t s)
  then have "t \<in> set tune_names" by (auto simp: tool_ok_def)
  then have "t \<noteq> ''frame''" by auto
  with h_click show ?case by (simp add: toggle_tune_tool)
qed (auto simp: attach_root_tool on_paste_data)

definition demo_init :: "js_obj \<Rightarrow> page" where
  "demo_init d = js_state (construct d demo_api False (blank_page demo_parse demo_serialize_list))"

lemma demo_init_reachable: "reachable E d (demo_init d)"
  unfolding demo_init_def by (rule r_init)

section \<open>Properties of the host model\<close>

text \<open>
  C14: the data invariant of the specification: when the saved alignment was false or a
  tune name, the alignment is false or one of the three tune names in every reachable
  state.
\<close>

theorem reachable_alignment:
  assumes "reachable E d s" and "alignment_ok (Some (initial_alignment d))"
  shows "tool_data s ''alignment'' = Some (JBool False) \<or>
         (\<exists>t. tool_data s ''alignment'' = Some (JStr (tune_name t)))"
  using reachable_invariant [OF assms] by (simp add: tool_ok_def alignment_ok_def)

theorem reachable_alignment_witness:
  "tool_data (demo_init [''alignment'' \<mapsto> JStr ''Centered'']) ''alignment'' = Some (JBool False) \<or>
   (\<exists>t. tool_data (demo_init [''alignment'' \<mapsto> JStr ''Centered'']) ''alignment'' = Some (JStr (tune_name t)))"
  using reachable_alignment [OF demo_init_reachable [of UNIV "[''alignment'' \<mapsto> JStr ''Centered'']"]]
  by (simp add: initial_alignment_def alignment_ok_def exI [of _ Centered])

text \<open>
  C15: refinement of the block data of the specification. Every step of the host from a
  reachable state (saved alignment valid) is a step of the abstract block: it keeps the
  block, sets the alignment to a tune (a click), or replaces the frame keeping the
  alignment (a save or a paste).
\<close>

theorem host_refines_block:
  assumes "reachable E d s" and "alignment_ok (Some (initial_alignment d))" and "host_step s ev s'"
  shows "a_step (abs_block (tool_data s)) (abs_block (tool_data s'))"
  using host_step_abs [OF assms(3)] reachable_invariant [OF assms(1,2)] by blast

theorem host_refines_block_witness:
  "a_step (abs_block (tool_data (demo_init Map.empty)))
          (abs_block (tool_data (js_state (render (demo_init Map.empty)))))"
  using host_refines_block [OF demo_init_reachable [of UNIV Map.empty] _ h_render]
  by (simp add: initial_alignment_def alignment_ok_def)

text \<open>
  C16: \<open>_toggleTune\<close> refines the abstract tune selection: whatever the DOM does (the
  buttons missing, a throw), the abstract block after the click is the block with its
  alignment set to the tune; the flag it also writes is invisible in the block.
\<close>

theorem toggle_tune_refines:
  "abs_block (tool_data (js_state (toggle_tune (tune_name t) s))) = a_toggle t (abs_block (tool_data s))"
  by (simp add: toggle_tune_tool abs_block_def)

text \<open>
  C17: type invariant of the frame: when the saved frame is absent, undefined or a
  string, the frame is a string in every state the host reaches without a tag paste.
  The constructor turns an absent or undefined frame into the empty string (line 73),
  and every later write stores a string: save stores the serialization, a pattern
  paste the matched text.
\<close>

theorem reachable_frame_string:
  assumes "reachable E d s" and "HPasteTag \<notin> E"
    and "alignment_ok (Some (initial_alignment d))"
    and "d ''frame'' = None \<or> d ''frame'' = Some JUndef \<or> (\<exists>f. d ''frame'' = Some (JStr f))"
  shows "\<exists>f. tool_data s ''frame'' = Some (JStr f)"
  using assms(1,2,4)
proof (induction rule: reachable.induct)
  case (r_init a ro ps sr)
  then show ?case by (auto simp: init_page initial_frame_def)
next
  case (r_step s ev s')
  have "tool_ok (tool s)" using reachable_invariant [OF r_step.hyps(1) assms(3)] by blast
  with r_step show ?case using host_step_frame_str by blast
qed

theorem reachable_frame_string_witness:
  "\<exists>f. tool_data (demo_init Map.empty) ''frame'' = Some (JStr f)"
  using reachable_frame_string [OF demo_init_reachable [of "UNIV - {HPasteTag}" Map.empty]]
  by (simp add: initial_alignment_def alignment_ok_def)

end
