(* ===== verification/Read_Only.thy ===== *)
theory Read_Only
  imports Host
begin

text \<open>
  The read-only flag. The constructor stores \<open>readOnly\<close> (src/src/index.js line 30) and
  \<open>isReadOnlySupported\<close> answers true (lines 173--175), but no method reads the flag:
  every statement of the tool commutes with changing it (\<open>set_ro\<close>), and so does every
  host step. Hence a block constructed read-only reaches exactly the pages an editable one
  reaches, the flag apart: pastes and tune clicks change its data as they would otherwise.
\<close>

section \<open>Changing the flag\<close>

definition set_ro :: "bool \<Rightarrow> page \<Rightarrow> page" where
  "set_ro r s = s\<lparr>tool := (tool s)\<lparr>readOnly := r\<rparr>\<rparr>"

text \<open>A block constructed from empty data after it received a tag paste.\<close>

definition pasted_demo :: page where
  "pasted_demo = js_state (on_paste (PasteEvent ''tag'' (JObj ''HTMLIFrameElement'')) (demo_init Map.empty))"

section \<open>Every statement commutes with the flag\<close>

lemma set_ro_fields [simp]:
  "document (set_ro r s) = document s" "fragments (set_ro r s) = fragments s"
  "next_id (set_ro r s) = next_id s" "html_parse (set_ro r s) = html_parse s"
  "html_serialize (set_ro r s) = html_serialize s"
  "tool_css (set_ro r s) = tool_css s" "tool_data (set_ro r s) = tool_data s"
  "tool_nodes (set_ro r s) = tool_nodes s" "settings (tool (set_ro r s)) = settings (tool s)"
  "click_listeners (tool (set_ro r s)) = click_listeners (tool s)"
  "all_roots (set_ro r s) = all_roots s" "lookup_elem x (set_ro r s) = lookup_elem x s"
  "parent_element x (set_ro r s) = parent_element x s"
  by (simp_all add: set_ro_def all_roots_def lookup_elem_def parent_element_def)

lemma on_roots_set_ro [simp]: "on_roots f (set_ro r s) = set_ro r (on_roots f s)"
  by (simp add: set_ro_def on_roots_def)

lemma dom_ops_ro [commutes]:
  "js_commutes (set_ro r) (create_element tg)"
  "js_commutes (set_ro r) (class_list_add x cs)"
  "js_commutes (set_ro r) (class_list_remove x cs)"
  "js_commutes (set_ro r) (set_attribute x k v)"
  "js_commutes (set_ro r) (append_child p c)"
  "js_commutes (set_ro r) (remove_elem x)"
  "js_commutes (set_ro r) (set_inner_html x v)"
  "js_commutes (set_ro r) (get_inner_html x)"
  "js_commutes (set_ro r) (query_selector x tg)"
  "js_commutes (set_ro r) (get_element_by_id v)"
  by (auto simp: js_commutes_def create_element_def class_list_add_def class_list_remove_def
      set_attribute_def append_child_def remove_elem_def set_inner_html_def get_inner_html_def
      query_selector_def get_element_by_id_def set_ro_def Let_def on_roots_def all_roots_def
      lookup_elem_def parent_element_def split: option.splits prod.splits)

lemma get_tool_ro [commutes]:
  "(\<And>s. f (set_ro r s) = f s) \<Longrightarrow> js_commutes (set_ro r) (get_tool f)"
  unfolding get_tool_def by (rule js_commutes_gets)

lemma upd_tool_ro [commutes]:
  "(\<And>t. h (t\<lparr>readOnly := r\<rparr>) = (h t)\<lparr>readOnly := r\<rparr>) \<Longrightarrow> js_commutes (set_ro r) (upd_tool h)"
  unfolding upd_tool_def by (rule js_commutes_modify) (simp add: set_ro_def)

lemma tool_ops_ro [commutes]:
  "js_commutes (set_ro r) (upd_data f)"
  "js_commutes (set_ro r) (cache_nodes h w i)"
  "js_commutes (set_ro r) (add_click_listener el t)"
  unfolding upd_data_def cache_nodes_def add_click_listener_def by (rule upd_tool_ro, simp)+

lemma parent_inner_html_ro [commutes]:
  "js_commutes (set_ro r) (set_parent_inner_html x v)"
  "js_commutes (set_ro r) (get_parent_inner_html x)"
  by (auto simp: js_commutes_def set_parent_inner_html_def get_parent_inner_html_def
      js_commutesD [OF dom_ops_ro(7)] js_commutesD [OF dom_ops_ro(8)] split: option.splits)

lemma make_ro [commutes]: "js_commutes (set_ro r) (make tg cls props)"
  unfolding make_def by (cases cls) (auto intro!: commutes split: prod.splits)

lemma justify_step_ro [commutes]: "js_commutes (set_ro r) (justify_step n c)"
  by (auto simp: js_commutes_def justify_step_def js_commutesD [OF dom_ops_ro(2)]
      js_commutesD [OF dom_ops_ro(3)] split: option.splits)

lemma mark_button_ro [commutes]: "js_commutes (set_ro r) (mark_button t tn)"
  by (auto simp: js_commutes_def mark_button_def get_element_by_id_def js_commutesD [OF dom_ops_ro(2)]
      js_commutesD [OF dom_ops_ro(3)] split: option.splits)

lemma methods_ro [commutes]:
  "js_commutes (set_ro r) accept_tune_view"
  "js_commutes (set_ro r) (toggle_tune t)"
  "js_commutes (set_ro r) (settings_button w tune)"
  "js_commutes (set_ro r) render_settings"
  "js_commutes (set_ro r) (set_data d)"
  "js_commutes (set_ro r) render"
  "js_commutes (set_ro r) (save w)"
  "js_commutes (set_ro r) (on_paste ev)"
  unfolding accept_tune_view_def toggle_tune_def settings_button_def render_settings_def set_data_def
    render_def save_def on_paste_def
  by (auto intro!: commutes split: paste_event.splits)

lemma construct_ro: "construct d a r s = js_res_map (set_ro r) (construct d a ro s)"
proof -
  let ?T = "\<lambda>ro. \<lparr>api = a, readOnly = ro, blockIndex = current_block_index a + 1,
         CSS = css_of (styles a), nodes = empty_nodes, data = Map.empty,
         settings = [], click_listeners = []\<rparr>"
  let ?rest = "js_then (set_data [''frame'' \<mapsto> initial_frame d, ''alignment'' \<mapsto> initial_alignment d])
       (upd_tool (\<lambda>t. t\<lparr>settings := default_settings\<rparr>))"
  have c: "js_commutes (set_ro r) ?rest" by (intro commutes) simp
  have u: "construct d a ro' s = ?rest (s\<lparr>tool := ?T ro'\<rparr>)" for ro'
    by (simp add: construct_def js_then_def js_bind_def js_modify_def)
  have "s\<lparr>tool := ?T r\<rparr> = set_ro r (s\<lparr>tool := ?T ro\<rparr>)" by (simp add: set_ro_def)
  then show ?thesis unfolding u by (simp only: js_commutesD [OF c])
qed

lemma attach_root_ro: "attach_root x (set_ro r s) = map_option (set_ro r) (attach_root x s)"
  by (simp add: attach_root_def split: option.splits) (simp add: set_ro_def)

lemma host_step_ro: "host_step s ev s' \<Longrightarrow> host_step (set_ro r s) ev (set_ro r s')"
proof (induction rule: host_step.induct)
  case (h_render s)
  show ?case using host_step.h_render [of "set_ro r s"] by (simp add: js_commutes_state [OF methods_ro(6)])
next
  case (h_attach x s s')
  then show ?case using host_step.h_attach [of x "set_ro r s"] by (simp add: attach_root_ro)
next
  case (h_save s w)
  show ?case using host_step.h_save [of "set_ro r s" w] by (simp add: js_commutes_state [OF methods_ro(7)])
next
  case (h_paste_tag s)
  show ?case using host_step.h_paste_tag [of "set_ro r s"] by (simp add: js_commutes_state [OF methods_ro(8)])
next
  case (h_paste_pattern tx s)
  then show ?case using host_step.h_paste_pattern [of tx "set_ro r s"]
    by (simp add: js_commutes_state [OF methods_ro(8)])
next
  case (h_settings s)
  show ?case using host_step.h_settings [of "set_ro r s"] by (simp add: js_commutes_state [OF methods_ro(4)])
next
  case (h_click el t s)
  then show ?case using host_step.h_click [of el t "set_ro r s"]
    by (simp add: js_commutes_state [OF methods_ro(2)])
qed

lemma reachable_set_ro:
  "reachable E d s \<Longrightarrow> reachable E d (set_ro r s)"
proof (induction rule: reachable.induct)
  case (r_init a ro ps sr)
  show ?case using reachable.r_init [of E d a r ps sr] by (simp add: construct_ro [of d a r _ ro])
next
  case (r_step s ev s')
  then show ?case by (blast intro: reachable.r_step host_step_ro)
qed

lemma set_ro_set_ro [simp]: "set_ro r (set_ro r' s) = set_ro r s"
  by (simp add: set_ro_def)

lemma set_ro_same [simp]: "set_ro (readOnly (tool s)) s = s"
  by (simp add: set_ro_def)

section \<open>Non-interference of the flag\<close>

text \<open>
  C22: the read-only flag does not interfere with anything the host can do: a page with
  the flag changed is reachable exactly when the page is. So in particular a block
  constructed with \<open>readOnly\<close> true still accepts every paste and every tune click, with
  the same effect on its data and its DOM as an editable block. Read-only protection
  rests on the host not dispatching those events.
\<close>

theorem read_only_noninterference:
  "reachable E d (set_ro r s) \<longleftrightarrow> reachable E d s"
  using reachable_set_ro [of E d s r] reachable_set_ro [of E d "set_ro r s" "readOnly (tool s)"]
  by auto

theorem read_only_noninterference_witness:
  "reachable {HPasteTag} Map.empty pasted_demo \<and>
   readOnly (tool (set_ro True pasted_demo)) \<and>
   tool_data (set_ro True pasted_demo) ''frame'' = Some (JObj ''HTMLIFrameElement'') \<and>
   reachable {HPasteTag} Map.empty (set_ro True pasted_demo)"
proof -
  have r: "reachable {HPasteTag} Map.empty pasted_demo"
    unfolding pasted_demo_def
    by (rule reachable.r_step [OF demo_init_reachable _ host_step.h_paste_tag]) simp
  have "tool_data pasted_demo ''frame'' = Some (JObj ''HTMLIFrameElement'')"
    by (simp add: pasted_demo_def on_paste_data)
  then show ?thesis using r read_only_noninterference [of "{HPasteTag}" Map.empty True pasted_demo] by (simp add: set_ro_def)
qed

end
