(* ===== verification/Settings_Panel.thy ===== *)
theory Settings_Panel
  imports Tool_Invariants
begin

text \<open>
  \<open>renderSettings()\<close> (src/src/index.js lines 245--265) as a function of the page: a
  reference builder \<open>panel_build\<close> that lays out the tune buttons and their click
  listeners in one pass, and the proof that the statement-by-statement model
  \<open>render_settings\<close> of \<open>Iframe_Tool\<close> computes exactly that panel. Then what a click
  (\<open>_toggleTune\<close>, lines 297--308) does to the buttons when the document holds another
  element with a tune's id: \<open>button_kept\<close> is kept by every statement of the click.
\<close>

section \<open>The panel, built directly\<close>

text \<open>
  The classes of one button: \<open>settingsButton\<close>, then \<open>settingsButtonActive\<close> when the stored
  alignment is loosely equal to the tune's name (lines 251 and 257--259).
\<close>

definition button_classes :: "css \<Rightarrow> bool \<Rightarrow> string list" where
  "button_classes c active =
     (if active then tok_add [settingsButton c] [settingsButtonActive c] else [settingsButton c])"

text \<open>
  One button per tune in order: a fresh \<open>div\<close> with the tune's name as \<open>id\<close>, the parsed
  icon as children, one click listener, the identities allocated in document order.
\<close>

fun panel_build :: "css \<Rightarrow> jsval option \<Rightarrow> (string \<Rightarrow> markup list) \<Rightarrow> nat \<Rightarrow> setting list \<Rightarrow>
                     node list \<times> (nat \<times> string) list \<times> nat" where
  "panel_build c a ps n [] = ([], [], n)"
| "panel_build c a ps n (t # ts) =
     (case allocs (Suc n) (ps (icon t)) of (ns, n') \<Rightarrow>
        (case panel_build c a ps n' ts of (bs, ls, n'') \<Rightarrow>
           (Elem n ''div'' (button_classes c (loose_eq_name a (name t))) [(''id'', name t)] ns # bs,
            (n, name t) # ls, n'')))"

text \<open>The constructor's page on saved data whose alignment is \<open>Centered\<close>.\<close>

definition demo_centered :: page where
  "demo_centered = demo_page [''alignment'' \<mapsto> JStr ''Centered'']"

text \<open>
  What \<open>_toggleTune\<close> must not disturb: the classes of element \<open>b\<close> stay \<open>C\<close>, \<open>b\<close> is
  not the first element of the document carrying the id of a tune, and it is not the
  holder.
\<close>

definition button_kept :: "nat \<Rightarrow> string list option \<Rightarrow> setting list \<Rightarrow> page \<Rightarrow> bool" where
  "button_kept b C sts s \<longleftrightarrow>
     map_option classes_of (lookup_elem b s) = C \<and>
     (\<forall>tn \<in> set sts. first_id_list (name tn) (document s) \<noteq> Some b) \<and>
     node_holder (tool_nodes s) \<noteq> Some b \<and> settings (tool s) = sts"

text \<open>
  What a statement can observe of element \<open>b\<close> and of the lookups by id: the classes of
  \<open>b\<close>, the first element of the document with each id, and the tool.
\<close>

definition button_view :: "nat \<Rightarrow> page \<Rightarrow> string list option \<times> (string \<Rightarrow> nat option) \<times> iframe_tool" where
  "button_view b s = (map_option classes_of (lookup_elem b s), (\<lambda>v. first_id_list v (document s)), tool s)"

text \<open>
  The class change \<open>_toggleTune\<close> makes to the button it finds for a tune (lines 300--305):
  add the active class for the clicked tune, remove it for the others.
\<close>

definition mark_classes :: "string \<Rightarrow> string \<Rightarrow> string \<Rightarrow> string list \<Rightarrow> string list" where
  "mark_classes act t n cls = (if n = t then tok_add cls [act] else tok_remove cls [act])"

text \<open>
  Two blocks of the tool on one page: the tune panel of the first block, then the panel
  of the second (both as \<open>renderSettings()\<close> builds them, C19), then the rendered holder of
  the second block; both stored alignments are \<open>LeftAligned\<close>.
\<close>

definition two_panels :: page where
  "two_panels =
     (let p = demo_page [''alignment'' \<mapsto> JStr ''LeftAligned''];
          c = css_of demo_styles; a = Some (JStr ''LeftAligned'')
      in p\<lparr>document := [Elem 0 ''div'' [] [] (fst (panel_build c a demo_parse 1 default_settings)),
                          Elem 4 ''div'' [] [] (fst (panel_build c a demo_parse 5 default_settings)),
                          Elem 8 ''div'' [''editorjs-iframe__frame'', ''flex''] [] []],
           next_id := 9, tool := (tool p)\<lparr>nodes := empty_nodes\<lparr>node_holder := Some 8\<rparr>\<rparr>\<rparr>)"

text \<open>
  One block with its tune panel attached before its rendered holder, alignment
  \<open>LeftAligned\<close>, and the identities of its buttons by tune name.
\<close>

definition one_panel :: page where
  "one_panel =
     (let p = demo_page [''alignment'' \<mapsto> JStr ''LeftAligned'']
      in p\<lparr>document := [Elem 0 ''div'' [] []
                            (fst (panel_build (css_of demo_styles) (Some (JStr ''LeftAligned'')) demo_parse 1 default_settings)),
                          Elem 4 ''div'' [''editorjs-iframe__frame'', ''flex''] [] []],
           next_id := 5, tool := (tool p)\<lparr>nodes := empty_nodes\<lparr>node_holder := Some 4\<rparr>\<rparr>\<rparr>)"

definition one_panel_btn :: "string \<Rightarrow> nat" where
  "one_panel_btn v = (if v = ''LeftAligned'' then 1 else if v = ''Centered'' then 2 else 3)"

section \<open>Lemmas\<close>

lemma settings_button_fresh:
  assumes wf: "dom_wf s" and w: "lookup_elem w s = Some W"
    and sb: "token_check [settingsButton (tool_css s)] = None"
    and sa: "token_check [settingsButtonActive (tool_css s)] = None"
    and al: "allocs (Suc (next_id s)) (html_parse s (icon tune)) = (ns, n')"
  shows "settings_button w tune s =
    Inr ((), on_roots (modify_list w (map_children (\<lambda>cs. cs @
              [Elem (next_id s) ''div''
                 (button_classes (tool_css s) (loose_eq_name (tool_data s ''alignment'') (name tune)))
                 [(''id'', name tune)] ns])))
             (s\<lparr>next_id := n', tool := (tool s)\<lparr>click_listeners := click_listeners (tool s) @ [(next_id s, name tune)]\<rparr>\<rparr>))"
proof -
  note fresh = wf_fresh [OF wf]
  have ns_ids: "k \<notin> set (ids_list ns)" if "k < Suc (next_id s)" for k
    using alloc_ids(2) [OF al] that by auto
  have wlt: "w < next_id s" using w wf find_ids(2) [of w "all_roots s" W]
    by (cases W) (auto simp: dom_wf_def lookup_elem_def)
  show ?thesis
    using sb sa al wlt
    by (simp add: settings_button_def js_simps create_element_def set_attribute_def class_list_add_def
      set_inner_html_def add_click_listener_def append_child_def lookup_elem_def all_roots_def on_roots_def
      tree_simps absent_id_simps fresh ns_ids button_classes_def Let_def
      del: token_check.simps)
qed

lemma for_each_buttons:
  assumes "dom_wf s" and "lookup_elem w s = Some W"
    and "token_check [settingsButton (tool_css s)] = None"
    and "token_check [settingsButtonActive (tool_css s)] = None"
  shows "js_for_each sts (settings_button w) s =
    (case panel_build (tool_css s) (tool_data s ''alignment'') (html_parse s) (next_id s) sts of (bs, ls, n'') \<Rightarrow>
      Inr ((), on_roots (modify_list w (map_children (\<lambda>cs. cs @ bs)))
                (s\<lparr>next_id := n'', tool := (tool s)\<lparr>click_listeners := click_listeners (tool s) @ ls\<rparr>\<rparr>)))"
  using assms
proof (induction sts arbitrary: s W)
  case Nil
  have "modify_list w (map_children (\<lambda>cs. cs @ [])) ns = ns" for ns
    by (rule modify_identity(2)) (rule map_children_append_Nil)
  then show ?case by (simp add: js_simps on_roots_def)
next
  case (Cons t ts s W)
  obtain ns n' where al: "allocs (Suc (next_id s)) (html_parse s (icon t)) = (ns, n')"
    by (cases "allocs (Suc (next_id s)) (html_parse s (icon t))")
  define B where "B = Elem (next_id s) ''div''
                 (button_classes (tool_css s) (loose_eq_name (tool_data s ''alignment'') (name t)))
                 [(''id'', name t)] ns"
  define s1 where "s1 = on_roots (modify_list w (map_children (\<lambda>cs. cs @ [B])))
             (s\<lparr>next_id := n', tool := (tool s)\<lparr>click_listeners := click_listeners (tool s) @ [(next_id s, name t)]\<rparr>\<rparr>)"
  have step: "settings_button w t s = Inr ((), s1)"
    unfolding s1_def B_def by (rule settings_button_fresh [OF Cons.prems al])
  have wf1: "dom_wf s1" by (rule js_keepsD(2) [OF settings_button_wf Cons.prems(1) step])
  have r1: "all_roots s1 = modify_list w (map_children (\<lambda>cs. cs @ [B])) (all_roots s)"
    by (simp add: s1_def all_roots_def on_roots_def)
  have w1: "lookup_elem w s1 = Some (map_children (\<lambda>cs. cs @ [B]) W)"
    using Cons.prems(2) unfolding lookup_elem_def r1 by (rule find_modify_children(2))
  have f1: "tool_css s1 = tool_css s" "tool_data s1 = tool_data s" "html_parse s1 = html_parse s"
    "next_id s1 = n'" "click_listeners (tool s1) = click_listeners (tool s) @ [(next_id s, name t)]"
    by (simp_all add: s1_def)
  obtain bs ls n'' where pb: "panel_build (tool_css s) (tool_data s ''alignment'') (html_parse s) n' ts = (bs, ls, n'')"
    by (cases "panel_build (tool_css s) (tool_data s ''alignment'') (html_parse s) n' ts")
  have ih: "js_for_each ts (settings_button w) s1 =
      Inr ((), on_roots (modify_list w (map_children (\<lambda>cs. cs @ bs)))
                (s1\<lparr>next_id := n'', tool := (tool s1)\<lparr>click_listeners := click_listeners (tool s1) @ ls\<rparr>\<rparr>))"
    using Cons.IH [OF wf1 w1] Cons.prems(3,4) f1 pb by simp
  show ?case
    using step ih al pb
    by (simp add: js_simps B_def s1_def on_roots_def modify_map_children_compose comp_def)
qed

lemma demo_parse_icons:
  "demo_parse left_icon = [MText left_icon]"
  "demo_parse centered_icon = [MText centered_icon]"
  "demo_parse right_icon = [MText right_icon]"
  by (simp_all add: demo_parse_def left_icon_def centered_icon_def right_icon_def)

section \<open>Equivalence with the reference builder\<close>

text \<open>
  C19: on a well-formed page whose settings-button classes are valid tokens,
  \<open>renderSettings()\<close> returns a fresh detached \<open>div\<close> holding exactly the buttons of
  \<open>panel_build\<close>, one per tune in order, with the active class on the tune equal to the
  stored alignment, and registers exactly one click listener per tune; nothing else of
  the page changes.
\<close>

lemma render_settings_panel:
  assumes wf: "dom_wf s"
    and tk: "token_check [settingsButton (tool_css s)] = None"
            "token_check [settingsButtonActive (tool_css s)] = None"
  shows "render_settings s =
    (case panel_build (tool_css s) (tool_data s ''alignment'') (html_parse s) (Suc (next_id s)) (settings (tool s)) of
       (bs, ls, n) \<Rightarrow>
         Inr (next_id s, s\<lparr>fragments := fragments s @ [Elem (next_id s) ''div'' [] [] bs], next_id := n,
                           tool := (tool s)\<lparr>click_listeners := click_listeners (tool s) @ ls\<rparr>\<rparr>))"
proof -
  define s0 where "s0 = s\<lparr>fragments := fragments s @ [Elem (next_id s) ''div'' [] [] []], next_id := Suc (next_id s)\<rparr>"
  have c: "create_element ''div'' s = Inr (next_id s, s0)" by (simp add: create_element_def s0_def)
  have wf0: "dom_wf s0" by (rule js_keepsD(2) [OF create_element_wf wf c])
  have fresh: "next_id s \<notin> set (ids_list (all_roots s))" using wf by (auto simp: dom_wf_def)
  have l0: "lookup_elem (next_id s) s0 = Some (Elem (next_id s) ''div'' [] [] [])"
    using fresh by (simp add: lookup_elem_def s0_def all_roots_def absent_id_simps find_list_append)
  obtain bs ls n where pb: "panel_build (tool_css s) (tool_data s ''alignment'') (html_parse s) (Suc (next_id s)) (settings (tool s)) = (bs, ls, n)"
    by (cases "panel_build (tool_css s) (tool_data s ''alignment'') (html_parse s) (Suc (next_id s)) (settings (tool s))")
  have fe: "js_for_each (settings (tool s)) (settings_button (next_id s)) s0 =
      Inr ((), on_roots (modify_list (next_id s) (map_children (\<lambda>cs. cs @ bs)))
                (s0\<lparr>next_id := n, tool := (tool s)\<lparr>click_listeners := click_listeners (tool s) @ ls\<rparr>\<rparr>))"
    using for_each_buttons [OF wf0 l0, of "settings (tool s)"] tk pb by (simp add: s0_def)
  show ?thesis
    using c fe pb fresh
    by (simp add: render_settings_def get_tool_def js_simps s0_def on_roots_def all_roots_def absent_id_simps)
qed

lemma render_settings_panel_witness:
  "dom_wf demo_centered \<and>
   token_check [settingsButton (tool_css demo_centered)] = None \<and>
   token_check [settingsButtonActive (tool_css demo_centered)] = None \<and>
   render_settings demo_centered =
     Inr (0, demo_centered\<lparr>fragments := [Elem 0 ''div'' [] []
               [Elem 1 ''div'' [''cdx-settings-button''] [(''id'', ''LeftAligned'')] [Text left_icon],
                Elem 2 ''div'' [''cdx-settings-button'', ''cdx-settings-button--active''] [(''id'', ''Centered'')] [Text centered_icon],
                Elem 3 ''div'' [''cdx-settings-button''] [(''id'', ''RightAligned'')] [Text right_icon]]],
             next_id := 4,
             tool := (tool demo_centered)\<lparr>click_listeners := [(1, ''LeftAligned''), (2, ''Centered''), (3, ''RightAligned'')]\<rparr>\<rparr>)"
proof -
  have ok: "dom_wf demo_centered" "token_check [settingsButton (tool_css demo_centered)] = None"
    "token_check [settingsButtonActive (tool_css demo_centered)] = None"
    by (simp_all add: demo_centered_def demo_page_wf css_of_def demo_styles_def ascii_whitespace_def)
  have f: "settings (tool (demo_page d)) = default_settings" "fragments (demo_page d) = []"
    "click_listeners (tool (demo_page d)) = []" for d
    by (simp_all add: demo_page_def)
  show ?thesis
    using render_settings_panel [OF ok] ok
    by (simp add: f demo_centered_def default_settings_def demo_parse_icons css_of_def demo_styles_def
        button_classes_def initial_alignment_def)
qed

section \<open>A click and the buttons of another panel\<close>

lemma class_list_keeps_view:
  "x \<noteq> b \<Longrightarrow> js_keeps (\<lambda>s. Q (button_view b s)) (class_list_add x cs)"
  "x \<noteq> b \<Longrightarrow> js_keeps (\<lambda>s. Q (button_view b s)) (class_list_remove x cs)"
  by (auto intro!: js_keepsI simp: class_list_add_def class_list_remove_def button_view_def
      on_roots_classes_other first_id_modify_classes(2) split: option.splits)

lemma class_list_keeps_viewD:
  assumes "x \<noteq> b" and "Q (button_view b s)"
    and "(if c then class_list_add x cs s else class_list_remove x cs s) = r"
  shows "Q (button_view b (js_state r))"
proof (cases r)
  case (Inl es) with assms show ?thesis
    by (cases es) (auto simp: js_state_def split: if_splits
      dest: js_keepsD(1) [OF class_list_keeps_view(1)] js_keepsD(1) [OF class_list_keeps_view(2)])
next
  case (Inr xs) with assms show ?thesis
    by (cases xs) (auto simp: js_state_def split: if_splits
      dest: js_keepsD(2) [OF class_list_keeps_view(1)] js_keepsD(2) [OF class_list_keeps_view(2)])
qed

lemma mark_button_keeps_view:
  assumes "\<And>c f t. Q (c, f, t) \<Longrightarrow> f (name tn) \<noteq> Some b"
  shows "js_keeps (\<lambda>s. Q (button_view b s)) (mark_button t' tn)"
proof (rule js_keeps_stateI)
  fix s assume q: "Q (button_view b s)"
  show "Q (button_view b (js_state (mark_button t' tn s)))"
  proof (cases "first_id_list (name tn) (document s)")
    case None with q show ?thesis by (simp add: mark_button_def get_element_by_id_def)
  next
    case (Some el)
    with assms q have "el \<noteq> b" by (force simp: button_view_def)
    from class_list_keeps_viewD [where Q = Q and c = "name tn = t'" and cs = "[settingsButtonActive (tool_css s)]",
        OF this q refl] Some show ?thesis
      by (simp add: mark_button_def get_element_by_id_def)
  qed
qed

lemma justify_step_keeps_view:
  assumes "\<And>c f t. Q (c, f, t) \<Longrightarrow> node_holder (nodes t) \<noteq> Some b"
  shows "js_keeps (\<lambda>s. Q (button_view b s)) (justify_step n cl)"
proof (rule js_keeps_stateI)
  fix s assume q: "Q (button_view b s)"
  show "Q (button_view b (js_state (justify_step n cl s)))"
  proof (cases "node_holder (tool_nodes s)")
    case None with q show ?thesis by (simp add: justify_step_def)
  next
    case (Some h)
    with assms q have "h \<noteq> b" by (force simp: button_view_def)
    from class_list_keeps_viewD [where Q = Q and c = "loose_eq_name (tool_data s ''alignment'') n" and cs = "[cl]",
        OF this q refl] Some show ?thesis
      by (simp add: justify_step_def)
  qed
qed

lemma accept_tune_view_keeps_view:
  "(\<And>c f t. Q (c, f, t) \<Longrightarrow> node_holder (nodes t) \<noteq> Some b) \<Longrightarrow>
   js_keeps (\<lambda>s. Q (button_view b s)) accept_tune_view"
  unfolding accept_tune_view_def by (intro js_keeps_then justify_step_keeps_view)

lemma mark_button_keeps_button:
  assumes "tn \<in> set sts"
  shows "js_keeps (button_kept b C sts) (mark_button t tn)"
proof -
  let ?Q = "\<lambda>(c, f, tl). c = C \<and> (\<forall>tn \<in> set sts. f (name tn) \<noteq> Some b) \<and>
                        node_holder (nodes tl) \<noteq> Some b \<and> settings tl = sts"
  have "button_kept b C sts = (\<lambda>s. ?Q (button_view b s))"
    by (simp add: fun_eq_iff button_kept_def button_view_def)
  moreover have "js_keeps (\<lambda>s. ?Q (button_view b s)) (mark_button t tn)"
    by (rule mark_button_keeps_view [where Q = ?Q]) (use assms in auto)
  ultimately show ?thesis by simp
qed

lemma accept_tune_view_keeps_button: "js_keeps (button_kept b C sts) accept_tune_view"
proof -
  let ?Q = "\<lambda>(c, f, tl). c = C \<and> (\<forall>tn \<in> set sts. f (name tn) \<noteq> Some b) \<and>
                        node_holder (nodes tl) \<noteq> Some b \<and> settings tl = sts"
  have "button_kept b C sts = (\<lambda>s. ?Q (button_view b s))"
    by (simp add: fun_eq_iff button_kept_def button_view_def)
  moreover have "js_keeps (\<lambda>s. ?Q (button_view b s)) accept_tune_view"
    by (rule accept_tune_view_keeps_view [where Q = ?Q]) auto
  ultimately show ?thesis by simp
qed

lemma marks_keep_button:
  "js_keeps (\<lambda>s. button_kept b C sts s \<and> settings (tool s) = xs) (js_for_each xs (mark_button t))"
proof (cases "xs = sts")
  case True
  then have "(\<lambda>s. button_kept b C sts s \<and> settings (tool s) = xs) = button_kept b C sts"
    by (auto simp: button_kept_def)
  with True show ?thesis by (auto intro: mark_button_keeps_button)
next
  case False
  then have "(\<lambda>s. button_kept b C sts s \<and> settings (tool s) = xs) = (\<lambda>s. False)"
    by (auto simp: button_kept_def)
  then show ?thesis by (simp add: js_keeps_def)
qed

lemma toggle_tune_keeps_button: "js_keeps (button_kept b C sts) (toggle_tune t)"
proof -
  have u: "js_keeps (button_kept b C sts) (upd_data f)" for f
    by (auto simp: upd_data_def upd_tool_def button_kept_def lookup_elem_def)
  have m: "js_keeps (button_kept b C sts) (js_bind (get_tool (\<lambda>s. settings (tool s))) (\<lambda>xs. js_for_each xs (mark_button t)))"
    unfolding get_tool_def by (rule js_keeps_bind_gets, rule marks_keep_button)
  show ?thesis
    unfolding toggle_tune_def by (intro js_keeps_then u m accept_tune_view_keeps_button)
qed

text \<open>
  C20: \<open>_toggleTune\<close> reaches its buttons through \<open>document.getElementById\<close>, the first
  element of the whole document with the tune's id. An element that is not the first
  with any tune's id and is not the holder keeps its classes through a click, whatever
  the click does. So when an earlier element carries the id of a tune, in particular
  the panel of another block of the tool, a click on a tune of this block never marks
  this block's own button; the first element with that id is marked instead.
\<close>

theorem click_misses_shadowed_button:
  assumes "\<forall>tn \<in> set (settings (tool s)). first_id_list (name tn) (document s) \<noteq> Some b"
    and "node_holder (tool_nodes s) \<noteq> Some b"
  shows "map_option classes_of (lookup_elem b (js_state (toggle_tune t s))) =
         map_option classes_of (lookup_elem b s)"
proof -
  let ?C = "map_option classes_of (lookup_elem b s)"
  have k: "button_kept b ?C (settings (tool s)) s" using assms by (simp add: button_kept_def)
  show ?thesis
  proof (cases "toggle_tune t s")
    case (Inl es)
    obtain e s' where es: "es = (e, s')" by (cases es)
    from js_keepsD(1) [OF toggle_tune_keeps_button k] Inl es show ?thesis
      by (simp add: js_state_def button_kept_def)
  next
    case (Inr xs)
    obtain x s' where xs: "xs = (x, s')" by (cases xs)
    from js_keepsD(2) [OF toggle_tune_keeps_button k] Inr xs show ?thesis
      by (simp add: js_state_def button_kept_def)
  qed
qed

theorem click_misses_shadowed_button_witness:
  "settings (tool two_panels) = default_settings \<and>
   first_id_list ''LeftAligned'' (document two_panels) = Some 1 \<and>
   first_id_list ''Centered'' (document two_panels) = Some 2 \<and>
   first_id_list ''RightAligned'' (document two_panels) = Some 3 \<and>
   node_holder (tool_nodes two_panels) = Some 8 \<and>
   map_option classes_of (lookup_elem 6 (js_state (toggle_tune ''Centered'' two_panels))) =
     Some [''cdx-settings-button'']"
proof -
  have f: "settings (tool (demo_page d)) = default_settings" for d by (simp add: demo_page_def)
  have h: "settings (tool two_panels) = default_settings \<and>
           first_id_list ''LeftAligned'' (document two_panels) = Some 1 \<and>
           first_id_list ''Centered'' (document two_panels) = Some 2 \<and>
           first_id_list ''RightAligned'' (document two_panels) = Some 3 \<and>
           node_holder (tool_nodes two_panels) = Some 8"
    by (simp add: two_panels_def Let_def f default_settings_def demo_parse_icons css_of_def demo_styles_def
        button_classes_def)
  moreover have "map_option classes_of (lookup_elem 6 two_panels) = Some [''cdx-settings-button'']"
    by (simp add: two_panels_def Let_def default_settings_def demo_parse_icons css_of_def demo_styles_def
        button_classes_def lookup_elem_def all_roots_def demo_page_def)
  moreover have "\<forall>tn \<in> set (settings (tool two_panels)). first_id_list (name tn) (document two_panels) \<noteq> Some 6"
    using h by (simp add: default_settings_def)
  ultimately show ?thesis using click_misses_shadowed_button [of two_panels 6 "''Centered''"] by simp
qed

section \<open>A click marks the buttons of its own panel\<close>

lemma mark_button_found:
  "first_id_list (name tn) (document s) = Some b \<Longrightarrow> token_check [settingsButtonActive (tool_css s)] = None \<Longrightarrow>
   mark_button t tn s =
     Inr ((), on_roots (modify_list b (map_classes (mark_classes (settingsButtonActive (tool_css s)) t (name tn)))) s)"
  by (simp add: mark_button_def get_element_by_id_def class_list_add_def class_list_remove_def
      mark_classes_def [abs_def] del: tok_add_single tok_remove_single)

lemma marks_loop:
  assumes "\<forall>tn \<in> set ts. first_id_list (name tn) (document s) = Some (btn (name tn))"
    and "distinct (map (btn \<circ> name) ts)"
    and "token_check [settingsButtonActive (tool_css s)] = None"
  shows "\<exists>s'. js_for_each ts (mark_button t) s = Inr ((), s') \<and> tool s' = tool s \<and>
    (\<forall>tn \<in> set ts. map_option classes_of (lookup_elem (btn (name tn)) s') =
        map_option (mark_classes (settingsButtonActive (tool_css s)) t (name tn))
          (map_option classes_of (lookup_elem (btn (name tn)) s))) \<and>
    (\<forall>b. b \<notin> set (map (btn \<circ> name) ts) \<longrightarrow>
        map_option classes_of (lookup_elem b s') = map_option classes_of (lookup_elem b s))"
  using assms
proof (induction ts arbitrary: s)
  case Nil then show ?case by (simp add: js_simps)
next
  case (Cons tn ts s)
  let ?act = "settingsButtonActive (tool_css s)"
  let ?s1 = "on_roots (modify_list (btn (name tn)) (map_classes (mark_classes ?act t (name tn)))) s"
  have step: "mark_button t tn s = Inr ((), ?s1)"
    using Cons.prems by (simp add: mark_button_found)
  have h1: "\<forall>tn' \<in> set ts. first_id_list (name tn') (document ?s1) = Some (btn (name tn'))"
    using Cons.prems(1) by (simp add: on_roots_classes_other(2) first_id_modify_classes(2))
  from Cons.IH [OF h1] Cons.prems(2,3) obtain s' where
    r: "js_for_each ts (mark_button t) ?s1 = Inr ((), s')" and t': "tool s' = tool ?s1"
    and mk: "\<forall>tn' \<in> set ts. map_option classes_of (lookup_elem (btn (name tn')) s') =
        map_option (mark_classes ?act t (name tn')) (map_option classes_of (lookup_elem (btn (name tn')) ?s1))"
    and un: "\<forall>b. b \<notin> set (map (btn \<circ> name) ts) \<longrightarrow>
        map_option classes_of (lookup_elem b s') = map_option classes_of (lookup_elem b ?s1)"
    by auto
  have other: "map_option classes_of (lookup_elem b ?s1) = map_option classes_of (lookup_elem b s)"
    if "b \<noteq> btn (name tn)" for b
    using that by (simp add: on_roots_classes_other(1))
  have "js_for_each (tn # ts) (mark_button t) s = Inr ((), s')" using step r by (simp add: js_simps)
  moreover have "tool s' = tool s" using t' by simp
  moreover have "\<forall>tn' \<in> set (tn # ts). map_option classes_of (lookup_elem (btn (name tn')) s') =
        map_option (mark_classes ?act t (name tn')) (map_option classes_of (lookup_elem (btn (name tn')) s))"
  proof -
    have ne: "btn (name tn') \<noteq> btn (name tn)" if "tn' \<in> set ts" for tn'
      using Cons.prems(2) that by (auto simp: image_iff)
    have "map_option classes_of (lookup_elem (btn (name tn')) s') =
          map_option (mark_classes ?act t (name tn')) (map_option classes_of (lookup_elem (btn (name tn')) s))"
      if "tn' \<in> set ts" for tn'
      using mk that other [OF ne [OF that]] by simp
    moreover have "map_option classes_of (lookup_elem (btn (name tn)) s') =
          map_option (mark_classes ?act t (name tn)) (map_option classes_of (lookup_elem (btn (name tn)) s))"
      using un Cons.prems(2) by (simp add: on_roots_classes_same)
    ultimately show ?thesis by auto
  qed
  moreover have "\<forall>b. b \<notin> set (map (btn \<circ> name) (tn # ts)) \<longrightarrow>
        map_option classes_of (lookup_elem b s') = map_option classes_of (lookup_elem b s)"
    using un other by simp
  ultimately show ?case by blast
qed

text \<open>
  C21: when the block's own buttons are the first elements of the document with the
  tunes' ids (one panel on the page) and none of them is the holder, a click on tune
  \<open>t\<close> adds the active class to the button of \<open>t\<close> and removes it from every other button
  of the panel, whatever \<open>_acceptTuneView\<close> does afterwards.
\<close>

theorem click_marks_own_buttons:
  assumes ids: "\<forall>tn \<in> set (settings (tool s)). first_id_list (name tn) (document s) = Some (btn (name tn))"
    and dist: "distinct (map (btn \<circ> name) (settings (tool s)))"
    and tok: "token_check [settingsButtonActive (tool_css s)] = None"
    and hold: "\<forall>tn \<in> set (settings (tool s)). node_holder (tool_nodes s) \<noteq> Some (btn (name tn))"
    and tn: "tn \<in> set (settings (tool s))"
  shows "map_option classes_of (lookup_elem (btn (name tn)) (js_state (toggle_tune t s))) =
         map_option (mark_classes (settingsButtonActive (tool_css s)) t (name tn))
           (map_option classes_of (lookup_elem (btn (name tn)) s))"
proof -
  define s2 where "s2 = s\<lparr>tool := (tool s)\<lparr>data := (tool_data s)(t \<mapsto> JBool (\<not> truthy (tool_data s t)),
                                                        ''alignment'' \<mapsto> JStr t)\<rparr>\<rparr>"
  have unf: "toggle_tune t s = js_then (js_for_each (settings (tool s)) (mark_button t)) accept_tune_view s2"
    by (simp add: toggle_tune_def upd_data_def upd_tool_def get_tool_def js_simps s2_def)
  have f2: "document s2 = document s" "tool_css s2 = tool_css s" "settings (tool s2) = settings (tool s)"
    "tool_nodes s2 = tool_nodes s" "\<And>b. lookup_elem b s2 = lookup_elem b s"
    by (simp_all add: s2_def lookup_elem_def)
  obtain s3 where r: "js_for_each (settings (tool s)) (mark_button t) s2 = Inr ((), s3)"
    and t3: "tool s3 = tool s2"
    and mk: "\<forall>tn \<in> set (settings (tool s)). map_option classes_of (lookup_elem (btn (name tn)) s3) =
        map_option (mark_classes (settingsButtonActive (tool_css s)) t (name tn))
          (map_option classes_of (lookup_elem (btn (name tn)) s))"
    using marks_loop [of "settings (tool s)" s2 btn t] ids dist tok f2 by auto
  let ?C = "map_option classes_of (lookup_elem (btn (name tn)) s3)"
  let ?Q = "\<lambda>(c, f, tl). c = ?C \<and> node_holder (nodes tl) \<noteq> Some (btn (name tn))"
  have q3: "?Q (button_view (btn (name tn)) s3)"
    using hold tn t3 f2(4) by (simp add: button_view_def)
  have k: "js_keeps (\<lambda>s. ?Q (button_view (btn (name tn)) s)) accept_tune_view"
    by (rule accept_tune_view_keeps_view [where Q = ?Q]) auto
  have "?Q (button_view (btn (name tn)) (js_state (accept_tune_view s3)))"
    by (rule js_keeps_state [where P = "\<lambda>s. ?Q (button_view (btn (name tn)) s)", OF k q3])
  then have "map_option classes_of (lookup_elem (btn (name tn)) (js_state (accept_tune_view s3))) = ?C"
    by (simp add: button_view_def)
  moreover have "toggle_tune t s = accept_tune_view s3" using unf r by (simp add: js_simps)
  ultimately show ?thesis using mk tn by simp
qed

theorem click_marks_own_buttons_witness:
  "first_id_list ''LeftAligned'' (document one_panel) = Some 1 \<and>
   first_id_list ''Centered'' (document one_panel) = Some 2 \<and>
   first_id_list ''RightAligned'' (document one_panel) = Some 3 \<and>
   node_holder (tool_nodes one_panel) = Some 4 \<and>
   map_option classes_of (lookup_elem 1 (js_state (toggle_tune ''Centered'' one_panel))) =
     Some [''cdx-settings-button''] \<and>
   map_option classes_of (lookup_elem 2 (js_state (toggle_tune ''Centered'' one_panel))) =
     Some [''cdx-settings-button'', ''cdx-settings-button--active'']"
proof -
  have f: "settings (tool (demo_page d)) = default_settings" for d by (simp add: demo_page_def)
  have ids: "first_id_list ''LeftAligned'' (document one_panel) = Some 1 \<and>
     first_id_list ''Centered'' (document one_panel) = Some 2 \<and>
     first_id_list ''RightAligned'' (document one_panel) = Some 3 \<and>
     node_holder (tool_nodes one_panel) = Some 4 \<and> settings (tool one_panel) = default_settings \<and>
     tool_css one_panel = css_of demo_styles"
    by (simp add: one_panel_def Let_def f default_settings_def demo_parse_icons css_of_def demo_styles_def
        button_classes_def)
  have hyp: "(\<forall>tn \<in> set (settings (tool one_panel)). first_id_list (name tn) (document one_panel) = Some (one_panel_btn (name tn))) \<and>
    distinct (map (one_panel_btn \<circ> name) (settings (tool one_panel))) \<and>
    token_check [settingsButtonActive (tool_css one_panel)] = None \<and>
    (\<forall>tn \<in> set (settings (tool one_panel)). node_holder (tool_nodes one_panel) \<noteq> Some (one_panel_btn (name tn)))"
    using ids by (simp add: default_settings_def one_panel_btn_def css_of_def demo_styles_def ascii_whitespace_def)
  have before: "map_option classes_of (lookup_elem 1 one_panel) = Some [''cdx-settings-button'', ''cdx-settings-button--active'']"
    "map_option classes_of (lookup_elem 2 one_panel) = Some [''cdx-settings-button'']"
    by (simp_all add: one_panel_def Let_def default_settings_def demo_parse_icons css_of_def demo_styles_def
        button_classes_def lookup_elem_def all_roots_def demo_page_def)
  have l: "\<lparr>name = ''LeftAligned'', icon = left_icon\<rparr> \<in> set (settings (tool one_panel))"
    and c: "\<lparr>name = ''Centered'', icon = centered_icon\<rparr> \<in> set (settings (tool one_panel))"
    using ids by (simp_all add: default_settings_def)
  note k = click_marks_own_buttons [OF conjunct1 [OF hyp] conjunct1 [OF conjunct2 [OF hyp]]
        conjunct1 [OF conjunct2 [OF conjunct2 [OF hyp]]] conjunct2 [OF conjunct2 [OF conjunct2 [OF hyp]]]]
  have e1: "map_option classes_of (lookup_elem 1 (js_state (toggle_tune ''Centered'' one_panel))) =
      map_option (mark_classes ''cdx-settings-button--active'' ''Centered'' ''LeftAligned'')
        (map_option classes_of (lookup_elem 1 one_panel))"
    using k [OF l, of "''Centered''"] ids by (simp add: one_panel_btn_def css_of_def demo_styles_def)
  have e2: "map_option classes_of (lookup_elem 2 (js_state (toggle_tune ''Centered'' one_panel))) =
      map_option (mark_classes ''cdx-settings-button--active'' ''Centered'' ''Centered'')
        (map_option classes_of (lookup_elem 2 one_panel))"
    using k [OF c, of "''Centered''"] ids by (simp add: one_panel_btn_def css_of_def demo_styles_def)
  show ?thesis
    using ids e1 [unfolded before(1)] e2 [unfolded before(2)] by (simp add: mark_classes_def)
qed

end
