(* ===== verification/Render_Errors.thy ===== *)
theory Render_Errors
  imports Iframe_Tool
begin

text \<open>
  When \<open>render()\<close> (src/src/index.js lines 105--136) throws. The style classes come from
  the editor (\<open>api.styles\<close>, lines 45--57), and \<open>classList\<close> rejects an empty token
  (\<open>SyntaxError\<close>) and one containing white space (\<open>InvalidCharacterError\<close>).
  \<open>_make\<close> (lines 275--289) adds a string class only when it is truthy. So an empty
  loader class is skipped when the loader is made, and the throw comes later, from
  \<open>wrapper.classList.remove(this.CSS.loading)\<close> (line 113).
\<close>

section \<open>A page whose editor gives an empty loader class\<close>

definition empty_loader_page :: page where
  "empty_loader_page =
     (demo_page Map.empty)\<lparr>tool := (tool (demo_page Map.empty))\<lparr>CSS := css_of (demo_styles\<lparr>api_loader := []\<rparr>)\<rparr>\<rparr>"

section \<open>The error paths of render\<close>

lemma render_base_error:
  assumes "token_check [baseClass (tool_css s), wrapper (tool_css s)] = Some e"
  shows "render s = Inl (e, s\<lparr>fragments := fragments s @ [Elem (next_id s) ''div'' [] [] []],
                              next_id := Suc (next_id s)\<rparr>)"
  using assms
  by (simp add: render_def make_def js_simps create_element_def class_list_add_def get_tool_def
      del: token_check.simps)

lemma render_loader_error:
  assumes wf: "dom_wf s" and hv: "holder (tool_css s) = [''editorjs-iframe__frame'', ''flex'']"
    and bv: "token_check [baseClass (tool_css s), wrapper (tool_css s)] = None"
    and lv: "token_check [loading (tool_css s)] = Some e"
  shows "\<exists>s'. render s = Inl (e, s')"
proof (cases "loading (tool_css s) = []")
  case True
  note fresh = wf_fresh [OF wf]
  have "make ''div'' (ClassOne []) [] s' =
          Inr (next_id s', s'\<lparr>fragments := fragments s' @ [Elem (next_id s') ''div'' [] [] []],
                              next_id := Suc (next_id s')\<rparr>)" for s' :: page
    by (simp add: make_def js_simps create_element_def)
  with True lv bv hv fresh show ?thesis
    by (simp add: render_def js_simps make_fresh append_child_def class_list_add_def
      class_list_remove_def lookup_elem_def all_roots_def on_roots_def tree_simps get_tool_def
      absent_id_simps parent_element_def holder_tokens
      del: token_check.simps)
next
  case False
  note fresh = wf_fresh [OF wf]
  from False lv bv fresh show ?thesis
    by (simp add: render_def js_simps make_fresh make_def create_element_def class_list_add_def
        get_tool_def absent_id_simps del: token_check.simps)
qed

text \<open>
  C23: on a well-formed page, \<open>render()\<close> throws \<open>e\<close> exactly when the wrapper's classes
  (the editor's block class and the tool's wrapper class) are rejected with \<open>e\<close>, or
  they are accepted and the editor's loader class is rejected with \<open>e\<close>. With valid
  classes it completes.
\<close>

theorem render_class_errors:
  assumes wf: "dom_wf s" and hv: "holder (tool_css s) = [''editorjs-iframe__frame'', ''flex'']"
  shows "(\<exists>s'. render s = Inl (e, s')) \<longleftrightarrow>
    token_check [baseClass (tool_css s), wrapper (tool_css s)] = Some e \<or>
    (token_check [baseClass (tool_css s), wrapper (tool_css s)] = None \<and>
     token_check [loading (tool_css s)] = Some e)"
proof (cases "token_check [baseClass (tool_css s), wrapper (tool_css s)]")
  case (Some e')
  then show ?thesis using render_base_error [OF Some] by auto
next
  case None
  show ?thesis
  proof (cases "token_check [loading (tool_css s)]")
    case (Some e')
    then obtain s' where "render s = Inl (e', s')" using render_loader_error [OF wf hv None] by blast
    with None Some show ?thesis by auto
  next
    case l: None
    with None hv have "css_valid (tool_css s)" by (simp add: css_valid_def)
    with render_ok [OF wf] None l show ?thesis by auto
  qed
qed

theorem render_class_errors_witness:
  "dom_wf empty_loader_page \<and>
   holder (tool_css empty_loader_page) = [''editorjs-iframe__frame'', ''flex''] \<and>
   (\<exists>s'. render empty_loader_page = Inl (DOMException ''SyntaxError'', s'))"
proof -
  have wf: "dom_wf empty_loader_page" by (simp add: empty_loader_page_def dom_wf_def all_roots_def demo_page_def)
  have hv: "holder (tool_css empty_loader_page) = [''editorjs-iframe__frame'', ''flex'']"
    by (simp add: empty_loader_page_def css_of_def)
  have "token_check [baseClass (tool_css empty_loader_page), wrapper (tool_css empty_loader_page)] = None"
    "token_check [loading (tool_css empty_loader_page)] = Some (DOMException ''SyntaxError'')"
    by (simp_all add: empty_loader_page_def css_of_def demo_styles_def ascii_whitespace_def)
  with wf hv render_class_errors [OF wf hv, of "DOMException ''SyntaxError''"] show ?thesis by simp
qed

end
