(* ===== verification/Spec2Isabelle.thy ===== *)
theory Spec2Isabelle
  imports Read_Only Settings_Panel Render_Errors
begin

text \<open>
  \<^bold>\<open>A verification development of the Editor.js iframe block tool.\<close>

  The program is one JavaScript class, \<open>Iframe\<close> in src/src/index.js (src/dist/bundle.js
  is a minified build of an older source and is not modelled). The Editor.js host
  constructs one instance per block from the saved data, calls \<open>render()\<close> for the
  block's element, \<open>save()\<close> to read the data back, \<open>renderSettings()\<close> for the tune
  buttons whose click listeners call \<open>_toggleTune\<close>, and \<open>onPaste\<close> for content matched
  by the static \<open>pasteConfig\<close>. Every method works on the browser DOM through
  \<open>document.createElement\<close>, \<open>classList\<close>, \<open>appendChild\<close>, \<open>innerHTML\<close>,
  \<open>querySelector\<close> and \<open>document.getElementById\<close>.

  \<^bold>\<open>Theories.\<close>
  \<^item> \<open>Prelude\<close>: JavaScript values (\<open>jsval\<close>, with host objects as \<open>JObj\<close>), truthiness,
    the string conversion of the \<open>innerHTML\<close> setter, loose equality with a tune name,
    \<open>Object.assign\<close>; the result monad \<open>js\<close> of a statement sequence that returns a value
    or throws a \<open>js_error\<close> together with the state reached (assignments made before a
    throw stay made), and \<open>js_keeps\<close>, preservation of a state predicate on both
    outcomes, with one introduction rule per combinator.
  \<^item> \<open>Dom\<close>: the browser DOM the tool relies on. Elements carry identities (\<open>node\<close>), so a
    cached reference (\<open>this.nodes.iframe\<close>) is a number that can name a detached element;
    the state is the document, the detached trees (\<open>fragments\<close>) and the allocator. Each
    DOM method the tool calls is one definition with its exceptions (\<open>classList\<close> token
    errors, \<open>HierarchyRequestError\<close>). The HTML parser and serializer are functions
    stored in the state: the development assumes nothing of them, and a theorem that
    needs a property of them states it about the markup at hand. \<open>dom_wf\<close> (distinct,
    allocated identities) is kept by every operation.
  \<^item> \<open>Iframe_Tool\<close>: the instance as the record \<open>iframe_tool\<close> (the fields the constructor
    sets), the page as \<open>page = dom + tool\<close>, and one definition per method in the order of
    the source: \<open>construct\<close> (lines 25--94), \<open>render\<close> (105--136), \<open>save\<close> (143--156),
    \<open>sanitize\<close>, \<open>isReadOnlySupported\<close>, \<open>on_paste\<close> (182--201), the \<open>data\<close> accessor
    pair \<open>get_tool\<close>/\<open>set_data\<close> (208--223), \<open>render_settings\<close> (245--265), \<open>make\<close>
    (275--289), \<open>toggle_tune\<close> (297--308) and \<open>accept_tune_view\<close> (315--333). Lemmas give
    the exact result of each method on every branch (\<open>render_frame\<close>,
    \<open>render_no_frame\<close>, \<open>save_found\<close>, \<open>set_data_detached\<close>, ...), the class projection
    of the alignment (\<open>apply_view\<close>, \<open>tune_view\<close>), and a concrete page (\<open>demo_page\<close>,
    with a small parser that knows the markup of the examples) on which the witnesses
    evaluate.
  \<^item> \<open>Paste_Pattern\<close>: the regular expression of \<open>pasteConfig\<close> (line 235) as a term of a
    small ECMAScript pattern syntax with continuation-passing backtracking semantics
    (\<open>mt\<close>, greedy \<open>star_g\<close>, lazy \<open>star_l\<close>) and \<open>exec\<close>, the leftmost match; a direct
    scanner \<open>scan\<close> proved equal to it, and the shape of every match.
  \<^item> \<open>Tool_Invariants\<close>: every method keeps \<open>dom_wf\<close>, and writes only the fields of the
    tool its source assigns; stated for any predicate blind to those fields.
  \<^item> \<open>Settings_Panel\<close>: \<open>renderSettings()\<close> as a one-pass builder \<open>panel_build\<close> of
    the tune buttons (\<open>button_classes\<close> for the class of one button) and the proof that
    the statement-level \<open>render_settings\<close> returns exactly its panel; the invariant
    \<open>button_kept\<close> of a click (\<open>toggle_tune\<close>) for elements not found by id, over
    \<open>button_view\<close> (what a statement can observe of one element); \<open>mark_classes\<close>, the
    class change of the click's loop, and its effect on the panel's own buttons.
  \<^item> \<open>Read_Only\<close>: the read-only flag; \<open>js_commutes\<close> (in \<open>Prelude\<close>, with one rule
    per combinator in \<open>commutes\<close>) shows that every DOM operation, every method and every
    host step commutes with changing the flag (\<open>set_ro\<close>).
  \<^item> \<open>Render_Errors\<close>: the error paths of \<open>render\<close> (the token errors of
    \<open>classList\<close> on the editor's style classes), on \<open>empty_loader_page\<close> among others.
  \<^item> \<open>Host\<close>: the Editor.js host as an inductive step relation \<open>host_step\<close> (render, attach
    a detached tree, save, tag paste, pattern paste, settings, click on an attached
    button), the reachable pages \<open>reachable\<close> from the constructor on any saved data,
    the block data of the specification (\<open>block\<close>: frame and optional \<open>tune\<close>), the
    abstraction \<open>abs_block\<close> of the tool's data object and the abstract steps \<open>a_step\<close>.

  \<^bold>\<open>What is proved\<close> (claims C1--C23, each stated after a text naming it).
  Alignment tunes: a click sets the alignment on every branch (C1). \<open>_acceptTuneView\<close>
  leaves exactly the layout class of the alignment (C2) and is idempotent (C3). A click
  with no \<open>LeftAligned\<close> element in the document throws after storing the alignment,
  leaving the view stale (C11). Data and paste: a paste replaces the frame and keeps the
  alignment (C4). After \<open>render\<close> injected a saved frame the cached iframe is detached,
  and every paste throws (C5). Render and save: render completes with the documented
  layout (C9). Render followed by save stores the serialization of the parsed frame
  (C6), persists the placeholder for an empty block (C7), and drops an element wrapping
  the iframe together with what follows it, for any parser (C8). The constructor keeps
  any truthy alignment (C10). A tag paste into an empty block leaves save with the
  element object as the frame, not markup (C18). Paste pattern: its backtracking
  semantics equals the scanner (C12). Every match is a lower-case iframe tag on one line
  ending at the first closing tag (C13). Host: the alignment is false or a tune name in
  every reachable page when the saved one was (C14). Every host step refines a step of
  the abstract block (C15), and \<open>_toggleTune\<close> refines tune selection exactly (C16). The
  frame stays a string unless a tag paste happens, when the saved one was absent,
  undefined or a string (C17). Settings: \<open>renderSettings()\<close> returns a fresh panel with
  exactly one button per tune in order, the active class on the stored alignment, and
  one click listener per tune (C19). A click never changes the classes of an element
  that is neither the holder nor the first element with a tune's id, so a button
  shadowed by an earlier element with the same id, for instance another block's panel,
  is never marked (C20). With its own buttons first, a click marks exactly the clicked
  tune's button and unmarks the others (C21). The read-only flag interferes with nothing
  the host can do: a block constructed read-only reaches exactly the pages of an editable
  one, pastes and clicks included, so read-only protection is left to the host (C22).
  \<open>render\<close> throws exactly the token error of the wrapper classes or of the loader class,
  and completes otherwise. An empty loader class passes \<open>_make\<close> but makes
  \<open>classList.remove\<close> throw (C23). The DOM's well-formedness (\<open>dom_wf\<close>, kept by every
  DOM primitive) is used as a lemma throughout, not claimed as a property of the tool.

  \<^bold>\<open>Bounds and fuel.\<close> No loop of the program can run forever: every recursion of the model
  is structural (on trees, lists, the input suffix of the matcher) or \<open>exec_from\<close>,
  whose termination is proved with the measure \<open>length s + 1 - i\<close>. No fuel is used.
  JavaScript numbers appear only in \<open>blockIndex\<close>, an unbounded \<open>int\<close>, never compared.

  \<^bold>\<open>Not modelled.\<close> The HTML parser and serializer (browser code; kept abstract); CSS and
  layout (src/src/index.css has no behaviour); the no-op \<open>onerror\<close> handler and
  \<open>console.log\<close>; \<open>static title\<close>'s use by the host; the host's block switching,
  popover and toolbox handling, pages with several blocks sharing the document (one
  block is modelled; C20 covers a foreign element with a tune's id), its read-only
  mode (which dispatches fewer events than the host modelled here), and its paste
  dispatch beyond the calls above; the
  minified bundle src/dist/bundle.js (generated code). Characters are 8-bit: the line
  terminators U+2028 and U+2029 that \<open>.\<close> also excludes are not representable.
\<close>

end
